(* ===== verification/Prelude.thy ===== *)
theory Prelude
  imports Complex_Main
begin

text \<open>
  Shared vocabulary of the SmartRSSFeed development.  The application is TypeScript
  running in a browser (React components) and in Next.js route handlers.  JavaScript
  numbers used as playback positions in seconds are modelled as \<open>real\<close> (NaN and
  rounding are not modelled, see the root theory); JavaScript strings are \<open>string\<close>.
  This theory holds the string operations of the JavaScript standard library that
  several components call (\<open>Array.prototype.join\<close>, \<open>String.prototype.split\<close> with a
  one-character separator, \<open>trim\<close>, the truthiness of strings), the collection
  \<open>js_simps\<close> of their evaluation rules, and list lemmas the component proofs share.
\<close>

named_theorems js_simps "evaluation rules of the modelled JavaScript library functions"

type_synonym sec = real

subsection \<open>Truthiness and the \<open>||\<close> operator on optional strings\<close>

text \<open>
  A string is truthy in JavaScript when it is not empty; \<open>undefined\<close> is falsy.
  \<open>a || b\<close> returns \<open>a\<close> when \<open>a\<close> is truthy, else \<open>b\<close>.  An optional string
  (\<open>None\<close> for \<open>undefined\<close>) is the type of a field a JSON object may lack.
\<close>

definition str_truthy :: "string option \<Rightarrow> bool" where
  "str_truthy s = (case s of None \<Rightarrow> False | Some x \<Rightarrow> x \<noteq> [])"

definition js_or :: "string option \<Rightarrow> string option \<Rightarrow> string option" where
  "js_or a b = (if str_truthy a then a else b)"

lemma str_truthy_simps [simp, js_simps]:
  "str_truthy None = False"
  "str_truthy (Some x) = (x \<noteq> [])"
  by (simp_all add: str_truthy_def)

lemma js_or_simps [simp, js_simps]:
  "js_or None b = b"
  "js_or (Some x) b = (if x = [] then b else Some x)"
  by (simp_all add: js_or_def)

subsection \<open>\<open>Array.prototype.join\<close>\<close>

fun join_with :: "string \<Rightarrow> string list \<Rightarrow> string" where
  "join_with sep [] = []"
| "join_with sep [x] = x"
| "join_with sep (x # y # ys) = x @ sep @ join_with sep (y # ys)"

lemma join_with_append [js_simps]:
  "xs \<noteq> [] \<Longrightarrow> ys \<noteq> [] \<Longrightarrow> join_with sep (xs @ ys) = join_with sep xs @ sep @ join_with sep ys"
proof (induction sep xs rule: join_with.induct)
  case (2 sep x)
  then show ?case by (cases ys) auto
qed auto

subsection \<open>\<open>String.prototype.split\<close> with a one-character separator\<close>

text \<open>
  \<open>s.split(c)\<close> returns the maximal pieces between occurrences of \<open>c\<close>, always at
  least one (\<open>''''.split(c)\<close> is \<open>[''''']\<close>).
\<close>

fun split_on :: "char \<Rightarrow> string \<Rightarrow> string list" where
  "split_on c [] = [[]]"
| "split_on c (x # xs) =
     (if x = c then [] # split_on c xs
      else (case split_on c xs of p # ps \<Rightarrow> (x # p) # ps | [] \<Rightarrow> [[x]]))"

lemma split_on_nonempty [simp]: "split_on c s \<noteq> []"
  by (induction s) (auto split: list.split)

lemma split_on_no_sep: "p \<in> set (split_on c s) \<Longrightarrow> c \<notin> set p"
proof (induction s arbitrary: p)
  case (Cons x xs)
  then show ?case by (auto split: if_splits list.splits)
qed simp

lemma split_on_free [simp]: "c \<notin> set s \<Longrightarrow> split_on c s = [s]"
  by (induction s) auto

lemma join_split_on [js_simps]: "join_with [c] (split_on c s) = s"
proof (induction s)
  case (Cons x xs)
  then show ?case
    by (cases "split_on c xs"; cases "tl (split_on c xs)") (auto split: list.splits)
qed simp

lemma split_on_append_sep:
  "c \<notin> set a \<Longrightarrow> split_on c (a @ c # b) = a # split_on c b"
  by (induction a) auto

subsection \<open>Whitespace and \<open>String.prototype.trim\<close>\<close>

text \<open>
  The ASCII white-space characters that \<open>trim\<close> and \<open>parseInt\<close> remove: space,
  tab, line feed, vertical tab, form feed, carriage return.  (JavaScript also counts
  the Unicode spaces, which a \<open>char\<close> of this model cannot hold.)
\<close>

definition is_ws :: "char \<Rightarrow> bool" where
  "is_ws c = (c \<in> {CHR '' '', CHR 0x09, CHR 0x0A, CHR 0x0B, CHR 0x0C, CHR 0x0D})"

definition trim :: "string \<Rightarrow> string" where
  "trim s = rev (dropWhile is_ws (rev (dropWhile is_ws s)))"

lemma dropWhile_all_iff: "(\<forall>x\<in>set (dropWhile P xs). P x) \<longleftrightarrow> dropWhile P xs = []"
proof (cases "dropWhile P xs")
  case (Cons a l)
  then have "\<not> P a" using hd_dropWhile[of P xs] by simp
  with Cons show ?thesis by simp
qed (simp del: dropWhile_eq_Nil_conv)

lemma trim_Nil [simp]: "trim [] = []"
  by (simp add: trim_def)

lemma trim_empty_iff [js_simps]: "trim s = [] \<longleftrightarrow> (\<forall>c\<in>set s. is_ws c)"
proof -
  have "trim s = [] \<longleftrightarrow> (\<forall>x\<in>set (dropWhile is_ws s). is_ws x)"
    by (simp add: trim_def)
  also have "\<dots> \<longleftrightarrow> dropWhile is_ws s = []"
    by (rule dropWhile_all_iff)
  finally show ?thesis by simp
qed

subsection \<open>\<open>Array.prototype.findIndex\<close>\<close>

text \<open>The index of the first element satisfying the predicate, or \<open>-1\<close>.\<close>

fun js_find_index :: "('a \<Rightarrow> bool) \<Rightarrow> 'a list \<Rightarrow> int" where
  "js_find_index p [] = -1"
| "js_find_index p (x # xs) =
     (if p x then 0 else (let r = js_find_index p xs in if r = -1 then -1 else r + 1))"

lemma js_find_index_cases:
  "js_find_index p xs = -1 \<or> (0 \<le> js_find_index p xs \<and> js_find_index p xs < int (length xs))"
  by (induction xs) (auto simp: Let_def)

lemma js_find_index_none [js_simps]: "js_find_index p xs = -1 \<longleftrightarrow> (\<forall>x\<in>set xs. \<not> p x)"
proof (induction xs)
  case (Cons x xs)
  have "js_find_index p xs + 1 \<noteq> -1" using js_find_index_cases [of p xs] by auto
  with Cons show ?case by (auto simp: Let_def)
qed simp

lemma js_find_index_range:
  "js_find_index p xs \<noteq> -1 \<Longrightarrow> 0 \<le> js_find_index p xs \<and> js_find_index p xs < int (length xs)"
  using js_find_index_cases [of p xs] by simp

lemma js_find_index_first:
  assumes "js_find_index p xs = int i"
  shows "i < length xs \<and> p (xs ! i) \<and> (\<forall>j<i. \<not> p (xs ! j))"
  using assms
proof (induction xs arbitrary: i)
  case (Cons x xs)
  show ?case
  proof (cases "p x")
    case False
    then obtain k where k: "js_find_index p xs = int k" and i: "i = Suc k"
      using Cons.prems js_find_index_range [of p xs]
      by (cases i) (auto simp: Let_def split: if_splits)
    then show ?thesis
      using Cons.IH [OF k] False by (auto simp: nth_Cons' less_Suc_eq_0_disj)
  qed (use Cons.prems in simp)
qed simp

lemma js_find_index_eqI:
  "i < length xs \<Longrightarrow> p (xs ! i) \<Longrightarrow> (\<forall>j<i. \<not> p (xs ! j)) \<Longrightarrow> js_find_index p xs = int i"
proof (induction xs arbitrary: i)
  case (Cons x xs)
  show ?case
  proof (cases i)
    case 0
    then show ?thesis using Cons.prems by simp
  next
    case (Suc k)
    have px: "\<not> p x" using Cons.prems(3) Suc by (metis nth_Cons_0 zero_less_Suc)
    have "\<forall>j<k. \<not> p (xs ! j)" using Cons.prems(3) Suc by auto
    then have "js_find_index p xs = int k"
      using Cons.IH [of k] Cons.prems(1,2) Suc by simp
    then show ?thesis using px Suc by (simp add: Let_def)
  qed
qed simp

subsection \<open>\<open>parseInt\<close> with the default radix\<close>

text \<open>
  \<open>parseInt(s)\<close> (ECMAScript 19.2.5, no radix argument): skip leading white space,
  read an optional sign, read the prefix \<open>0x\<close>/\<open>0X\<close> as radix 16 (else radix 10),
  then take the longest run of digits of the radix; no digit at all is \<open>NaN\<close>, here
  \<open>None\<close>.  Digits beyond 9 are the letters, in either case.
\<close>

definition js_digit_value :: "nat \<Rightarrow> char \<Rightarrow> nat option" where
  "js_digit_value radix c =
     (let n = (of_char c :: nat);
          d = (if 48 \<le> n \<and> n \<le> 57 then Some (n - 48)
               else if 97 \<le> n \<and> n \<le> 122 then Some (n - 87)
               else if 65 \<le> n \<and> n \<le> 90 then Some (n - 55) else None)
      in case d of Some v \<Rightarrow> if v < radix then Some v else None | None \<Rightarrow> None)"

fun take_digits :: "nat \<Rightarrow> string \<Rightarrow> nat list" where
  "take_digits radix [] = []"
| "take_digits radix (c # cs) =
     (case js_digit_value radix c of Some d \<Rightarrow> d # take_digits radix cs | None \<Rightarrow> [])"

definition digits_value :: "nat \<Rightarrow> nat list \<Rightarrow> nat" where
  "digits_value radix ds = foldl (\<lambda>acc d. acc * radix + d) 0 ds"

definition parse_sign :: "string \<Rightarrow> int \<times> string" where
  "parse_sign s =
     (case s of c # r \<Rightarrow> if c = CHR ''-'' then (-1, r) else if c = CHR ''+'' then (1, r) else (1, s)
      | [] \<Rightarrow> (1, []))"

definition parse_radix :: "string \<Rightarrow> nat \<times> string" where
  "parse_radix s =
     (case s of c0 # c1 # r \<Rightarrow>
        if c0 = CHR ''0'' \<and> (c1 = CHR ''x'' \<or> c1 = CHR ''X'') then (16, r) else (10, s)
      | _ \<Rightarrow> (10, s))"

definition parse_int :: "string \<Rightarrow> int option" where
  "parse_int s =
     (let (sign, s2) = parse_sign (dropWhile is_ws s);
          (radix, s3) = parse_radix s2;
          ds = take_digits radix s3
      in if ds = [] then None else Some (sign * int (digits_value radix ds)))"

lemmas parse_int_simps [js_simps] =
  parse_int_def parse_sign_def parse_radix_def digits_value_def js_digit_value_def is_ws_def

subsection \<open>Backtracking matchers for regular expressions\<close>

text \<open>
  A matcher returns the remainders of its input it can leave, in the order in which
  JavaScript's backtracking engine tries them; the first remainder that lets the rest
  of a pattern match is the one JavaScript reports.
\<close>

type_synonym matcher = "string \<Rightarrow> string list"

definition m_char :: "(char \<Rightarrow> bool) \<Rightarrow> matcher" where
  "m_char P s = (case s of c # r \<Rightarrow> if P c then [r] else [] | [] \<Rightarrow> [])"

definition m_seq :: "matcher \<Rightarrow> matcher \<Rightarrow> matcher" where
  "m_seq m1 m2 s = concat (map m2 (m1 s))"

text \<open>A greedy \<open>?\<close>: the engine tries the item first, then the empty match.\<close>

definition m_opt :: "matcher \<Rightarrow> matcher" where
  "m_opt m s = m s @ [s]"

lemma m_char_iff [simp]: "r \<in> set (m_char P s) \<longleftrightarrow> (\<exists>c. P c \<and> s = c # r)"
  by (cases s) (auto simp: m_char_def)

lemma m_seq_iff [simp]: "r \<in> set (m_seq m1 m2 s) \<longleftrightarrow> (\<exists>r1 \<in> set (m1 s). r \<in> set (m2 r1))"
  by (auto simp: m_seq_def)

lemma m_opt_iff [simp]: "r \<in> set (m_opt m s) \<longleftrightarrow> r \<in> set (m s) \<or> r = s"
  by (auto simp: m_opt_def)

text \<open>A literal string, and a greedy \<open>*\<close> over a character class: the longest run
  first, then each shorter one.\<close>

definition m_lit :: "string \<Rightarrow> matcher" where
  "m_lit w s = (if take (length w) s = w then [drop (length w) s] else [])"

definition m_star :: "(char \<Rightarrow> bool) \<Rightarrow> matcher" where
  "m_star P s = map (\<lambda>j. drop j s) (rev [0..<Suc (length (takeWhile P s))])"

text \<open>\<open>String.prototype.replace\<close> with a global pattern and a literal replacement: at
  each position the engine's first match is replaced and the scan resumes after it; an
  empty match inserts the replacement and the scan copies one character.\<close>

function js_replace_all :: "matcher \<Rightarrow> string \<Rightarrow> string \<Rightarrow> string" where
  "js_replace_all m rep s =
     (case m s of
        [] \<Rightarrow> (case s of [] \<Rightarrow> [] | c # u \<Rightarrow> c # js_replace_all m rep u)
      | t # _ \<Rightarrow>
          if length t < length s then rep @ js_replace_all m rep t
          else rep @ (case s of [] \<Rightarrow> [] | c # u \<Rightarrow> c # js_replace_all m rep u))"
  by pat_completeness auto
termination by (relation "measure (\<lambda>(m, rep, s). length s)") auto

declare js_replace_all.simps [simp del]

lemma js_replace_all_Nil [simp]: "m [] = [] \<Longrightarrow> js_replace_all m rep [] = []"
  by (simp add: js_replace_all.simps)

lemma js_replace_all_no_match:
  "m (c # u) = [] \<Longrightarrow> js_replace_all m rep (c # u) = c # js_replace_all m rep u"
  by (simp add: js_replace_all.simps [of m rep "c # u"])

lemma js_replace_all_match:
  "m s = t # ts \<Longrightarrow> length t < length s \<Longrightarrow> js_replace_all m rep s = rep @ js_replace_all m rep t"
  by (simp add: js_replace_all.simps [of m rep s])

subsection \<open>String methods\<close>

text \<open>\<open>toLowerCase\<close> on ASCII letters and \<open>includes\<close>.\<close>

definition lower_char :: "char \<Rightarrow> char" where
  "lower_char c = (let n = (of_char c :: nat) in if 65 \<le> n \<and> n \<le> 90 then char_of (n + 32) else c)"

definition js_lower :: "string \<Rightarrow> string" where
  "js_lower s = map lower_char s"

definition js_includes :: "string \<Rightarrow> string \<Rightarrow> bool" where
  "js_includes s t \<longleftrightarrow> list_ex (\<lambda>i. take (length t) (drop i s) = t) [0..<Suc (length s)]"

text \<open>Lower-casing twice changes nothing, and a piece of a lower-case string is lower
  case.\<close>

lemma lower_char_idem [simp]: "lower_char (lower_char c) = lower_char c"
proof -
  have "of_char (char_of (n + 32) :: char) = n + 32" if "n \<le> 90" for n :: nat
    using that by (simp add: of_char_of)
  then show ?thesis by (auto simp: lower_char_def Let_def)
qed

lemma js_lower_idem: "js_lower (js_lower s) = js_lower s"
  by (simp add: js_lower_def)

lemma js_lower_infix:
  assumes "js_lower s = s" and "u = take k (drop i s)"
  shows "js_lower u = u"
proof -
  have "js_lower u = take k (drop i (js_lower s))" using assms(2) by (simp add: js_lower_def take_map drop_map)
  then show ?thesis using assms by simp
qed

subsection \<open>Shared list lemmas\<close>

lemma all_le_list_all: "(\<forall>k \<le> n. P k) \<longleftrightarrow> list_all P [0..<Suc n]"
  by (auto simp: list_all_iff less_Suc_eq_le)

end
