(* ===== verification/Chunker.thy ===== *)
theory Chunker
  imports Prelude
begin

text \<open>
  The transcript data and the chunker of \<open>src/src/app/components/TranscriptCards.tsx\<close>:
  the \<open>Word\<close> and \<open>TranscriptChunk\<close> interfaces as records, the constant
  \<open>WORDS_PER_CHUNK\<close>, and the \<open>useEffect\<close> on \<open>[words]\<close> (lines 39--69) that
  walks the words with \<open>forEach\<close> and closes a chunk at the last word or at a word
  ending in \<open>.\<close>, \<open>!\<close> or \<open>?\<close> once the chunk holds \<open>WORDS_PER_CHUNK\<close> words.
  The loop is translated as a \<open>foldl\<close> of one step function over the enumerated words,
  with the loop's three mutable variables as the record \<open>chunk_acc\<close>.

  The reference specification \<open>chunk_groups\<close> is the same partition written as a
  recursion on the words; \<open>valid_chunking\<close> is the declarative contract (no word lost
  or reordered, closed chunks are full and end a sentence, no chunk runs past an
  admissible boundary).  The lemmas show that the loop computes \<open>chunk_groups\<close>,
  that \<open>chunk_groups\<close> satisfies the contract, and that the contract has no other
  solution.
\<close>

named_theorems chunk_simps "rewriting rules for the chunker's reference partition"

section \<open>Data\<close>

text \<open>\<open>interface Word\<close> (TranscriptCards.tsx lines 7--14).\<close>

record word =
  w_word :: string
  w_start :: sec
  w_end :: sec
  w_confidence :: "real option"
  w_speaker :: "int option"

text \<open>\<open>interface TranscriptChunk\<close> (lines 23--28).\<close>

record transcript_chunk =
  c_words :: "word list"
  c_text :: string
  start_time :: sec
  end_time :: sec

definition WORDS_PER_CHUNK :: nat where
  "WORDS_PER_CHUNK = 100"

text \<open>\<open>word.word.match(/[.!?]$/)\<close>: the last character is a terminal punctuation mark
  (\<open>$\<close> without the \<open>m\<close> flag matches only at the end of the string).\<close>

definition ends_with_punctuation :: "string \<Rightarrow> bool" where
  "ends_with_punctuation s \<longleftrightarrow> s \<noteq> [] \<and> last s \<in> {CHR ''.'', CHR ''!'', CHR ''?''}"

section \<open>The chunking loop\<close>

text \<open>The object pushed onto \<open>newChunks\<close> (lines 57--62).\<close>

definition make_chunk :: "word list \<Rightarrow> transcript_chunk" where
  "make_chunk cur =
     \<lparr>c_words = cur, c_text = join_with '' '' (map w_word cur),
      start_time = w_start (hd cur), end_time = w_end (last cur)\<rparr>"

text \<open>The loop variables \<open>newChunks\<close>, \<open>currentChunk\<close>, \<open>wordCount\<close>.\<close>

record chunk_acc =
  new_chunks :: "transcript_chunk list"
  current_chunk :: "word list"
  word_count :: nat

definition chunk_acc_init :: chunk_acc where
  "chunk_acc_init = \<lparr>new_chunks = [], current_chunk = [], word_count = 0\<rparr>"

text \<open>One iteration of \<open>words.forEach((word, index) => ...)\<close> (lines 47--66), for
  the limit \<open>per_chunk\<close> and \<open>len = words.length\<close>.\<close>

definition chunk_step :: "nat \<Rightarrow> nat \<Rightarrow> chunk_acc \<Rightarrow> nat \<times> word \<Rightarrow> chunk_acc" where
  "chunk_step per_chunk len acc iw =
     (case iw of (index, w) \<Rightarrow>
       let cur = current_chunk acc @ [w];
           cnt = Suc (word_count acc);
           is_last_word = (index = len - 1);
           ends_punct = ends_with_punctuation (w_word w);
           reached_limit = per_chunk \<le> cnt
       in if is_last_word \<or> (ends_punct \<and> reached_limit)
          then \<lparr>new_chunks = new_chunks acc @ [make_chunk cur], current_chunk = [], word_count = 0\<rparr>
          else acc\<lparr>current_chunk := cur, word_count := cnt\<rparr>)"

definition split_into_chunks :: "nat \<Rightarrow> word list \<Rightarrow> transcript_chunk list" where
  "split_into_chunks per_chunk words =
     new_chunks (foldl (chunk_step per_chunk (length words)) chunk_acc_init (enumerate 0 words))"

text \<open>The whole effect (lines 40--69): \<open>if (!words.length) return;\<close> leaves the
  previous \<open>chunks\<close> state in place; otherwise \<open>setChunks(newChunks)\<close>.\<close>

definition chunk_effect :: "word list \<Rightarrow> transcript_chunk list \<Rightarrow> transcript_chunk list" where
  "chunk_effect words chunks =
     (if words = [] then chunks else split_into_chunks WORDS_PER_CHUNK words)"

section \<open>Reference specification\<close>

text \<open>\<open>chunk_groups per_chunk cur ws\<close>: the groups produced from the remaining words
  \<open>ws\<close> when the open chunk already holds \<open>cur\<close>.\<close>

fun chunk_groups :: "nat \<Rightarrow> word list \<Rightarrow> word list \<Rightarrow> word list list" where
  "chunk_groups per_chunk cur [] = []"
| "chunk_groups per_chunk cur [w] = [cur @ [w]]"
| "chunk_groups per_chunk cur (w # v # ws) =
     (if ends_with_punctuation (w_word w) \<and> per_chunk \<le> Suc (length cur)
      then (cur @ [w]) # chunk_groups per_chunk [] (v # ws)
      else chunk_groups per_chunk (cur @ [w]) (v # ws))"

text \<open>No word at a position (counted from 1) of at least \<open>per_chunk\<close>, other than the
  last word, ends a sentence: the chunk was not closed before its end.\<close>

definition no_early_boundary :: "nat \<Rightarrow> word list \<Rightarrow> bool" where
  "no_early_boundary per_chunk g \<longleftrightarrow>
     list_all (\<lambda>w. \<not> ends_with_punctuation (w_word w)) (drop (per_chunk - 1) (butlast g))"

definition valid_chunking :: "nat \<Rightarrow> word list \<Rightarrow> word list list \<Rightarrow> bool" where
  "valid_chunking per_chunk ws gs \<longleftrightarrow>
     concat gs = ws \<and>
     (\<forall>g\<in>set gs. g \<noteq> [] \<and> no_early_boundary per_chunk g) \<and>
     (\<forall>g\<in>set (butlast gs). per_chunk \<le> length g \<and> ends_with_punctuation (w_word (last g)))"

section \<open>The loop computes the reference partition\<close>

lemma chunk_step_eq:
  "chunk_step per_chunk len acc (i, w) =
     (if i = len - 1 \<or> (ends_with_punctuation (w_word w) \<and> per_chunk \<le> Suc (word_count acc))
      then \<lparr>new_chunks = new_chunks acc @ [make_chunk (current_chunk acc @ [w])],
            current_chunk = [], word_count = 0\<rparr>
      else acc\<lparr>current_chunk := current_chunk acc @ [w], word_count := Suc (word_count acc)\<rparr>)"
  by (simp add: chunk_step_def Let_def)

lemma chunk_step_count:
  "word_count acc = length (current_chunk acc) \<Longrightarrow>
   word_count (chunk_step per_chunk len acc iw) = length (current_chunk (chunk_step per_chunk len acc iw))"
  by (cases iw) (simp add: chunk_step_eq)

lemma foldl_chunk_step:
  assumes "word_count acc = length (current_chunk acc)"
  shows "foldl (chunk_step per_chunk (i + length ws)) acc (enumerate i ws) =
    (if ws = [] then acc
     else \<lparr>new_chunks = new_chunks acc @ map make_chunk (chunk_groups per_chunk (current_chunk acc) ws),
           current_chunk = [], word_count = 0\<rparr>)"
  using assms
proof (induction ws arbitrary: acc i)
  case Nil
  then show ?case by simp
next
  case (Cons w ws)
  let ?acc' = "chunk_step per_chunk (Suc i + length ws) acc (i, w)"
  have unfold: "foldl (chunk_step per_chunk (i + length (w # ws))) acc (enumerate i (w # ws)) =
      foldl (chunk_step per_chunk (Suc i + length ws)) ?acc' (enumerate (Suc i) ws)"
    by simp
  have inv: "word_count ?acc' = length (current_chunk ?acc')"
    using Cons.prems by (rule chunk_step_count)
  show ?case
  proof (cases ws)
    case Nil
    then show ?thesis by (simp add: chunk_step_eq)
  next
    case (Cons v vs)
    have notlast: "i \<noteq> Suc i + length ws - 1" using Cons by simp
    show ?thesis
      unfolding unfold Cons.IH [OF inv]
      using Cons.prems notlast \<open>ws = v # vs\<close>
      by (simp add: chunk_step_eq)
  qed
qed

theorem split_into_chunks_groups:
  "split_into_chunks per_chunk ws = map make_chunk (chunk_groups per_chunk [] ws)"
  using foldl_chunk_step [of chunk_acc_init per_chunk 0 ws]
  by (cases "ws = []") (simp_all add: split_into_chunks_def chunk_acc_init_def)

section \<open>The reference partition meets the contract\<close>

lemma chunk_groups_Nil_iff [simp, chunk_simps]: "chunk_groups per_chunk cur ws = [] \<longleftrightarrow> ws = []"
  by (induction per_chunk cur ws rule: chunk_groups.induct) auto

lemma concat_chunk_groups [chunk_simps]:
  "ws \<noteq> [] \<Longrightarrow> concat (chunk_groups per_chunk cur ws) = cur @ ws"
  by (induction per_chunk cur ws rule: chunk_groups.induct) auto

lemma chunk_groups_nonempty:
  "g \<in> set (chunk_groups per_chunk cur ws) \<Longrightarrow> g \<noteq> []"
  by (induction per_chunk cur ws rule: chunk_groups.induct) (auto split: if_splits)

lemma chunk_groups_closed:
  "g \<in> set (butlast (chunk_groups per_chunk cur ws)) \<Longrightarrow>
   per_chunk \<le> length g \<and> ends_with_punctuation (w_word (last g))"
proof (induction per_chunk cur ws rule: chunk_groups.induct)
  case (3 per_chunk cur w v ws)
  then show ?case by (auto split: if_splits)
qed auto

lemma no_early_boundary_snoc:
  "no_early_boundary per_chunk (cur @ [w]) \<longleftrightarrow>
   list_all (\<lambda>w. \<not> ends_with_punctuation (w_word w)) (drop (per_chunk - 1) cur)"
  by (simp add: no_early_boundary_def)

lemma chunk_groups_no_early_boundary:
  "list_all (\<lambda>w. \<not> ends_with_punctuation (w_word w)) (drop (per_chunk - 1) cur) \<Longrightarrow>
   g \<in> set (chunk_groups per_chunk cur ws) \<Longrightarrow> no_early_boundary per_chunk g"
proof (induction per_chunk cur ws rule: chunk_groups.induct)
  case (2 per_chunk cur w)
  then show ?case by (simp add: no_early_boundary_snoc)
next
  case (3 per_chunk cur w v ws)
  show ?case
  proof (cases "ends_with_punctuation (w_word w) \<and> per_chunk \<le> Suc (length cur)")
    case True
    then show ?thesis using 3 by (auto simp: no_early_boundary_snoc)
  next
    case False
    have "list_all (\<lambda>w. \<not> ends_with_punctuation (w_word w)) (drop (per_chunk - 1) (cur @ [w]))"
      using "3.prems"(1) False by (cases "per_chunk \<le> Suc (length cur)") auto
    then show ?thesis using "3.IH"(2) "3.prems"(2) False by simp
  qed
qed simp

lemma length_chunk_groups_le: "length (chunk_groups per_chunk cur ws) \<le> length ws"
  by (induction per_chunk cur ws rule: chunk_groups.induct) auto

lemma valid_chunking_tail:
  "valid_chunking per_chunk (g @ ws) (g # gs) \<Longrightarrow> valid_chunking per_chunk ws gs"
  by (cases gs) (auto simp: valid_chunking_def)

lemma valid_chunking_head_closed:
  "valid_chunking per_chunk ws (g # gs) \<Longrightarrow> gs \<noteq> [] \<Longrightarrow>
   per_chunk \<le> length g \<and> ends_with_punctuation (w_word (last g))"
  by (simp add: valid_chunking_def)

lemma valid_chunking_head_inner:
  assumes "valid_chunking per_chunk ws ((cur @ w # g') # gs)" and "g' \<noteq> []"
    and "per_chunk \<le> Suc (length cur)"
  shows "\<not> ends_with_punctuation (w_word w)"
proof -
  have "no_early_boundary per_chunk (cur @ w # g')"
    using assms(1) by (simp add: valid_chunking_def)
  moreover have "butlast (cur @ w # g') = cur @ w # butlast g'"
    using assms(2) by (simp add: butlast_append)
  ultimately show ?thesis
    using assms(3) by (simp add: no_early_boundary_def)
qed

lemma chunk_groups_unique:
  "valid_chunking per_chunk (cur @ ws) ((cur @ g) # gs) \<Longrightarrow> g \<noteq> [] \<Longrightarrow>
   chunk_groups per_chunk cur ws = (cur @ g) # gs"
proof (induction per_chunk cur ws arbitrary: g gs rule: chunk_groups.induct)
  case (1 per_chunk cur)
  then show ?case by (simp add: valid_chunking_def)
next
  case (2 per_chunk cur w)
  then have "g @ concat gs = [w]" and "\<forall>h\<in>set gs. h \<noteq> []"
    by (simp_all add: valid_chunking_def)
  with "2.prems"(2) show ?case
    by (cases g) auto
next
  case (3 per_chunk cur w v ws)
  obtain g' where g: "g = w # g'"
    using "3.prems" by (cases g) (auto simp: valid_chunking_def)
  show ?case
  proof (cases "g' = []")
    case True
    have cat: "concat gs = v # ws"
      using "3.prems"(1) g True by (simp add: valid_chunking_def)
    then obtain h hs where gs: "gs = h # hs" by (cases gs) auto
    have closed: "ends_with_punctuation (w_word w) \<and> per_chunk \<le> Suc (length cur)"
      using valid_chunking_head_closed [OF "3.prems"(1)] gs g True by simp
    have tl: "valid_chunking per_chunk (v # ws) gs"
      using valid_chunking_tail [of per_chunk "cur @ g" "v # ws" gs] "3.prems"(1) g True by simp
    have "h \<noteq> []" using tl gs by (simp add: valid_chunking_def)
    then have "chunk_groups per_chunk [] (v # ws) = ([] @ h) # hs"
      using "3.IH"(1) [OF closed, of h hs] tl gs by simp
    then show ?thesis using closed g True gs by simp
  next
    case False
    have open_: "\<not> (ends_with_punctuation (w_word w) \<and> per_chunk \<le> Suc (length cur))"
      using valid_chunking_head_inner [of per_chunk "cur @ w # v # ws" cur w g' gs]
        "3.prems"(1) g False by auto
    have "chunk_groups per_chunk (cur @ [w]) (v # ws) = ((cur @ [w]) @ g') # gs"
      using "3.IH"(2) [OF open_, of g' gs] "3.prems"(1) g False by simp
    moreover have "chunk_groups per_chunk cur (w # v # ws) = chunk_groups per_chunk (cur @ [w]) (v # ws)"
      using open_ by (simp only: chunk_groups.simps(3) if_False)
    ultimately show ?thesis using g by simp
  qed
qed

section \<open>Properties of the chunker\<close>

lemma c_words_make_chunk [simp]: "c_words (make_chunk g) = g"
  by (simp add: make_chunk_def)

lemma c_words_o_make_chunk [simp]: "c_words \<circ> make_chunk = (\<lambda>g. g)"
  by (simp add: fun_eq_iff make_chunk_def)

lemma valid_chunking_chunk_groups: "valid_chunking per_chunk ws (chunk_groups per_chunk [] ws)"
  unfolding valid_chunking_def
  using concat_chunk_groups [of ws per_chunk "[]"] chunk_groups_nonempty chunk_groups_closed
    chunk_groups_no_early_boundary [of per_chunk "[]"]
  by (cases "ws = []") auto

lemma valid_chunking_unique_groups:
  assumes "valid_chunking per_chunk ws gs"
  shows "gs = chunk_groups per_chunk [] ws"
proof (cases gs)
  case Nil
  then show ?thesis using assms by (simp add: valid_chunking_def)
next
  case (Cons g hs)
  then have "g \<noteq> []" using assms by (simp add: valid_chunking_def)
  then show ?thesis
    using chunk_groups_unique [of per_chunk "[]" ws g hs] assms Cons by simp
qed

lemma valid_chunking_length_bound:
  "valid_chunking per_chunk ws gs \<Longrightarrow> per_chunk * (length gs - 1) \<le> length ws"
proof (induction gs arbitrary: ws)
  case (Cons g gs)
  show ?case
  proof (cases "gs = []")
    case False
    obtain ws' where ws: "ws = g @ ws'"
      using Cons.prems by (auto simp: valid_chunking_def)
    have "per_chunk * (length gs - 1) \<le> length ws'"
      using Cons.IH [OF valid_chunking_tail] Cons.prems ws by simp
    moreover have "per_chunk \<le> length g"
      using valid_chunking_head_closed [OF Cons.prems False] by simp
    ultimately show ?thesis
      using ws False by (cases gs) (simp_all add: algebra_simps)
  qed simp
qed simp

lemma chunk_groups_first_boundary:
  assumes "per_chunk \<le> Suc (length xs)"
    and "list_all (\<lambda>w. \<not> ends_with_punctuation (w_word w)) (drop (per_chunk - 1) xs)"
    and "ends_with_punctuation (w_word a)" and "rest \<noteq> []"
  shows "chunk_groups per_chunk [] (xs @ a # rest) = (xs @ [a]) # chunk_groups per_chunk [] rest"
proof -
  have v: "valid_chunking per_chunk rest (chunk_groups per_chunk [] rest)"
    by (rule valid_chunking_chunk_groups)
  have ne: "chunk_groups per_chunk [] rest \<noteq> []" using assms(4) by simp
  have "valid_chunking per_chunk (xs @ a # rest) ((xs @ [a]) # chunk_groups per_chunk [] rest)"
    using v ne assms(1-3)
    by (auto simp: valid_chunking_def no_early_boundary_def)
  then show ?thesis by (rule valid_chunking_unique_groups [symmetric])
qed

lemma chunk_groups_single:
  assumes "ws \<noteq> []"
    and "list_all (\<lambda>w. \<not> ends_with_punctuation (w_word w)) (drop (per_chunk - 1) (butlast ws))"
  shows "chunk_groups per_chunk [] ws = [ws]"
  using valid_chunking_unique_groups [of per_chunk ws "[ws]"] assms
  by (simp add: valid_chunking_def no_early_boundary_def)

lemma set_split_into_chunks:
  "c \<in> set (split_into_chunks per_chunk ws) \<longleftrightarrow>
   (\<exists>g\<in>set (chunk_groups per_chunk [] ws). c = make_chunk g)"
  by (auto simp: split_into_chunks_groups)

lemma butlast_map_chunks:
  "map c_words (butlast (split_into_chunks per_chunk ws)) = butlast (chunk_groups per_chunk [] ws)"
  by (simp add: split_into_chunks_groups map_butlast [symmetric])

text \<open>C1. The chunker's output satisfies the chunking contract: the chunks' words
  concatenate to the input, every chunk is non-empty and not closed later than its first
  admissible boundary, and every chunk but the last holds at least the limit of words
  and ends with a terminal punctuation mark.\<close>

theorem split_into_chunks_valid:
  "valid_chunking per_chunk ws (map c_words (split_into_chunks per_chunk ws))"
  using valid_chunking_chunk_groups by (simp add: split_into_chunks_groups)

theorem split_into_chunks_valid_witness:
  "valid_chunking 100
     [\<lparr>w_word = ''the'', w_start = 0, w_end = 3/10, w_confidence = None, w_speaker = None\<rparr>,
      \<lparr>w_word = ''cat.'', w_start = 3/10, w_end = 8/10, w_confidence = None, w_speaker = None\<rparr>]
     [[\<lparr>w_word = ''the'', w_start = 0, w_end = 3/10, w_confidence = None, w_speaker = None\<rparr>,
       \<lparr>w_word = ''cat.'', w_start = 3/10, w_end = 8/10, w_confidence = None, w_speaker = None\<rparr>]]"
  using split_into_chunks_valid [of 100
     "[\<lparr>w_word = ''the'', w_start = 0, w_end = 3/10, w_confidence = None, w_speaker = None\<rparr>,
       \<lparr>w_word = ''cat.'', w_start = 3/10, w_end = 8/10, w_confidence = None, w_speaker = None\<rparr>]"]
  by (simp add: split_into_chunks_groups make_chunk_def)

text \<open>C2. The contract determines the chunks: any partition of the words that satisfies
  it is the one the chunker computes.\<close>

theorem split_into_chunks_unique:
  "valid_chunking per_chunk ws gs \<Longrightarrow> map c_words (split_into_chunks per_chunk ws) = gs"
  using valid_chunking_unique_groups by (simp add: split_into_chunks_groups)

theorem split_into_chunks_unique_witness:
  "map c_words (split_into_chunks 1
     [\<lparr>w_word = ''Hi.'', w_start = 0, w_end = 1, w_confidence = None, w_speaker = None\<rparr>,
      \<lparr>w_word = ''Bye'', w_start = 1, w_end = 2, w_confidence = None, w_speaker = None\<rparr>])
   = [[\<lparr>w_word = ''Hi.'', w_start = 0, w_end = 1, w_confidence = None, w_speaker = None\<rparr>],
      [\<lparr>w_word = ''Bye'', w_start = 1, w_end = 2, w_confidence = None, w_speaker = None\<rparr>]]"
  by (rule split_into_chunks_unique)
     (simp add: valid_chunking_def no_early_boundary_def ends_with_punctuation_def)

text \<open>C3. No word is dropped, duplicated or reordered: the chunks' word lists concatenate
  to the input.\<close>

theorem split_into_chunks_covers:
  "concat (map c_words (split_into_chunks per_chunk ws)) = ws"
  by (cases "ws = []") (simp_all add: split_into_chunks_groups concat_chunk_groups)

text \<open>C4. No chunk boundary splits a sentence: every chunk but the last holds at least
  the limit of words and its last word ends in a terminal punctuation mark.\<close>

theorem split_into_chunks_boundary:
  "c \<in> set (butlast (split_into_chunks per_chunk ws)) \<Longrightarrow>
   per_chunk \<le> length (c_words c) \<and> ends_with_punctuation (w_word (last (c_words c)))"
  using chunk_groups_closed [of "c_words c" per_chunk "[]" ws] butlast_map_chunks [of per_chunk ws]
  by (metis image_eqI list.set_map)

theorem split_into_chunks_boundary_witness:
  "1 \<le> length [\<lparr>w_word = ''Hi.'', w_start = 0, w_end = 1, w_confidence = None, w_speaker = None\<rparr>]
   \<and> ends_with_punctuation ''Hi.''"
  using split_into_chunks_boundary [of
      "make_chunk [\<lparr>w_word = ''Hi.'', w_start = 0, w_end = 1, w_confidence = None, w_speaker = None\<rparr>]"
      1 "[\<lparr>w_word = ''Hi.'', w_start = 0, w_end = 1, w_confidence = None, w_speaker = None\<rparr>,
          \<lparr>w_word = ''Bye'', w_start = 1, w_end = 2, w_confidence = None, w_speaker = None\<rparr>]"]
  by (simp add: split_into_chunks_groups make_chunk_def ends_with_punctuation_def)

text \<open>C5. Every chunk is non-empty, its text is its words joined by single spaces, and
  its start and end times are the start of its first word and the end of its last.\<close>

theorem split_into_chunks_shape:
  "c \<in> set (split_into_chunks per_chunk ws) \<Longrightarrow>
   c_words c \<noteq> [] \<and> c_text c = join_with '' '' (map w_word (c_words c)) \<and>
   start_time c = w_start (hd (c_words c)) \<and> end_time c = w_end (last (c_words c))"
  using chunk_groups_nonempty by (auto simp: set_split_into_chunks make_chunk_def)

theorem split_into_chunks_shape_witness:
  "[\<lparr>w_word = ''Hi.'', w_start = 0, w_end = 1, w_confidence = None, w_speaker = None\<rparr>] \<noteq> []
   \<and> ''Hi.'' = join_with '' '' [''Hi.''] \<and> (0::real) = 0 \<and> (1::real) = 1"
  using split_into_chunks_shape [of
      "make_chunk [\<lparr>w_word = ''Hi.'', w_start = 0, w_end = 1, w_confidence = None, w_speaker = None\<rparr>]"
      100 "[\<lparr>w_word = ''Hi.'', w_start = 0, w_end = 1, w_confidence = None, w_speaker = None\<rparr>]"]
  by (simp add: split_into_chunks_groups make_chunk_def)

text \<open>Spec scenario: the words \<open>the\<close> (0.0--0.3) and \<open>cat.\<close> (0.3--0.8) with the
  default limit give one chunk with text \<open>the cat.\<close> from 0.0 to 0.8: the end of the
  sequence closes it before the size threshold is reached.\<close>

theorem split_into_chunks_the_cat:
  "split_into_chunks WORDS_PER_CHUNK
     [\<lparr>w_word = ''the'', w_start = 0, w_end = 3/10, w_confidence = None, w_speaker = None\<rparr>,
      \<lparr>w_word = ''cat.'', w_start = 3/10, w_end = 8/10, w_confidence = None, w_speaker = None\<rparr>] =
   [\<lparr>c_words =
       [\<lparr>w_word = ''the'', w_start = 0, w_end = 3/10, w_confidence = None, w_speaker = None\<rparr>,
        \<lparr>w_word = ''cat.'', w_start = 3/10, w_end = 8/10, w_confidence = None, w_speaker = None\<rparr>],
     c_text = ''the cat.'', start_time = 0, end_time = 8/10\<rparr>]"
  by (simp add: split_into_chunks_def chunk_acc_init_def chunk_step_def make_chunk_def
      WORDS_PER_CHUNK_def ends_with_punctuation_def)

text \<open>C7. A chunk closes at the first word ending in terminal punctuation at or after
  the limit: when the words before that word \<open>a\<close> number at least the limit minus one
  and none of them at such a position ends a sentence, the first chunk is exactly the
  words up to \<open>a\<close>, and chunking continues afresh on the rest.\<close>

theorem split_into_chunks_first_boundary:
  assumes "per_chunk \<le> Suc (length xs)"
    and "list_all (\<lambda>w. \<not> ends_with_punctuation (w_word w)) (drop (per_chunk - 1) xs)"
    and "ends_with_punctuation (w_word a)" and "rest \<noteq> []"
  shows "split_into_chunks per_chunk (xs @ a # rest) =
         make_chunk (xs @ [a]) # split_into_chunks per_chunk rest"
  using chunk_groups_first_boundary [OF assms] by (simp add: split_into_chunks_groups)

theorem split_into_chunks_first_boundary_witness:
  "split_into_chunks 1
     [\<lparr>w_word = ''Hi.'', w_start = 0, w_end = 1, w_confidence = None, w_speaker = None\<rparr>,
      \<lparr>w_word = ''Bye'', w_start = 1, w_end = 2, w_confidence = None, w_speaker = None\<rparr>] =
   make_chunk [\<lparr>w_word = ''Hi.'', w_start = 0, w_end = 1, w_confidence = None, w_speaker = None\<rparr>] #
   split_into_chunks 1 [\<lparr>w_word = ''Bye'', w_start = 1, w_end = 2, w_confidence = None, w_speaker = None\<rparr>]"
  using split_into_chunks_first_boundary [of 1 "[]"
      "\<lparr>w_word = ''Hi.'', w_start = 0, w_end = 1, w_confidence = None, w_speaker = None\<rparr>"
      "[\<lparr>w_word = ''Bye'', w_start = 1, w_end = 2, w_confidence = None, w_speaker = None\<rparr>]"]
  by (simp add: ends_with_punctuation_def)

text \<open>C8. Spec scenario: 150 words, of which only word 120 and word 150 end in a period,
  split with the default limit into two chunks with the boundary at word 120.\<close>

theorem split_into_chunks_150_words:
  assumes "length xs = 119" and "list_all (\<lambda>w. \<not> ends_with_punctuation (w_word w)) xs"
    and "ends_with_punctuation (w_word a)"
    and "length ys = 29" and "list_all (\<lambda>w. \<not> ends_with_punctuation (w_word w)) ys"
  shows "map c_words (split_into_chunks WORDS_PER_CHUNK (xs @ a # ys @ [b])) = [xs @ [a], ys @ [b]]"
proof -
  have drop_ok: "list_all (\<lambda>w. \<not> ends_with_punctuation (w_word w)) (drop 99 xs)"
    using assms(2) by (auto simp: list_all_iff dest: in_set_dropD)
  have "chunk_groups 100 [] (ys @ [b]) = [ys @ [b]]"
    using assms(4) by (intro chunk_groups_single) simp_all
  moreover have "chunk_groups 100 [] (xs @ a # ys @ [b]) = (xs @ [a]) # chunk_groups 100 [] (ys @ [b])"
    using assms(1,3) drop_ok by (intro chunk_groups_first_boundary) simp_all
  ultimately show ?thesis by (simp add: split_into_chunks_groups WORDS_PER_CHUNK_def)
qed

theorem split_into_chunks_150_words_witness:
  "map c_words (split_into_chunks WORDS_PER_CHUNK
     (replicate 119 \<lparr>w_word = ''so'', w_start = 0, w_end = 1, w_confidence = None, w_speaker = None\<rparr> @
      \<lparr>w_word = ''end.'', w_start = 1, w_end = 2, w_confidence = None, w_speaker = None\<rparr> #
      replicate 29 \<lparr>w_word = ''so'', w_start = 2, w_end = 3, w_confidence = None, w_speaker = None\<rparr> @
      [\<lparr>w_word = ''fin.'', w_start = 3, w_end = 4, w_confidence = None, w_speaker = None\<rparr>]))
   = [replicate 119 \<lparr>w_word = ''so'', w_start = 0, w_end = 1, w_confidence = None, w_speaker = None\<rparr> @
      [\<lparr>w_word = ''end.'', w_start = 1, w_end = 2, w_confidence = None, w_speaker = None\<rparr>],
      replicate 29 \<lparr>w_word = ''so'', w_start = 2, w_end = 3, w_confidence = None, w_speaker = None\<rparr> @
      [\<lparr>w_word = ''fin.'', w_start = 3, w_end = 4, w_confidence = None, w_speaker = None\<rparr>]]"
  by (rule split_into_chunks_150_words) (simp_all add: ends_with_punctuation_def list_all_iff)

text \<open>C9. Chunk-count bound: every chunk but the last holds at least the limit of words,
  so a transcript of \<open>n\<close> words gives at most \<open>n div limit + 1\<close> chunks.\<close>

theorem split_into_chunks_count:
  "per_chunk * (length (split_into_chunks per_chunk ws) - 1) \<le> length ws"
  using valid_chunking_length_bound [OF valid_chunking_chunk_groups]
  by (simp add: split_into_chunks_groups)

end
