(* ===== verification/ContentPanel.thy ===== *)
theory ContentPanel
  imports Chunker
begin

text \<open>
  The state and handlers of \<open>src/src/app/components/ContentPanel.tsx\<close>: the
  \<open>useState\<close> variables as the record \<open>panel_state\<close>, the HTML audio element behind
  \<open>audioRef\<close> as the record \<open>audio_element\<close> (absent while no episode with audio is
  shown), the media-event listeners, \<open>handleTimeUpdate\<close> (the seek callback handed to
  TranscriptCards), \<open>handleAudioRequest\<close> and its \<open>message\<close> listener, the reset on a
  new \<open>audioUrl\<close>, and \<open>handleGetTranscript\<close> split at its \<open>await\<close> into a start step
  and a completion step.  A request in flight is an entry of \<open>pending\<close> holding the URL
  it was sent for; the order in which responses arrive is chosen by the events, as the
  network chooses it.  The transcription service is a parameter \<open>tr\<close> from URLs to
  responses.
\<close>

section \<open>Data\<close>

text \<open>A word as the transcription route returns it (\<open>data.words\<close>, lines 166--172).\<close>

record raw_word =
  rw_word :: string
  rw_punctuated_word :: "string option"
  rw_start :: sec
  rw_end :: sec
  rw_confidence :: "real option"
  rw_speaker :: "int option"

text \<open>The route's reply: a non-2xx status with an optional \<open>error\<close> field, or a 2xx
  body with optional \<open>text\<close> and \<open>words\<close> (\<open>None\<close> when the field is missing or not
  an array); \<open>TrFailure\<close> is a rejected \<open>fetch\<close> with its error message.\<close>

datatype transcribe_response =
    TrHttpError "string option"
  | TrOk "string option" "raw_word list option"
  | TrFailure string

record audio_element =
  a_time :: sec
  a_paused :: bool

text \<open>The state variables of lines 64--70, the audio element, the \<open>audioUrl\<close> prop and
  the requests in flight.\<close>

record panel_state =
  audio_url :: "string option"
  is_transcribing :: bool
  transcript :: "string option"
  words :: "word list"
  transcript_error :: "string option"
  is_playing :: bool
  current_time :: sec
  is_transcribed :: bool
  audio :: "audio_element option"
  pending :: "string list"

text \<open>What the panel posts with \<open>window.postMessage\<close>.\<close>

datatype panel_out = PostTranscriptReady string

section \<open>The audio element and its listeners\<close>

text \<open>The listeners of lines 103--112.  \<open>audioElement.currentTime || 0\<close> is the
  element's time (a NaN time is not modelled).\<close>

definition on_media_time_update :: "panel_state \<Rightarrow> panel_state" where
  "on_media_time_update s =
     (case audio s of Some a \<Rightarrow> s\<lparr>current_time := a_time a\<rparr> | None \<Rightarrow> s)"

definition on_media_play :: "panel_state \<Rightarrow> panel_state" where
  "on_media_play s = s\<lparr>is_playing := True\<rparr>"

definition on_media_pause :: "panel_state \<Rightarrow> panel_state" where
  "on_media_pause s = s\<lparr>is_playing := False\<rparr>"

definition on_media_ended :: "panel_state \<Rightarrow> panel_state" where
  "on_media_ended s = s\<lparr>is_playing := False, current_time := 0\<rparr>"

text \<open>\<open>handleTimeUpdate\<close> (lines 221--228): move the element and start it when the
  panel does not believe it is playing.\<close>

definition handle_time_update :: "sec \<Rightarrow> panel_state \<Rightarrow> panel_state" where
  "handle_time_update t s =
     (case audio s of
        Some a \<Rightarrow> s\<lparr>audio := Some (a\<lparr>a_time := t, a_paused := (if is_playing s then a_paused a else False)\<rparr>)\<rparr>
      | None \<Rightarrow> s)"

text \<open>\<open>handleAudioRequest\<close> (lines 130--135): move the element and play.\<close>

definition handle_audio_request :: "sec \<Rightarrow> panel_state \<Rightarrow> panel_state" where
  "handle_audio_request t s =
     (case audio s of Some a \<Rightarrow> s\<lparr>audio := Some (a\<lparr>a_time := t, a_paused := False\<rparr>)\<rparr> | None \<Rightarrow> s)"

text \<open>The \<open>message\<close> listener (lines 196--200):
  \<open>event.data.type === 'PLAY_AUDIO' && event.data.timestamp\<close>.  A number is truthy when
  it is not zero.\<close>

definition on_play_audio_message :: "sec \<Rightarrow> panel_state \<Rightarrow> panel_state" where
  "on_play_audio_message timestamp s =
     (if timestamp \<noteq> 0 then handle_audio_request timestamp s else s)"

section \<open>Episode change and transcription\<close>

text \<open>The effect on \<open>[audioUrl]\<close> (lines 75--96): clear the transcript, rewind and
  pause the element (which exists while \<open>audioUrl\<close> is set, line 299).  The requests
  in flight are not cancelled.\<close>

definition select_audio :: "string option \<Rightarrow> panel_state \<Rightarrow> panel_state" where
  "select_audio url s =
     (let s1 = s\<lparr>audio_url := url, is_transcribing := False, transcript := None, words := [],
                 transcript_error := None, is_transcribed := False, current_time := 0\<rparr>;
          s2 = (case audio s of Some a \<Rightarrow> s1\<lparr>is_playing := False\<rparr> | None \<Rightarrow> s1)
      in s2\<lparr>audio := (case url of None \<Rightarrow> None | Some u \<Rightarrow> Some \<lparr>a_time = 0, a_paused = True\<rparr>)\<rparr>)"

text \<open>The synchronous part of \<open>handleGetTranscript\<close> (lines 138--152): the guard, the
  state resets, and the request sent.\<close>

definition start_transcript :: "panel_state \<Rightarrow> panel_state" where
  "start_transcript s =
     (case audio_url s of
        None \<Rightarrow> s
      | Some url \<Rightarrow> s\<lparr>is_transcribing := True, transcript_error := None, transcript := None,
                       words := [], is_transcribed := False, pending := pending s @ [url]\<rparr>)"

text \<open>The conversion of the route's words (lines 166--172):
  \<open>word.punctuated_word || word.word\<close>, \<open>parseFloat\<close> of numbers is the identity,
  \<open>word.speaker ? parseInt(word.speaker) : undefined\<close>.\<close>

definition convert_word :: "raw_word \<Rightarrow> word" where
  "convert_word rw =
     \<lparr>w_word = (case js_or (rw_punctuated_word rw) (Some (rw_word rw)) of Some x \<Rightarrow> x | None \<Rightarrow> []),
      w_start = rw_start rw, w_end = rw_end rw, w_confidence = rw_confidence rw,
      w_speaker = (case rw_speaker rw of Some n \<Rightarrow> if n \<noteq> 0 then Some n else None | None \<Rightarrow> None)\<rparr>"

text \<open>The continuation after the response arrives (lines 154--191), ending in the
  \<open>finally\<close> clause.\<close>

definition finish_transcript :: "transcribe_response \<Rightarrow> panel_state \<Rightarrow> panel_state \<times> panel_out list" where
  "finish_transcript r s =
     (let fail = (\<lambda>msg. (s\<lparr>transcript_error := Some msg, is_transcribed := False,
                           is_transcribing := False\<rparr>, []))
      in case r of
           TrHttpError e \<Rightarrow>
             fail (case js_or e (Some ''Failed to transcribe audio'') of Some m \<Rightarrow> m | None \<Rightarrow> [])
         | TrFailure m \<Rightarrow> fail m
         | TrOk text ws \<Rightarrow>
             (case (text, ws) of
                (Some txt, Some rws) \<Rightarrow>
                  if txt = [] then fail ''Invalid transcription response''
                  else (s\<lparr>transcript := Some txt, words := map convert_word rws, is_transcribed := True,
                          is_transcribing := False\<rparr>, [PostTranscriptReady txt])
              | _ \<Rightarrow> fail ''Invalid transcription response''))"

text \<open>The \<open>i\<close>-th request in flight completes with the service's answer for its URL.\<close>

definition complete_transcript ::
  "(string \<Rightarrow> transcribe_response) \<Rightarrow> nat \<Rightarrow> panel_state \<Rightarrow> panel_state \<times> panel_out list" where
  "complete_transcript tr i s =
     (if i < length (pending s)
      then finish_transcript (tr (pending s ! i)) (s\<lparr>pending := take i (pending s) @ drop (Suc i) (pending s)\<rparr>)
      else (s, []))"

text \<open>The condition under which the panel renders TranscriptCards (line 405).\<close>

definition shows_cards :: "panel_state \<Rightarrow> bool" where
  "shows_cards s \<longleftrightarrow> \<not> is_transcribing s \<and> str_truthy (transcript s) \<and> words s \<noteq> []"

text \<open>The scroll effect of lines 206--219 scrolls \<open>highlightRef.current\<close> into view.  No
  element of the rendered tree is given \<open>ref={highlightRef}\<close>, so the ref stays
  \<open>null\<close>: the ref's value is a constant of the model.\<close>

definition highlight_ref :: "unit option" where
  "highlight_ref = None"

definition scrolls_to_word :: "panel_state \<Rightarrow> bool" where
  "scrolls_to_word s \<longleftrightarrow>
     words s \<noteq> [] \<and>
     (\<exists>w\<in>set (words s). current_time s \<ge> w_start w \<and> current_time s \<le> w_end w) \<and>
     highlight_ref \<noteq> None"

section \<open>Runs of the panel\<close>

text \<open>The events the panel reacts to: a new episode (\<open>audioUrl\<close> prop), a click on
  \<open>Generate Transcript\<close> (disabled while transcribing, line 313), the completion of the
  \<open>i\<close>-th request in flight, the media events, time passing on the element, the
  \<open>PLAY_AUDIO\<close> message, and a seek requested by TranscriptCards.\<close>

datatype panel_event =
    SelectAudio "string option"
  | ClickTranscribe
  | TranscribeDone nat
  | MediaTimeUpdate
  | MediaPlay
  | MediaPause
  | MediaEnded
  | MediaAdvance sec
  | PlayAudioMessage sec
  | SeekFromCards sec

definition media_advance :: "sec \<Rightarrow> panel_state \<Rightarrow> panel_state" where
  "media_advance dt s =
     (case audio s of
        Some a \<Rightarrow> if a_paused a then s else s\<lparr>audio := Some (a\<lparr>a_time := a_time a + dt\<rparr>)\<rparr>
      | None \<Rightarrow> s)"

fun panel_step ::
  "(string \<Rightarrow> transcribe_response) \<Rightarrow> panel_state \<Rightarrow> panel_event \<Rightarrow> panel_state \<times> panel_out list" where
  "panel_step tr s (SelectAudio url) = (select_audio url s, [])"
| "panel_step tr s ClickTranscribe = (if is_transcribing s then (s, []) else (start_transcript s, []))"
| "panel_step tr s (TranscribeDone i) = complete_transcript tr i s"
| "panel_step tr s MediaTimeUpdate = (on_media_time_update s, [])"
| "panel_step tr s MediaPlay = (on_media_play s, [])"
| "panel_step tr s MediaPause = (on_media_pause s, [])"
| "panel_step tr s MediaEnded = (on_media_ended s, [])"
| "panel_step tr s (MediaAdvance dt) = (media_advance dt s, [])"
| "panel_step tr s (PlayAudioMessage t) = (on_play_audio_message t s, [])"
| "panel_step tr s (SeekFromCards t) = (handle_time_update t s, [])"

fun panel_run ::
  "(string \<Rightarrow> transcribe_response) \<Rightarrow> panel_state \<Rightarrow> panel_event list \<Rightarrow> panel_state \<times> panel_out list" where
  "panel_run tr s [] = (s, [])"
| "panel_run tr s (e # es) =
     (let (s', out) = panel_step tr s e; (s'', out') = panel_run tr s' es in (s'', out @ out'))"

definition panel_init :: panel_state where
  "panel_init =
     \<lparr>audio_url = None, is_transcribing = False, transcript = None, words = [],
      transcript_error = None, is_playing = False, current_time = 0, is_transcribed = False,
      audio = None, pending = []\<rparr>"

section \<open>Properties of the panel\<close>

lemma panel_run_append:
  "panel_run tr s (es @ fs) =
     (let (s', out) = panel_run tr s es; (s'', out') = panel_run tr s' fs in (s'', out @ out'))"
  by (induction es arbitrary: s) (auto simp: split_def Let_def)

text \<open>C20. The \<open>PLAY_AUDIO\<close> listener tests the timestamp for truthiness, so a request
  to play from second 0 (a bullet point \<open>[00:00]\<close>) is ignored; any other timestamp
  moves the element there and plays it.\<close>

theorem play_audio_message:
  "on_play_audio_message 0 s = s \<and>
   (t \<noteq> 0 \<longrightarrow> audio s = Some a \<longrightarrow>
      audio (on_play_audio_message t s) = Some \<lparr>a_time = t, a_paused = False\<rparr>)"
  by (simp add: on_play_audio_message_def handle_audio_request_def)

theorem play_audio_message_witness:
  "on_play_audio_message 0 panel_init = panel_init \<and>
   audio (on_play_audio_message 5 (panel_init\<lparr>audio := Some \<lparr>a_time = 0, a_paused = True\<rparr>\<rparr>)) =
     Some \<lparr>a_time = 5, a_paused = False\<rparr>"
  using play_audio_message [of panel_init 5 "\<lparr>a_time = 0, a_paused = True\<rparr>"]
    play_audio_message [of "panel_init\<lparr>audio := Some \<lparr>a_time = 0, a_paused = True\<rparr>\<rparr>" 5
      "\<lparr>a_time = 0, a_paused = True\<rparr>"]
  by simp

text \<open>C21. Every response other than a 2xx body with a non-empty \<open>text\<close> and a
  \<open>words\<close> array ends in the error branch: an error message is shown, the spinner
  stops, the transcript is not marked ready, the words stay as they were (empty, since
  the start step cleared them) and nothing is posted to the chat panel.  An empty
  \<open>text\<close> is such a response.\<close>

theorem finish_transcript_error:
  assumes "\<forall>txt rws. r = TrOk (Some txt) (Some rws) \<longrightarrow> txt = []"
  shows "snd (finish_transcript r s) = [] \<and> transcript_error (fst (finish_transcript r s)) \<noteq> None \<and>
         \<not> is_transcribing (fst (finish_transcript r s)) \<and> \<not> is_transcribed (fst (finish_transcript r s)) \<and>
         words (fst (finish_transcript r s)) = words s"
proof (cases r)
  case (TrOk tx ws)
  then show ?thesis
    using assms by (cases tx; cases ws) (auto simp: finish_transcript_def Let_def)
qed (simp_all add: finish_transcript_def Let_def)

theorem finish_transcript_error_witness:
  "snd (finish_transcript (TrOk (Some []) (Some [])) panel_init) = [] \<and>
   transcript_error (fst (finish_transcript (TrOk (Some []) (Some [])) panel_init)) \<noteq> None \<and>
   \<not> is_transcribing (fst (finish_transcript (TrOk (Some []) (Some [])) panel_init)) \<and>
   \<not> is_transcribed (fst (finish_transcript (TrOk (Some []) (Some [])) panel_init)) \<and>
   words (fst (finish_transcript (TrOk (Some []) (Some [])) panel_init)) = words panel_init"
  by (rule finish_transcript_error) simp

text \<open>C22. A response is applied to whatever episode is shown when it arrives: after
  asking for episode \<open>a\<close>'s transcript and switching to episode \<open>b\<close>, the late
  answer for \<open>a\<close> becomes the transcript shown for \<open>b\<close> and is posted to the chat
  panel.\<close>

theorem stale_transcript_after_switch:
  assumes "tr a = TrOk (Some txt) (Some rws)" and "txt \<noteq> []" and "rws \<noteq> []"
  shows "snd (panel_run tr panel_init
               [SelectAudio (Some a), ClickTranscribe, SelectAudio (Some b), TranscribeDone 0]) =
           [PostTranscriptReady txt] \<and>
         audio_url (fst (panel_run tr panel_init
               [SelectAudio (Some a), ClickTranscribe, SelectAudio (Some b), TranscribeDone 0])) = Some b \<and>
         words (fst (panel_run tr panel_init
               [SelectAudio (Some a), ClickTranscribe, SelectAudio (Some b), TranscribeDone 0])) = map convert_word rws \<and>
         shows_cards (fst (panel_run tr panel_init
               [SelectAudio (Some a), ClickTranscribe, SelectAudio (Some b), TranscribeDone 0]))"
  using assms
  by (simp add: panel_init_def select_audio_def start_transcript_def complete_transcript_def
      finish_transcript_def shows_cards_def Let_def)

theorem stale_transcript_after_switch_witness:
  "audio_url (fst (panel_run (\<lambda>u. TrOk (Some ''hello'') (Some [\<lparr>rw_word = ''hello'', rw_punctuated_word = None,
       rw_start = 0, rw_end = 1, rw_confidence = None, rw_speaker = None\<rparr>])) panel_init
     [SelectAudio (Some ''a.mp3''), ClickTranscribe, SelectAudio (Some ''b.mp3''), TranscribeDone 0]))
   = Some ''b.mp3''"
  using stale_transcript_after_switch [of "\<lambda>u. TrOk (Some ''hello'') (Some [\<lparr>rw_word = ''hello'',
       rw_punctuated_word = None, rw_start = 0, rw_end = 1, rw_confidence = None, rw_speaker = None\<rparr>])"
     "''a.mp3''" "''hello''" "[\<lparr>rw_word = ''hello'', rw_punctuated_word = None,
       rw_start = 0, rw_end = 1, rw_confidence = None, rw_speaker = None\<rparr>]" "''b.mp3''"]
  by simp

end
