(* ===== verification/Transcribe.thy ===== *)
theory Transcribe
  imports ContentPanel
begin

text \<open>
  The transcription route \<open>src/src/app/api/transcribe/route.ts\<close>:
  \<open>fetchAudioWithRedirects\<close>, which downloads the audio and, when it receives an HTML
  page, looks for an \<open>.mp3\<close> link in its first bytes and follows it, and \<open>POST\<close>, which
  validates the request, downloads the audio, sends it to the speech-to-text service and
  classifies every error into a status.  The network is a parameter from URLs to
  responses, the speech-to-text service one from the audio to its result.  Bodies are
  strings of byte-sized characters; the loop returns, besides its result, the URLs it
  fetched in order, so that the number of requests is observable.
\<close>

section \<open>Data\<close>

text \<open>What \<open>fetch(currentUrl, ...)\<close> gives: a response (\<open>response.ok\<close>,
  \<open>statusText\<close>, the body) or a rejected promise with its message.\<close>

datatype fetch_response = HttpResponse bool string string | FetchRejected string

type_synonym network = "string \<Rightarrow> fetch_response"

text \<open>A word of the speech-to-text result (\<open>alternatives[0].words\<close>).\<close>

record dg_word =
  dw_word :: string
  dw_punctuated_word :: "string option"
  dw_start :: sec
  dw_end :: sec
  dw_confidence :: "real option"
  dw_speaker :: "int option"

text \<open>\<open>transcribeFile\<close>: the first alternative of the first channel, if there is one,
  or a rejected promise with its message.\<close>

datatype dg_result = DgResult "(string \<times> dg_word list) option" | DgError string

text \<open>The request body after \<open>req.json()\<close>: its \<open>audioUrl\<close> field, or the message
  of the parse error.\<close>

datatype transcribe_body = JsonBody "string option" | JsonError string

section \<open>Downloading the audio\<close>

text \<open>\<open>Buffer.from(buffer.slice(0, 100)).toString().trim().toLowerCase()\<close> (line 138).\<close>

definition first_bytes :: "string \<Rightarrow> string" where
  "first_bytes buf = js_lower (trim (take 100 buf))"

definition is_html :: "string \<Rightarrow> bool" where
  "is_html fb \<longleftrightarrow> js_includes fb ''<!doctype'' \<or> js_includes fb ''<html''"

text \<open>\<open>/https?:\/\/[^"']*\.mp3/\<close> (line 142) and \<open>String.prototype.match\<close> without the
  \<open>g\<close> flag: the leftmost position where the pattern matches, with the first match the
  engine finds there.\<close>

definition mp3_pattern :: matcher where
  "mp3_pattern =
     m_seq (m_lit ''http'')
       (m_seq (m_opt (m_lit ''s''))
         (m_seq (m_lit ''://'')
           (m_seq (m_star (\<lambda>c. c \<noteq> CHR 0x22 \<and> c \<noteq> CHR 0x27)) (m_lit ''.mp3''))))"

definition regex_search :: "matcher \<Rightarrow> string \<Rightarrow> string option" where
  "regex_search m s =
     (case find (\<lambda>i. m (drop i s) \<noteq> []) [0..<Suc (length s)] of
        None \<Rightarrow> None
      | Some i \<Rightarrow> let t = drop i s in Some (take (length t - length (hd (m t))) t))"

text \<open>The \<open>catch\<close> clause of the loop body (lines 156--167).\<close>

definition fetch_catch :: "nat \<Rightarrow> nat \<Rightarrow> string \<Rightarrow> string + string" where
  "fetch_catch max_redirects count msg =
     (if js_includes msg ''HTML'' then Inl ''URL points to a webpage instead of an audio file''
      else if max_redirects \<le> count then Inl ''Too many redirects while trying to fetch audio''
      else Inl msg)"

text \<open>One iteration of the \<open>while\<close> body (lines 117--167): \<open>Inl\<close> of what it returns
  or throws, or \<open>Inr\<close> of the URL it continues with.\<close>

definition fetch_body :: "network \<Rightarrow> nat \<Rightarrow> string \<Rightarrow> nat \<Rightarrow> (string + string) + string" where
  "fetch_body net max_redirects url count =
     (case net url of
        FetchRejected msg \<Rightarrow> Inl (fetch_catch max_redirects count msg)
      | HttpResponse ok status_text body \<Rightarrow>
          if \<not> ok then Inl (fetch_catch max_redirects count (''Failed to fetch audio: '' @ status_text))
          else if is_html (first_bytes body) then
            (case regex_search mp3_pattern (first_bytes body) of
               Some u \<Rightarrow>
                 if u \<noteq> [] \<and> count < max_redirects - 1 then Inr u
                 else Inl (fetch_catch max_redirects count ''Received HTML instead of audio file'')
             | None \<Rightarrow> Inl (fetch_catch max_redirects count ''Received HTML instead of audio file''))
          else Inl (Inr body))"

text \<open>\<open>fetchAudioWithRedirects\<close> (lines 112--171): the loop as recursion, \<open>continue\<close>
  as the call with the extracted URL and the incremented counter, and the throw after
  the loop.\<close>

function fetch_loop :: "network \<Rightarrow> nat \<Rightarrow> string \<Rightarrow> nat \<Rightarrow> (string + string) \<times> string list" where
  "fetch_loop net max_redirects url count =
     (if count < max_redirects then
        (case fetch_body net max_redirects url count of
           Inl r \<Rightarrow> (r, [url])
         | Inr u \<Rightarrow> let (r, us) = fetch_loop net max_redirects u (Suc count) in (r, url # us))
      else (Inl ''Too many redirects'', []))"
  by pat_completeness auto

termination
  by (relation "measure (\<lambda>(net, m, url, c). m - c)") auto

declare fetch_loop.simps [simp del]

definition fetch_audio :: "network \<Rightarrow> string \<Rightarrow> (string + string) \<times> string list" where
  "fetch_audio net url = fetch_loop net 5 url 0"

section \<open>The POST handler\<close>

text \<open>The outer \<open>catch\<close> (lines 73--109): every error thrown here is an \<open>Error\<close>.\<close>

definition classify_error :: "string \<Rightarrow> nat \<times> string" where
  "classify_error msg =
     (if js_includes msg ''Invalid credentials'' \<or> js_includes msg ''401'' then
        (401, ''Invalid Deepgram API key. Please check your configuration.'')
      else if js_includes msg ''HTML'' \<or> js_includes msg ''webpage'' then
        (400, ''Invalid audio URL: URL points to a webpage instead of an audio file'')
      else if js_includes msg ''Too many redirects'' then
        (400, ''Could not reach the audio file: too many redirects'')
      else (500, ''Transcription failed: '' @ msg))"

text \<open>The words of the answer (lines 64--70): the punctuated form when there is one.\<close>

definition route_word :: "dg_word \<Rightarrow> raw_word" where
  "route_word w =
     \<lparr>rw_word = (case js_or (dw_punctuated_word w) (Some (dw_word w)) of Some x \<Rightarrow> x | None \<Rightarrow> []),
      rw_punctuated_word = None, rw_start = dw_start w, rw_end = dw_end w,
      rw_confidence = dw_confidence w, rw_speaker = dw_speaker w\<rparr>"

text \<open>\<open>POST\<close> (lines 4--110): an error response (status, message) or the transcript's
  text and words.\<close>

definition transcribe_post ::
  "bool \<Rightarrow> transcribe_body \<Rightarrow> network \<Rightarrow> (string \<Rightarrow> dg_result) \<Rightarrow>
   (nat \<times> string) + (string \<times> raw_word list)" where
  "transcribe_post has_key body net dg =
     (if \<not> has_key then Inl (500, ''Transcription service configuration error. Please check API key.'')
      else (case body of
        JsonError msg \<Rightarrow> Inl (classify_error msg)
      | JsonBody url \<Rightarrow>
          if \<not> str_truthy url then Inl (400, ''Audio URL is required'')
          else (case fst (fetch_audio net (the url)) of
            Inl msg \<Rightarrow> Inl (classify_error msg)
          | Inr buf \<Rightarrow>
              if buf = [] then Inl (classify_error ''Empty audio file received'')
              else (case dg buf of
                DgError msg \<Rightarrow> Inl (classify_error msg)
              | DgResult None \<Rightarrow> Inl (classify_error ''No transcription results available'')
              | DgResult (Some (text, ws)) \<Rightarrow> Inr (text, map route_word ws)))))"

text \<open>The route's answer as ContentPanel reads it: a non-2xx response with its
  \<open>error\<close> field, or a 2xx body with \<open>text\<close> and \<open>words\<close>.\<close>

definition as_panel_response :: "(nat \<times> string) + (string \<times> raw_word list) \<Rightarrow> transcribe_response" where
  "as_panel_response r =
     (case r of Inl (code, msg) \<Rightarrow> TrHttpError (Some msg) | Inr (text, ws) \<Rightarrow> TrOk (Some text) (Some ws))"

section \<open>The redirect loop\<close>

lemma fetch_loop_stop [simp]:
  "c < m \<Longrightarrow> fetch_body net m u c = Inl r \<Longrightarrow> fetch_loop net m u c = (r, [u])"
  by (subst fetch_loop.simps) simp

lemma fetch_loop_continue [simp]:
  "c < m \<Longrightarrow> fetch_body net m u c = Inr v \<Longrightarrow>
   fetch_loop net m u c = (fst (fetch_loop net m v (Suc c)), u # snd (fetch_loop net m v (Suc c)))"
  by (subst fetch_loop.simps) (simp add: split_def Let_def)

lemma fetch_body_continue: "fetch_body net m u c = Inr v \<Longrightarrow> Suc c < m"
  by (auto simp: fetch_body_def split: fetch_response.splits if_splits option.splits)

lemma fetch_catch_below:
  "c < m \<Longrightarrow> fetch_catch m c msg =
     Inl (if js_includes msg ''HTML'' then ''URL points to a webpage instead of an audio file'' else msg)"
  by (simp add: fetch_catch_def)

lemma received_html_msg: "js_includes ''Received HTML instead of audio file'' ''HTML''"
  by (simp add: js_includes_def)

lemma fetch_body_error:
  "fetch_body net m u c = Inl (Inl e) \<Longrightarrow> c < m \<Longrightarrow>
     e = ''URL points to a webpage instead of an audio file'' \<or> (\<exists>msg. net u = FetchRejected msg \<and> e = msg) \<or>
     (\<exists>st b. net u = HttpResponse False st b \<and> e = ''Failed to fetch audio: '' @ st)"
proof (cases "net u")
  case (HttpResponse ok st b)
  assume f: "fetch_body net m u c = Inl (Inl e)" and c: "c < m"
  show ?thesis
  proof (cases ok)
    case True
    then show ?thesis using f c HttpResponse
      by (simp add: fetch_body_def fetch_catch_below received_html_msg split: if_splits option.splits)
  next
    case False
    then show ?thesis using f c HttpResponse by (auto simp: fetch_body_def fetch_catch_below split: if_splits)
  qed
qed (auto simp: fetch_body_def fetch_catch_below split: if_splits)
lemma fetch_loop_requests:
  "c < m \<Longrightarrow> 1 \<le> length (snd (fetch_loop net m u c)) \<and> length (snd (fetch_loop net m u c)) \<le> m - c"
proof (induction net m u c rule: fetch_loop.induct)
  case (1 net m u c)
  show ?case
  proof (cases "fetch_body net m u c")
    case (Inr v)
    then show ?thesis using 1 fetch_body_continue [OF Inr] by auto
  qed (use 1 in simp)
qed

lemma fetch_loop_errors:
  "c < m \<Longrightarrow> fst (fetch_loop net m u c) = Inl e \<Longrightarrow>
     e = ''URL points to a webpage instead of an audio file'' \<or>
     (\<exists>v msg. net v = FetchRejected msg \<and> e = msg) \<or>
     (\<exists>v st b. net v = HttpResponse False st b \<and> e = ''Failed to fetch audio: '' @ st)"
proof (induction net m u c rule: fetch_loop.induct)
  case (1 net m u c)
  show ?case
  proof (cases "fetch_body net m u c")
    case (Inl r)
    then show ?thesis using 1 fetch_body_error [of net m u c e] by auto
  next
    case (Inr v)
    then show ?thesis using 1 fetch_body_continue [OF Inr] by auto
  qed
qed

lemma fetch_loop_html_chain:
  assumes "\<forall>v. \<exists>b u. net v = HttpResponse True st b \<and> is_html (first_bytes b) \<and>
                   regex_search mp3_pattern (first_bytes b) = Some u \<and> u \<noteq> []"
    and "c < m"
  shows "fst (fetch_loop net m url c) = Inl ''URL points to a webpage instead of an audio file'' \<and>
         length (snd (fetch_loop net m url c)) = m - c"
  using assms(2)
proof (induction "m - c" arbitrary: url c)
  case 0
  then show ?case by simp
next
  case (Suc k)
  obtain b u where n: "net url = HttpResponse True st b" "is_html (first_bytes b)"
      "regex_search mp3_pattern (first_bytes b) = Some u" "u \<noteq> []"
    using assms(1) by blast
  show ?case
  proof (cases "Suc c < m")
    case True
    then have "fetch_body net m url c = Inr u" using n by (simp add: fetch_body_def)
    moreover have "fst (fetch_loop net m u (Suc c)) = Inl ''URL points to a webpage instead of an audio file'' \<and>
         length (snd (fetch_loop net m u (Suc c))) = m - Suc c"
      by (rule Suc.hyps(1)) (use Suc.hyps(2) True in simp_all)
    ultimately show ?thesis using Suc.prems True by simp
  next
    case False
    then have "fetch_body net m url c = Inl (Inl ''URL points to a webpage instead of an audio file'')"
      using n Suc.prems by (simp add: fetch_body_def fetch_catch_def js_includes_def)
    then show ?thesis using Suc.prems False by simp
  qed
qed

section \<open>The route and the panel\<close>

lemma classify_error_nonempty [simp]: "classify_error msg \<noteq> (code, [])"
  by (simp add: classify_error_def)

lemma transcribe_post_error_nonempty: "transcribe_post k b net dg = Inl (code, msg) \<Longrightarrow> msg \<noteq> []"
  by (auto simp: transcribe_post_def split: if_splits transcribe_body.splits sum.splits dg_result.splits
      option.splits prod.splits)

section \<open>Properties of the route\<close>

lemma regex_search_infix: "regex_search m s = Some u \<Longrightarrow> \<exists>i k. u = take k (drop i s)"
  by (auto simp: regex_search_def Let_def split: option.splits)

lemma fetch_body_lower: "fetch_body net m u c = Inr v \<Longrightarrow> js_lower v = v"
proof -
  assume h: "fetch_body net m u c = Inr v"
  then obtain b st where "net u = HttpResponse True st b" and r: "regex_search mp3_pattern (first_bytes b) = Some v"
    by (auto simp: fetch_body_def split: fetch_response.splits if_splits option.splits)
  obtain i k where "v = take k (drop i (first_bytes b))" using regex_search_infix [OF r] by blast
  moreover have "js_lower (first_bytes b) = first_bytes b" by (simp add: first_bytes_def js_lower_idem)
  ultimately show ?thesis using js_lower_infix by blast
qed

lemma fetch_loop_head: "c < m \<Longrightarrow> snd (fetch_loop net m u c) = u # tl (snd (fetch_loop net m u c))"
  by (cases "fetch_body net m u c") simp_all

lemma fetch_loop_lower: "\<forall>v \<in> set (tl (snd (fetch_loop net m u c))). js_lower v = v"
proof (induction net m u c rule: fetch_loop.induct)
  case (1 net m u c)
  show ?case
  proof (cases "c < m")
    case True
    show ?thesis
    proof (cases "fetch_body net m u c")
      case (Inr v)
      have s: "Suc c < m" using fetch_body_continue [OF Inr] .
      have "snd (fetch_loop net m v (Suc c)) = v # tl (snd (fetch_loop net m v (Suc c)))"
        using s by (rule fetch_loop_head)
      moreover have "js_lower v = v" using Inr by (rule fetch_body_lower)
      moreover have "\<forall>w \<in> set (tl (snd (fetch_loop net m v (Suc c)))). js_lower w = w"
        using 1 True Inr by simp
      ultimately have "\<forall>w \<in> set (snd (fetch_loop net m v (Suc c))). js_lower w = w"
        by (metis set_ConsD)
      then show ?thesis using True Inr by simp
    qed (use True in simp)
  qed (simp add: fetch_loop.simps)
qed

text \<open>C32. The redirect loop always ends: \<open>fetchAudioWithRedirects\<close> makes at least one
  and at most five requests.\<close>

theorem fetch_audio_requests:
  "1 \<le> length (snd (fetch_audio net url)) \<and> length (snd (fetch_audio net url)) \<le> 5"
  using fetch_loop_requests [of 0 5 net url] by (simp add: fetch_audio_def)

text \<open>C33. The errors the download can end with: the webpage error, the message of a
  rejected request, or \<open>Failed to fetch audio\<close> with a status text.  The two
  \<open>Too many redirects\<close> errors of the loop (lines 163 and 170) are never thrown, so
  POST's \<open>too many redirects\<close> answer (line 90) never comes from the loop.\<close>

theorem fetch_audio_errors:
  assumes "fst (fetch_audio net url) = Inl e"
  shows "e = ''URL points to a webpage instead of an audio file'' \<or>
         (\<exists>v msg. net v = FetchRejected msg \<and> e = msg) \<or>
         (\<exists>v st b. net v = HttpResponse False st b \<and> e = ''Failed to fetch audio: '' @ st)"
  using fetch_loop_errors [of 0 5 net url e] assms by (simp add: fetch_audio_def)

theorem fetch_audio_errors_witness:
  "''fetch failed'' = ''URL points to a webpage instead of an audio file'' \<or>
   (\<exists>v msg. (\<lambda>_. FetchRejected ''fetch failed'') v = FetchRejected msg \<and> ''fetch failed'' = msg) \<or>
   (\<exists>v st b. (\<lambda>_. FetchRejected ''fetch failed'') v = HttpResponse False st b \<and>
      ''fetch failed'' = ''Failed to fetch audio: '' @ st)"
proof -
  have "fst (fetch_audio (\<lambda>_. FetchRejected ''fetch failed'') ''u'') = Inl ''fetch failed''"
    by (simp add: fetch_audio_def fetch_body_def fetch_catch_def js_includes_def)
  from fetch_audio_errors [OF this] show ?thesis by simp
qed

text \<open>C34. A chain of HTML pages, each linking another \<open>.mp3\<close> URL in its first bytes,
  is followed for four links; the fifth page ends the download with the webpage error,
  after exactly five requests.\<close>

theorem fetch_audio_html_chain:
  assumes "\<forall>v. \<exists>b u. net v = HttpResponse True st b \<and> is_html (first_bytes b) \<and>
                   regex_search mp3_pattern (first_bytes b) = Some u \<and> u \<noteq> []"
  shows "fst (fetch_audio net url) = Inl ''URL points to a webpage instead of an audio file'' \<and>
         length (snd (fetch_audio net url)) = 5"
  using fetch_loop_html_chain [OF assms, of 0 5 url] by (simp add: fetch_audio_def)

theorem fetch_audio_html_chain_witness:
  "fst (fetch_audio (\<lambda>v. HttpResponse True ''OK'' ''<html>http://a.mp3'') ''u'') =
     Inl ''URL points to a webpage instead of an audio file'' \<and>
   length (snd (fetch_audio (\<lambda>v. HttpResponse True ''OK'' ''<html>http://a.mp3'') ''u'')) = 5"
proof (rule fetch_audio_html_chain)
  have "is_html (first_bytes ''<html>http://a.mp3'')" by code_simp
  moreover have "regex_search mp3_pattern (first_bytes ''<html>http://a.mp3'') = Some ''http://a.mp3''"
    by code_simp
  ultimately show "\<forall>v. \<exists>b u. HttpResponse True ''OK'' ''<html>http://a.mp3'' = HttpResponse True ''OK'' b \<and>
      is_html (first_bytes b) \<and> regex_search mp3_pattern (first_bytes b) = Some u \<and> u \<noteq> []"
    by blast
qed

text \<open>An example of the lower-casing: the page links \<open>Ep1.mp3\<close>, which the server has, but
  the loop requests \<open>ep1.mp3\<close>, which it has not, and the download fails.\<close>

theorem fetch_audio_lowercases_link:
  "fetch_audio (\<lambda>v. if v = ''p'' then HttpResponse True ''OK'' ''<html>http://x/Ep1.mp3''
                   else if v = ''http://x/Ep1.mp3'' then HttpResponse True ''OK'' ''ID3''
                   else HttpResponse False ''Not Found'' []) ''p'' =
     (Inl ''Failed to fetch audio: Not Found'', [''p'', ''http://x/ep1.mp3''])"
  by code_simp

text \<open>C35. The link found in an HTML page is taken from the lower-cased first bytes
  (line 138), so every URL the loop requests after the first is in lower case, whatever
  the case of the link in the page.\<close>

theorem fetch_audio_lower:
  "\<forall>v \<in> set (tl (snd (fetch_audio net url))). js_lower v = v"
  unfolding fetch_audio_def by (rule fetch_loop_lower)

theorem fetch_audio_lower_witness:
  "js_lower ''http://x/ep1.mp3'' = ''http://x/ep1.mp3''"
proof -
  let ?net = "\<lambda>v. if v = ''p'' then HttpResponse True ''OK'' ''<html>http://x/Ep1.mp3''
                   else if v = ''http://x/Ep1.mp3'' then HttpResponse True ''OK'' ''ID3''
                   else HttpResponse False ''Not Found'' []"
  have "''http://x/ep1.mp3'' \<in> set (tl (snd (fetch_audio ?net ''p'')))" by code_simp
  then show ?thesis using fetch_audio_lower [of ?net "''p''"] by blast
qed

text \<open>C36. What the panel makes of the route's answer: every error response shows
  exactly the route's message and posts nothing; a successful response with an empty
  transcript (a silent recording) is reported as an invalid response; any other success
  shows the words with the text the route chose (the punctuated form when there is one)
  and posts the transcript to the chat panel.\<close>

theorem route_to_panel:
  assumes "transcribe_post k b net dg = r"
  shows "(\<forall>code msg. r = Inl (code, msg) \<longrightarrow>
            transcript_error (fst (finish_transcript (as_panel_response r) s)) = Some msg \<and>
            snd (finish_transcript (as_panel_response r) s) = []) \<and>
         (\<forall>ws. r = Inr ([], ws) \<longrightarrow>
            transcript_error (fst (finish_transcript (as_panel_response r) s)) = Some ''Invalid transcription response'') \<and>
         (\<forall>text dws. r = Inr (text, map route_word dws) \<longrightarrow> text \<noteq> [] \<longrightarrow>
            map w_word (words (fst (finish_transcript (as_panel_response r) s))) =
              map (\<lambda>w. case js_or (dw_punctuated_word w) (Some (dw_word w)) of Some x \<Rightarrow> x | None \<Rightarrow> []) dws \<and>
            snd (finish_transcript (as_panel_response r) s) = [PostTranscriptReady text])"
  using transcribe_post_error_nonempty [of k b net dg] assms
  by (auto simp: as_panel_response_def finish_transcript_def convert_word_def route_word_def Let_def
      split: option.split)

theorem route_to_panel_witness:
  "transcript_error (fst (finish_transcript (as_panel_response (transcribe_post False (JsonBody None) (\<lambda>_. FetchRejected []) (\<lambda>_. DgError []))) panel_init)) =
     Some ''Transcription service configuration error. Please check API key.'' \<and>
   snd (finish_transcript (as_panel_response (transcribe_post False (JsonBody None) (\<lambda>_. FetchRejected []) (\<lambda>_. DgError []))) panel_init) = []"
proof -
  have "transcribe_post False (JsonBody None) (\<lambda>_. FetchRejected []) (\<lambda>_. DgError []) = Inl (500, ''Transcription service configuration error. Please check API key.'')"
    by (simp add: transcribe_post_def)
  moreover from route_to_panel [OF refl, of False "JsonBody None" "\<lambda>_. FetchRejected []" "\<lambda>_. DgError []" panel_init]
  have "\<forall>code msg. transcribe_post False (JsonBody None) (\<lambda>_. FetchRejected []) (\<lambda>_. DgError []) = Inl (code, msg) \<longrightarrow>
          transcript_error (fst (finish_transcript (as_panel_response (transcribe_post False (JsonBody None) (\<lambda>_. FetchRejected []) (\<lambda>_. DgError []))) panel_init)) = Some msg \<and>
          snd (finish_transcript (as_panel_response (transcribe_post False (JsonBody None) (\<lambda>_. FetchRejected []) (\<lambda>_. DgError []))) panel_init) = []"
    by (rule conjunct1)
  ultimately show ?thesis by simp
qed

end
