(* ===== verification/TranscriptCards.thy ===== *)
theory TranscriptCards
  imports Chunker
begin

text \<open>
  The page controller of \<open>src/src/app/components/TranscriptCards.tsx\<close>.  The
  component's \<open>useState\<close> variables are the record \<open>cards_state\<close>; its props
  \<open>currentTime\<close> and \<open>isPlaying\<close> come from ContentPanel, and its prop
  \<open>onTimeUpdate\<close> is the only way it acts on the player: each handler returns the new
  state and the list of \<open>onTimeUpdate\<close> calls it makes (\<open>cards_call\<close>).  The
  auto-advance effect (lines 71--82) re-runs whenever \<open>currentTime\<close>,
  \<open>isPlaying\<close>, \<open>chunks\<close> or \<open>currentChunkIndex\<close> change; \<open>auto_advance\<close> is
  idempotent, so running it after every handler gives the state once React's effects
  have settled (\<open>cards_step\<close>).  One mounted component with a fixed non-empty
  \<open>words\<close> prop is the inductive relation \<open>cards_reach\<close> (ContentPanel renders the
  component only while \<open>words.length > 0\<close>).  A new \<open>words\<close> prop reaching a mounted
  component is the chunking effect \<open>update_chunks\<close>, which keeps the page index; the
  theory Session composes it with the panel, where it can crash the render.
\<close>

section \<open>State, calls and events\<close>

text \<open>A call of the \<open>onTimeUpdate\<close> prop: seek the player to the given time.\<close>

datatype cards_call = OnTimeUpdate sec

text \<open>The state variables of lines 33--36.\<close>

record cards_state =
  chunks :: "transcript_chunk list"
  current_chunk_index :: nat
  drag_direction :: int
  goto_page :: string

definition cards_init :: cards_state where
  "cards_init = \<lparr>chunks = [], current_chunk_index = 0, drag_direction = 0, goto_page = []\<rparr>"

text \<open>The chunking effect of lines 40--69 on the state (see \<open>Chunker\<close>).\<close>

definition update_chunks :: "word list \<Rightarrow> cards_state \<Rightarrow> cards_state" where
  "update_chunks words st = st\<lparr>chunks := chunk_effect words (chunks st)\<rparr>"

section \<open>Handlers\<close>

text \<open>\<open>currentTime >= chunk.startTime && currentTime <= chunk.endTime\<close> (line 76).\<close>

definition chunk_contains :: "sec \<Rightarrow> transcript_chunk \<Rightarrow> bool" where
  "chunk_contains t c \<longleftrightarrow> start_time c \<le> t \<and> t \<le> end_time c"

text \<open>The auto-advance effect (lines 72--82).\<close>

definition auto_advance :: "sec \<Rightarrow> bool \<Rightarrow> cards_state \<Rightarrow> cards_state" where
  "auto_advance current_time is_playing st =
     (if \<not> is_playing \<or> chunks st = [] then st
      else let i = js_find_index (chunk_contains current_time) (chunks st)
           in if i \<noteq> -1 \<and> i \<noteq> int (current_chunk_index st)
              then st\<lparr>current_chunk_index := nat i\<rparr> else st)"

text \<open>\<open>navigateChunk\<close> (lines 98--109); \<open>has_cb\<close> says whether the optional prop
  \<open>onTimeUpdate\<close> was given.\<close>

definition navigate_chunk :: "bool \<Rightarrow> int \<Rightarrow> cards_state \<Rightarrow> cards_state \<times> cards_call list" where
  "navigate_chunk has_cb direction st =
     (let new_index = int (current_chunk_index st) + direction
      in if 0 \<le> new_index \<and> new_index < int (length (chunks st))
         then (st\<lparr>current_chunk_index := nat new_index, drag_direction := direction\<rparr>,
               if has_cb then [OnTimeUpdate (start_time (chunks st ! nat new_index))] else [])
         else (st, []))"

text \<open>\<open>handleDragEnd\<close> (lines 84--96), given the drag's horizontal velocity and offset.\<close>

definition handle_drag_end ::
  "bool \<Rightarrow> real \<Rightarrow> real \<Rightarrow> cards_state \<Rightarrow> cards_state \<times> cards_call list" where
  "handle_drag_end has_cb velocity offset st =
     (let threshold = 50
      in if 100 \<le> \<bar>velocity\<bar> \<or> threshold \<le> \<bar>offset\<bar>
         then if 0 < velocity \<and> 0 < current_chunk_index st then navigate_chunk has_cb (-1) st
              else if velocity < 0 \<and> int (current_chunk_index st) < int (length (chunks st)) - 1
                   then navigate_chunk has_cb 1 st
                   else (st, [])
         else (st, []))"

text \<open>\<open>handleGotoPage\<close> (lines 111--124): \<open>parseInt(gotoPage)\<close>, where \<open>NaN\<close>
  (\<open>None\<close>) fails both comparisons.\<close>

definition handle_goto_page :: "bool \<Rightarrow> cards_state \<Rightarrow> cards_state \<times> cards_call list" where
  "handle_goto_page has_cb st =
     (case parse_int (goto_page st) of
        Some page_number \<Rightarrow>
          if 0 < page_number \<and> page_number \<le> int (length (chunks st))
          then (let new_index = nat (page_number - 1)
                in (st\<lparr>current_chunk_index := new_index, goto_page := []\<rparr>,
                    if has_cb then [OnTimeUpdate (start_time (chunks st ! new_index))] else []))
          else (st, [])
      | None \<Rightarrow> (st, []))"

text \<open>\<open>handleWordClick\<close> (lines 126--130).\<close>

definition handle_word_click :: "bool \<Rightarrow> bool \<Rightarrow> word \<Rightarrow> cards_call list" where
  "handle_word_click has_cb ctrl_key w =
     (if ctrl_key \<and> has_cb then [OnTimeUpdate (w_start w)] else [])"

section \<open>What the component renders\<close>

text \<open>The words of the shown card (line 191) and the highlight test (line 196).\<close>

definition shown_words :: "cards_state \<Rightarrow> word list" where
  "shown_words st = c_words (chunks st ! current_chunk_index st)"

definition word_highlighted :: "sec \<Rightarrow> word \<Rightarrow> bool" where
  "word_highlighted t w \<longleftrightarrow> w_start w \<le> t \<and> t \<le> w_end w"

definition highlighted_words :: "sec \<Rightarrow> cards_state \<Rightarrow> word list" where
  "highlighted_words t st = filter (word_highlighted t) (shown_words st)"

text \<open>The \<open>disabled\<close> attributes of the arrow buttons (lines 148 and 161).\<close>

definition prev_disabled :: "cards_state \<Rightarrow> bool" where
  "prev_disabled st \<longleftrightarrow> current_chunk_index st = 0"

definition next_disabled :: "cards_state \<Rightarrow> bool" where
  "next_disabled st \<longleftrightarrow> int (current_chunk_index st) = int (length (chunks st)) - 1"

section \<open>The mounted component\<close>

text \<open>The user's and the parent's actions on a mounted component: a new
  \<open>currentTime\<close>/\<open>isPlaying\<close> prop pair, the two arrow buttons, the end of a drag
  (velocity, offset), typing in and submitting the page field, and a click on the
  \<open>i\<close>-th shown word with or without the Ctrl key.\<close>

datatype cards_event =
    PropsChange sec bool
  | PrevClick
  | NextClick
  | DragEnd real real
  | GotoInput string
  | GotoSubmit
  | WordClick bool nat

text \<open>The handler an event runs.  ContentPanel always passes \<open>onTimeUpdate\<close>, so the
  mounted component has the callback.\<close>

fun cards_handle :: "cards_state \<Rightarrow> cards_event \<Rightarrow> cards_state \<times> cards_call list" where
  "cards_handle st (PropsChange t p) = (st, [])"
| "cards_handle st PrevClick = (if prev_disabled st then (st, []) else navigate_chunk True (-1) st)"
| "cards_handle st NextClick = (if next_disabled st then (st, []) else navigate_chunk True 1 st)"
| "cards_handle st (DragEnd v off) = handle_drag_end True v off st"
| "cards_handle st (GotoInput s) = (st\<lparr>goto_page := s\<rparr>, [])"
| "cards_handle st GotoSubmit = handle_goto_page True st"
| "cards_handle st (WordClick ctrl i) =
     (if i < length (shown_words st) then (st, handle_word_click True ctrl (shown_words st ! i))
      else (st, []))"

text \<open>One event with the effects settled: the props after the event, the state, the
  calls made.\<close>

definition cards_step ::
  "sec \<times> bool \<Rightarrow> cards_state \<Rightarrow> cards_event \<Rightarrow> (sec \<times> bool) \<times> cards_state \<times> cards_call list" where
  "cards_step pr st ev =
     (let pr' = (case ev of PropsChange t p \<Rightarrow> (t, p) | _ \<Rightarrow> pr);
          (st', calls) = cards_handle st ev
      in (pr', auto_advance (fst pr') (snd pr') st', calls))"

text \<open>Mounting renders nothing, then runs the chunking effect and, once \<open>chunks\<close> is
  set, the auto-advance effect.\<close>

definition cards_mount :: "word list \<Rightarrow> sec \<Rightarrow> bool \<Rightarrow> cards_state" where
  "cards_mount words t p = auto_advance t p (update_chunks words cards_init)"

inductive cards_reach :: "word list \<Rightarrow> sec \<times> bool \<Rightarrow> cards_state \<Rightarrow> bool" for words where
  mount: "words \<noteq> [] \<Longrightarrow> cards_reach words (t, p) (cards_mount words t p)"
| step: "cards_reach words pr st \<Longrightarrow> cards_step pr st ev = (pr', st', calls) \<Longrightarrow>
         cards_reach words pr' st'"

definition cards_inv :: "word list \<Rightarrow> sec \<times> bool \<Rightarrow> cards_state \<Rightarrow> bool" where
  "cards_inv words pr st \<longleftrightarrow>
     chunks st = split_into_chunks WORDS_PER_CHUNK words \<and>
     current_chunk_index st < length (chunks st) \<and>
     auto_advance (fst pr) (snd pr) st = st"

section \<open>Frame, bounds and idempotence\<close>

named_theorems cards_frame "the handlers do not change the chunks"

lemma chunks_auto_advance [simp, cards_frame]: "chunks (auto_advance t p st) = chunks st"
  by (simp add: auto_advance_def Let_def)

lemma chunks_navigate_chunk [simp, cards_frame]: "chunks (fst (navigate_chunk cb d st)) = chunks st"
  by (simp add: navigate_chunk_def Let_def)

lemma chunks_handle_drag_end [simp, cards_frame]: "chunks (fst (handle_drag_end cb v off st)) = chunks st"
  by (simp add: handle_drag_end_def Let_def)

lemma chunks_handle_goto_page [simp, cards_frame]: "chunks (fst (handle_goto_page cb st)) = chunks st"
  by (simp add: handle_goto_page_def Let_def split: option.split)

lemma chunks_cards_handle [simp, cards_frame]: "chunks (fst (cards_handle st ev)) = chunks st"
  by (cases ev) simp_all

lemma auto_advance_index:
  "current_chunk_index st < length (chunks st) \<Longrightarrow>
   current_chunk_index (auto_advance t p st) < length (chunks st)"
  using js_find_index_range [of "chunk_contains t" "chunks st"]
  by (auto simp: auto_advance_def Let_def)

lemma navigate_chunk_index:
  "current_chunk_index st < length (chunks st) \<Longrightarrow>
   current_chunk_index (fst (navigate_chunk cb d st)) < length (chunks st)"
  by (auto simp: navigate_chunk_def Let_def)

lemma handle_drag_end_index:
  "current_chunk_index st < length (chunks st) \<Longrightarrow>
   current_chunk_index (fst (handle_drag_end cb v off st)) < length (chunks st)"
  by (simp add: handle_drag_end_def Let_def navigate_chunk_index)

lemma handle_goto_page_index:
  "current_chunk_index st < length (chunks st) \<Longrightarrow>
   current_chunk_index (fst (handle_goto_page cb st)) < length (chunks st)"
  by (auto simp: handle_goto_page_def Let_def split: option.split)

lemma cards_handle_index:
  "current_chunk_index st < length (chunks st) \<Longrightarrow>
   current_chunk_index (fst (cards_handle st ev)) < length (chunks st)"
  by (cases ev) (simp_all add: navigate_chunk_index handle_drag_end_index handle_goto_page_index)

lemma auto_advance_idem: "auto_advance t p (auto_advance t p st) = auto_advance t p st"
  using js_find_index_range [of "chunk_contains t" "chunks st"]
  by (auto simp: auto_advance_def Let_def)

lemma cards_step_state:
  "cards_step pr st ev = (pr', st', calls) \<Longrightarrow>
   st' = auto_advance (fst pr') (snd pr') (fst (cards_handle st ev))"
  by (auto simp: cards_step_def Let_def split: prod.splits)

lemma split_into_chunks_nonempty:
  "words \<noteq> [] \<Longrightarrow> split_into_chunks per_chunk words \<noteq> []"
  by (simp add: split_into_chunks_groups)

lemma cards_mount_inv: "words \<noteq> [] \<Longrightarrow> cards_inv words (t, p) (cards_mount words t p)"
proof -
  assume ne: "words \<noteq> []"
  let ?st = "update_chunks words cards_init"
  have ch: "chunks ?st = split_into_chunks WORDS_PER_CHUNK words"
    using ne by (simp add: update_chunks_def chunk_effect_def)
  have "current_chunk_index ?st < length (chunks ?st)"
    using ne split_into_chunks_nonempty [OF ne] by (simp add: update_chunks_def chunk_effect_def cards_init_def)
  then have "current_chunk_index (auto_advance t p ?st) < length (chunks ?st)"
    by (rule auto_advance_index)
  then show ?thesis
    using ch by (simp add: cards_inv_def cards_mount_def auto_advance_idem)
qed

lemma cards_step_inv:
  assumes "cards_inv words pr st" and "cards_step pr st ev = (pr', st', calls)"
  shows "cards_inv words pr' st'"
proof -
  let ?h = "fst (cards_handle st ev)"
  have st': "st' = auto_advance (fst pr') (snd pr') ?h"
    using assms(2) by (rule cards_step_state)
  have "current_chunk_index ?h < length (chunks ?h)"
    using assms(1) cards_handle_index [of st ev] unfolding cards_inv_def by auto
  then have "current_chunk_index st' < length (chunks st')"
    unfolding st' chunks_auto_advance by (rule auto_advance_index)
  then show ?thesis
    using assms(1) unfolding cards_inv_def st' by (simp add: auto_advance_idem)
qed

lemma cards_invD:
  assumes "cards_inv words pr st"
  shows "chunks st = split_into_chunks WORDS_PER_CHUNK words"
    and "current_chunk_index st < length (chunks st)"
    and "auto_advance (fst pr) (snd pr) st = st"
  using assms unfolding cards_inv_def by blast+

lemma cards_reach_inv_lemma: "cards_reach words pr st \<Longrightarrow> cards_inv words pr st"
proof (induction rule: cards_reach.induct)
  case (mount t p)
  then show ?case by (rule cards_mount_inv)
next
  case (step pr st ev pr' st' calls)
  then show ?case by (blast intro: cards_step_inv)
qed

lemma cards_reach_settled:
  "cards_reach words pr st \<Longrightarrow> auto_advance (fst pr) (snd pr) st = st"
  using cards_reach_inv_lemma by (simp add: cards_inv_def)

lemma settled_find_index:
  assumes "auto_advance t True st = st" and "current_chunk_index st < length (chunks st)"
    and "chunk_contains t (chunks st ! current_chunk_index st)"
  shows "js_find_index (chunk_contains t) (chunks st) = int (current_chunk_index st)"
proof (rule ccontr)
  let ?k = "js_find_index (chunk_contains t) (chunks st)"
  assume neq: "?k \<noteq> int (current_chunk_index st)"
  have ne: "?k \<noteq> -1"
    using assms(2,3) js_find_index_none [of "chunk_contains t" "chunks st"] nth_mem by fastforce
  then have rng: "0 \<le> ?k" using js_find_index_range by blast
  have cne: "chunks st \<noteq> []" using assms(2) by auto
  have "current_chunk_index (auto_advance t True st) = nat ?k"
    using ne neq cne by (simp add: auto_advance_def Let_def)
  moreover have "current_chunk_index (auto_advance t True st) = current_chunk_index st"
    using assms(1) by simp
  ultimately show False using neq rng by simp
qed

lemma cards_step_handler:
  "(\<forall>t p. ev \<noteq> PropsChange t p) \<Longrightarrow>
   cards_step pr st ev = (pr, auto_advance (fst pr) (snd pr) (fst (cards_handle st ev)), snd (cards_handle st ev))"
  by (cases ev) (auto simp: cards_step_def Let_def split: prod.split)

text \<open>C10. Safety of the mounted component, and where it ends: while the \<open>words\<close> prop
  stays the same, in every reachable state the chunks are the chunking of \<open>words\<close> and
  the page index is within them, so the render's \<open>chunks[currentChunkIndex].words\<close>
  never reads past the array.  When a new non-empty \<open>words\<close> prop arrives, the chunking
  effect (lines 40--69) replaces the chunks by the chunking of the new words and keeps the
  page index, so the next render is safe exactly when the old index is below the new
  number of pages (the crash of C24 is the other case).\<close>

theorem cards_reach_safe:
  "cards_reach words pr st \<Longrightarrow>
   chunks st = split_into_chunks WORDS_PER_CHUNK words \<and> current_chunk_index st < length (chunks st) \<and>
   (\<forall>ws. ws \<noteq> [] \<longrightarrow>
      chunks (update_chunks ws st) = split_into_chunks WORDS_PER_CHUNK ws \<and>
      current_chunk_index (update_chunks ws st) = current_chunk_index st)"
  using cards_invD(1,2) [OF cards_reach_inv_lemma] by (simp add: update_chunks_def chunk_effect_def)

theorem cards_reach_safe_witness:
  "chunks (cards_mount [\<lparr>w_word = ''Hi.'', w_start = 0, w_end = 1, w_confidence = None, w_speaker = None\<rparr>] 0 False) = split_into_chunks WORDS_PER_CHUNK [\<lparr>w_word = ''Hi.'', w_start = 0, w_end = 1, w_confidence = None, w_speaker = None\<rparr>] \<and>
   current_chunk_index (cards_mount [\<lparr>w_word = ''Hi.'', w_start = 0, w_end = 1, w_confidence = None, w_speaker = None\<rparr>] 0 False) < length (chunks (cards_mount [\<lparr>w_word = ''Hi.'', w_start = 0, w_end = 1, w_confidence = None, w_speaker = None\<rparr>] 0 False)) \<and>
   chunks (update_chunks [\<lparr>w_word = ''Bye.'', w_start = 2, w_end = 3, w_confidence = None, w_speaker = None\<rparr>] (cards_mount [\<lparr>w_word = ''Hi.'', w_start = 0, w_end = 1, w_confidence = None, w_speaker = None\<rparr>] 0 False)) =
     split_into_chunks WORDS_PER_CHUNK [\<lparr>w_word = ''Bye.'', w_start = 2, w_end = 3, w_confidence = None, w_speaker = None\<rparr>] \<and>
   current_chunk_index (update_chunks [\<lparr>w_word = ''Bye.'', w_start = 2, w_end = 3, w_confidence = None, w_speaker = None\<rparr>] (cards_mount [\<lparr>w_word = ''Hi.'', w_start = 0, w_end = 1, w_confidence = None, w_speaker = None\<rparr>] 0 False)) = current_chunk_index (cards_mount [\<lparr>w_word = ''Hi.'', w_start = 0, w_end = 1, w_confidence = None, w_speaker = None\<rparr>] 0 False)"
proof -
  have r: "cards_reach [\<lparr>w_word = ''Hi.'', w_start = 0, w_end = 1, w_confidence = None, w_speaker = None\<rparr>] (0, False) (cards_mount [\<lparr>w_word = ''Hi.'', w_start = 0, w_end = 1, w_confidence = None, w_speaker = None\<rparr>] 0 False)"
    by (rule cards_reach.mount) simp
  have ne: "[\<lparr>w_word = ''Bye.'', w_start = 2, w_end = 3, w_confidence = None, w_speaker = None\<rparr>] \<noteq> []" by simp
  show ?thesis using cards_reach_safe [OF r] ne by blast
qed

text \<open>C11. Navigating is a no-op at the boundaries: \<open>navigateChunk(-1)\<close> on the first
  page and \<open>navigateChunk(1)\<close> on the last page change nothing and make no seek.\<close>

theorem navigate_chunk_boundary:
  "(current_chunk_index st = 0 \<longrightarrow> navigate_chunk cb (-1) st = (st, [])) \<and>
   (Suc (current_chunk_index st) = length (chunks st) \<longrightarrow> navigate_chunk cb 1 st = (st, []))"
  by (auto simp: navigate_chunk_def Let_def)

theorem navigate_chunk_boundary_witness:
  "navigate_chunk True (-1) cards_init = (cards_init, []) \<and>
   navigate_chunk True 1 (cards_init\<lparr>chunks := [make_chunk [\<lparr>w_word = ''Hi.'', w_start = 0, w_end = 1,
      w_confidence = None, w_speaker = None\<rparr>]]\<rparr>) =
   (cards_init\<lparr>chunks := [make_chunk [\<lparr>w_word = ''Hi.'', w_start = 0, w_end = 1,
      w_confidence = None, w_speaker = None\<rparr>]]\<rparr>, [])"
  using navigate_chunk_boundary [of cards_init True]
    navigate_chunk_boundary [of "cards_init\<lparr>chunks := [make_chunk [\<lparr>w_word = ''Hi.'', w_start = 0, w_end = 1,
      w_confidence = None, w_speaker = None\<rparr>]]\<rparr>" True]
  by (simp add: cards_init_def)

text \<open>C12. Out-of-range page requests are ignored: when the page field does not parse to
  a number between 1 and the number of chunks, submitting it changes nothing and makes
  no seek.\<close>

theorem handle_goto_page_out_of_range:
  "(\<forall>n. parse_int (goto_page st) = Some n \<longrightarrow> n \<le> 0 \<or> int (length (chunks st)) < n) \<Longrightarrow>
   handle_goto_page cb st = (st, [])"
  by (auto simp: handle_goto_page_def split: option.split)

theorem handle_goto_page_out_of_range_witness:
  "handle_goto_page True (cards_init\<lparr>goto_page := ''0''\<rparr>) = (cards_init\<lparr>goto_page := ''0''\<rparr>, [])"
  by (rule handle_goto_page_out_of_range) (simp add: cards_init_def parse_int_simps)

text \<open>C13. The page field is read with \<open>parseInt\<close>, which stops at the first
  character that is not a digit: the entry \<open>1e2\<close>, a valid number for the
  \<open>type="number"\<close> input (100), goes to page 1.\<close>

theorem handle_goto_page_exponent:
  "chunks st \<noteq> [] \<Longrightarrow>
   current_chunk_index (fst (handle_goto_page cb (st\<lparr>goto_page := ''1e2''\<rparr>))) = 0"
  by (simp add: handle_goto_page_def parse_int_simps Let_def Suc_le_eq)

theorem handle_goto_page_exponent_witness:
  "current_chunk_index (fst (handle_goto_page True ((cards_init\<lparr>chunks := [make_chunk [\<lparr>w_word = ''Hi.'',
      w_start = 0, w_end = 1, w_confidence = None, w_speaker = None\<rparr>]]\<rparr>)
      \<lparr>goto_page := ''1e2''\<rparr>))) = 0"
  by (rule handle_goto_page_exponent) simp

text \<open>C14. Clicking a shown word seeks only with the Ctrl key held: without it the
  component's state is unchanged and no \<open>onTimeUpdate\<close> call is made; with it exactly
  one call seeks to the word's start.\<close>

theorem word_click_seek:
  assumes "cards_reach words pr st" and "i < length (shown_words st)"
  shows "cards_step pr st (WordClick False i) = (pr, st, []) \<and>
         cards_step pr st (WordClick True i) = (pr, st, [OnTimeUpdate (w_start (shown_words st ! i))])"
  using cards_reach_settled [OF assms(1)] assms(2)
  by (simp add: cards_step_handler handle_word_click_def)

theorem word_click_seek_witness:
  "cards_step (0, False) (cards_mount [\<lparr>w_word = ''Hi.'', w_start = 2, w_end = 3, w_confidence = None,
      w_speaker = None\<rparr>] 0 False) (WordClick True 0) =
   ((0, False), cards_mount [\<lparr>w_word = ''Hi.'', w_start = 2, w_end = 3, w_confidence = None,
      w_speaker = None\<rparr>] 0 False, [OnTimeUpdate 2])"
proof -
  let ?ws = "[\<lparr>w_word = ''Hi.'', w_start = 2::real, w_end = 3, w_confidence = None, w_speaker = None\<rparr>]"
  have r: "cards_reach ?ws (0, False) (cards_mount ?ws 0 False)"
    by (rule cards_reach.mount) simp
  have sh: "shown_words (cards_mount ?ws 0 False) = ?ws"
    by (simp add: cards_mount_def auto_advance_def update_chunks_def chunk_effect_def cards_init_def
        shown_words_def split_into_chunks_groups make_chunk_def)
  show ?thesis using word_click_seek [OF r, of 0] sh by simp
qed

text \<open>C15. While playing, the auto-advance effect shows the first chunk whose time range
  contains the current time.\<close>

theorem auto_advance_first_chunk:
  assumes "i < length (chunks st)" and "chunk_contains t (chunks st ! i)"
    and "\<forall>j<i. \<not> chunk_contains t (chunks st ! j)"
  shows "current_chunk_index (auto_advance t True st) = i"
  using js_find_index_eqI [OF assms] assms(1) by (auto simp: auto_advance_def)

theorem auto_advance_first_chunk_witness:
  "current_chunk_index (auto_advance (5/2) True (cards_init\<lparr>chunks :=
     [make_chunk [\<lparr>w_word = ''a'', w_start = 0, w_end = 1, w_confidence = None, w_speaker = None\<rparr>],
      make_chunk [\<lparr>w_word = ''b'', w_start = 2, w_end = 3, w_confidence = None, w_speaker = None\<rparr>]]\<rparr>)) = 1"
  by (rule auto_advance_first_chunk) (simp_all add: make_chunk_def chunk_contains_def less_Suc_eq)

text \<open>C16. The active chunk is left alone when the player is paused, and when the
  current time lies in no chunk's range.\<close>

theorem auto_advance_unchanged:
  "\<not> p \<or> (\<forall>c\<in>set (chunks st). \<not> chunk_contains t c) \<Longrightarrow> auto_advance t p st = st"
  by (auto simp: auto_advance_def js_find_index_none)

theorem auto_advance_unchanged_witness:
  "auto_advance 10 True (cards_init\<lparr>chunks :=
     [make_chunk [\<lparr>w_word = ''a'', w_start = 0, w_end = 1, w_confidence = None, w_speaker = None\<rparr>]]\<rparr>) =
   cards_init\<lparr>chunks :=
     [make_chunk [\<lparr>w_word = ''a'', w_start = 0, w_end = 1, w_confidence = None, w_speaker = None\<rparr>]]\<rparr>"
  by (rule auto_advance_unchanged) (simp add: make_chunk_def chunk_contains_def)

text \<open>An example of auto-advance moving back: a tick whose time lies in
  an earlier chunk moves the shown page back.\<close>

theorem auto_advance_backward:
  "current_chunk_index (auto_advance (1/2) True (cards_init\<lparr>chunks :=
     [make_chunk [\<lparr>w_word = ''a'', w_start = 0, w_end = 1, w_confidence = None, w_speaker = None\<rparr>],
      make_chunk [\<lparr>w_word = ''b'', w_start = 2, w_end = 3, w_confidence = None, w_speaker = None\<rparr>]],
     current_chunk_index := 1\<rparr>)) = 0"
  by (simp add: auto_advance_def make_chunk_def chunk_contains_def cards_init_def)

text \<open>C18. Next while playing is undone by the auto-advance effect: when the current time
  lies in the shown chunk, the Next button seeks the player to the next chunk's start but
  the effect, re-run with the new index and the old time, returns to the shown chunk; only
  the drag direction changes.\<close>

theorem next_click_snaps_back:
  assumes "cards_reach words (t, True) st"
    and "chunk_contains t (chunks st ! current_chunk_index st)"
    and "Suc (current_chunk_index st) < length (chunks st)"
  shows "cards_step (t, True) st NextClick =
         ((t, True), st\<lparr>drag_direction := 1\<rparr>,
          [OnTimeUpdate (start_time (chunks st ! Suc (current_chunk_index st)))])"
proof -
  have inv: "cards_inv words (t, True) st" using assms(1) by (rule cards_reach_inv_lemma)
  have k: "js_find_index (chunk_contains t) (chunks st) = int (current_chunk_index st)"
    using cards_invD(3) [OF inv] cards_invD(2) [OF inv] assms(2) by (simp add: settled_find_index)
  have nd: "\<not> next_disabled st" using assms(3) by (simp add: next_disabled_def)
  have n: "nat (int (current_chunk_index st) + 1) = Suc (current_chunk_index st)" by simp
  have ne: "chunks st \<noteq> []" using assms(3) by auto
  show ?thesis
    using k nd assms(3) ne
    by (simp add: cards_step_handler navigate_chunk_def auto_advance_def Let_def n)
qed

lemma example_two_chunks:
  assumes "\<not> ends_with_punctuation (w_word w)" and "ends_with_punctuation (w_word v)"
  shows "split_into_chunks WORDS_PER_CHUNK (replicate 99 w @ v # [x]) =
         [make_chunk (replicate 99 w @ [v]), make_chunk [x]]"
proof -
  have "chunk_groups 100 [] (replicate 99 w @ v # [x]) = (replicate 99 w @ [v]) # chunk_groups 100 [] [x]"
    using assms by (intro chunk_groups_first_boundary) (simp_all add: list_all_iff)
  then show ?thesis
    by (simp add: split_into_chunks_groups WORDS_PER_CHUNK_def)
qed

theorem next_click_snaps_back_witness:
  "cards_step (1/2, True)
     (cards_mount (replicate 99 \<lparr>w_word = ''so'', w_start = 0, w_end = 1, w_confidence = None, w_speaker = None\<rparr> @
        \<lparr>w_word = ''end.'', w_start = 1, w_end = 2, w_confidence = None, w_speaker = None\<rparr> #
        [\<lparr>w_word = ''next'', w_start = 3, w_end = 4, w_confidence = None, w_speaker = None\<rparr>]) (1/2) True)
     NextClick =
   ((1/2, True),
    (cards_mount (replicate 99 \<lparr>w_word = ''so'', w_start = 0, w_end = 1, w_confidence = None, w_speaker = None\<rparr> @
        \<lparr>w_word = ''end.'', w_start = 1, w_end = 2, w_confidence = None, w_speaker = None\<rparr> #
        [\<lparr>w_word = ''next'', w_start = 3, w_end = 4, w_confidence = None, w_speaker = None\<rparr>]) (1/2) True)
      \<lparr>drag_direction := 1\<rparr>,
    [OnTimeUpdate 3])"
proof -
  let ?w = "\<lparr>w_word = ''so'', w_start = 0::real, w_end = 1, w_confidence = None, w_speaker = None\<rparr>"
  let ?v = "\<lparr>w_word = ''end.'', w_start = 1::real, w_end = 2, w_confidence = None, w_speaker = None\<rparr>"
  let ?x = "\<lparr>w_word = ''next'', w_start = 3::real, w_end = 4, w_confidence = None, w_speaker = None\<rparr>"
  let ?ws = "replicate 99 ?w @ ?v # [?x]"
  have split: "split_into_chunks WORDS_PER_CHUNK ?ws = [make_chunk (replicate 99 ?w @ [?v]), make_chunk [?x]]"
    by (rule example_two_chunks) (simp_all add: ends_with_punctuation_def)
  have c0: "chunk_contains (1/2) (make_chunk (replicate 99 ?w @ [?v]))"
    by (simp add: make_chunk_def chunk_contains_def)
  have st: "cards_mount ?ws (1/2) True =
      \<lparr>chunks = [make_chunk (replicate 99 ?w @ [?v]), make_chunk [?x]], current_chunk_index = 0,
       drag_direction = 0, goto_page = []\<rparr>"
    using c0 by (simp add: cards_mount_def update_chunks_def chunk_effect_def cards_init_def split
        auto_advance_def)
  have r: "cards_reach ?ws (1/2, True) (cards_mount ?ws (1/2) True)"
    by (rule cards_reach.mount) simp
  show ?thesis
    using next_click_snaps_back [OF r] c0 st by (simp add: make_chunk_def)
qed

text \<open>An example of the highlight: every shown word whose time range contains the current time is highlighted,
  not only the first: with overlapping word times two words are highlighted at once.\<close>

theorem highlight_overlapping_words:
  "highlighted_words 1 (cards_init\<lparr>chunks :=
     [make_chunk [\<lparr>w_word = ''a'', w_start = 0, w_end = 1, w_confidence = None, w_speaker = None\<rparr>,
                  \<lparr>w_word = ''b'', w_start = 1, w_end = 2, w_confidence = None, w_speaker = None\<rparr>]]\<rparr>) =
   [\<lparr>w_word = ''a'', w_start = 0, w_end = 1, w_confidence = None, w_speaker = None\<rparr>,
    \<lparr>w_word = ''b'', w_start = 1, w_end = 2, w_confidence = None, w_speaker = None\<rparr>]"
  by (simp add: highlighted_words_def shown_words_def word_highlighted_def make_chunk_def cards_init_def)

end
