(* ===== verification/Session.thy ===== *)
theory Session
  imports ContentPanel TranscriptCards
begin

text \<open>
  ContentPanel with its child TranscriptCards (ContentPanel.tsx lines 405--411).  The
  panel passes \<open>words\<close>, \<open>currentTime\<close>, \<open>isPlaying\<close> and \<open>onTimeUpdate =
  handleTimeUpdate\<close>; the child exists while \<open>shows_cards\<close> holds.  After every
  change of the panel, \<open>reconcile\<close> does what React does with the child: unmount it,
  mount it, or re-render it with new props, running its effects (the chunking effect
  when \<open>words\<close> changed, the auto-advance effect).  The render that follows a new
  \<open>chunks\<close> state dereferences \<open>chunks[currentChunkIndex]\<close>; when the index is out of
  range that render throws and the application is gone (\<open>crashed\<close>).  The child's
  \<open>onTimeUpdate\<close> calls run \<open>handleTimeUpdate\<close> on the panel.
\<close>

record session =
  panel :: panel_state
  cards :: "(word list \<times> (sec \<times> bool) \<times> cards_state) option"
  crashed :: bool

datatype session_event = PanelEv panel_event | CardsEv cards_event

text \<open>The render of TranscriptCards reads \<open>chunks[currentChunkIndex].words\<close> once
  \<open>chunks\<close> is non-empty (lines 132 and 191).\<close>

definition render_ok :: "cards_state \<Rightarrow> bool" where
  "render_ok c \<longleftrightarrow> chunks c = [] \<or> current_chunk_index c < length (chunks c)"

definition reconcile :: "session \<Rightarrow> session" where
  "reconcile ss =
     (let p = panel ss; t = current_time p; pl = is_playing p
      in if \<not> shows_cards p then ss\<lparr>cards := None\<rparr>
         else case cards ss of
           None \<Rightarrow> ss\<lparr>cards := Some (words p, (t, pl), cards_mount (words p) t pl)\<rparr>
         | Some (ws, pr, cst) \<Rightarrow>
             let c1 = auto_advance t pl cst
             in if ws = words p then ss\<lparr>cards := Some (ws, (t, pl), c1)\<rparr>
                else let c2 = update_chunks (words p) c1
                     in if render_ok c2 then ss\<lparr>cards := Some (words p, (t, pl), auto_advance t pl c2)\<rparr>
                        else ss\<lparr>crashed := True\<rparr>)"

definition apply_call :: "panel_state \<Rightarrow> cards_call \<Rightarrow> panel_state" where
  "apply_call p c = (case c of OnTimeUpdate t \<Rightarrow> handle_time_update t p)"

fun session_step ::
  "(string \<Rightarrow> transcribe_response) \<Rightarrow> session \<Rightarrow> session_event \<Rightarrow> session \<times> panel_out list" where
  "session_step tr ss (PanelEv e) =
     (if crashed ss then (ss, [])
      else let (p', out) = panel_step tr (panel ss) e in (reconcile (ss\<lparr>panel := p'\<rparr>), out))"
| "session_step tr ss (CardsEv e) =
     (if crashed ss then (ss, [])
      else case (e, cards ss) of
        (PropsChange _ _, _) \<Rightarrow> (ss, [])
      | (_, None) \<Rightarrow> (ss, [])
      | (_, Some (ws, pr, cst)) \<Rightarrow>
          let (pr', cst', calls) = cards_step pr cst e
          in (reconcile (ss\<lparr>panel := foldl apply_call (panel ss) calls, cards := Some (ws, pr', cst')\<rparr>), []))"

fun session_run ::
  "(string \<Rightarrow> transcribe_response) \<Rightarrow> session \<Rightarrow> session_event list \<Rightarrow> session \<times> panel_out list" where
  "session_run tr ss [] = (ss, [])"
| "session_run tr ss (e # es) =
     (let (ss', out) = session_step tr ss e; (ss'', out') = session_run tr ss' es in (ss'', out @ out'))"

definition session_init :: session where
  "session_init = \<lparr>panel = panel_init, cards = None, crashed = False\<rparr>"

definition session_inv :: "session \<Rightarrow> bool" where
  "session_inv ss \<longleftrightarrow>
     (\<not> crashed ss \<longrightarrow>
       (case cards ss of
          None \<Rightarrow> \<not> shows_cards (panel ss)
        | Some (ws, pr, cst) \<Rightarrow>
            shows_cards (panel ss) \<and> ws = words (panel ss) \<and>
            pr = (current_time (panel ss), is_playing (panel ss)) \<and>
            chunks cst = split_into_chunks WORDS_PER_CHUNK ws \<and>
            current_chunk_index cst < length (chunks cst) \<and>
            auto_advance (fst pr) (snd pr) cst = cst))"

section \<open>The composition keeps the child consistent with the panel\<close>

definition cards_ok :: "session \<Rightarrow> bool" where
  "cards_ok ss \<longleftrightarrow>
     (\<forall>ws pr cst. cards ss = Some (ws, pr, cst) \<longrightarrow>
        chunks cst = split_into_chunks WORDS_PER_CHUNK ws \<and> current_chunk_index cst < length (chunks cst))"

text \<open>At most one transcription request in flight, and none while the cards are shown.\<close>

definition single_flight :: "panel_state \<Rightarrow> bool" where
  "single_flight p \<longleftrightarrow> length (pending p) \<le> 1 \<and> (pending p \<noteq> [] \<longrightarrow> \<not> shows_cards p)"

lemma shows_cards_words: "shows_cards p \<Longrightarrow> words p \<noteq> []"
  by (simp add: shows_cards_def)

lemma reconcile_inv:
  assumes "\<not> crashed ss" and "cards_ok ss"
  shows "session_inv (reconcile ss)"
proof (cases "shows_cards (panel ss)")
  case False
  then show ?thesis by (simp add: reconcile_def session_inv_def)
next
  case True
  have ne: "words (panel ss) \<noteq> []" using True by (rule shows_cards_words)
  show ?thesis
  proof (cases "cards ss")
    case None
    let ?m = "cards_mount (words (panel ss)) (current_time (panel ss)) (is_playing (panel ss))"
    have m: "cards_inv (words (panel ss)) (current_time (panel ss), is_playing (panel ss)) ?m"
      by (rule cards_mount_inv [OF ne])
    show ?thesis
      using None True assms(1) cards_invD [OF m]
      by (simp add: reconcile_def session_inv_def Let_def)
  next
    case (Some c)
    obtain ws pr cst where c: "c = (ws, pr, cst)" by (cases c) auto
    let ?t = "current_time (panel ss)" and ?pl = "is_playing (panel ss)"
    let ?c1 = "auto_advance ?t ?pl cst"
    have old: "chunks cst = split_into_chunks WORDS_PER_CHUNK ws" "current_chunk_index cst < length (chunks cst)"
      using assms(2) Some c by (auto simp: cards_ok_def)
    have c1: "current_chunk_index ?c1 < length (chunks ?c1)"
      using auto_advance_index [OF old(2)] by simp
    show ?thesis
    proof (cases "ws = words (panel ss)")
      case True
      then show ?thesis
        using \<open>shows_cards (panel ss)\<close> Some c old c1 assms(1)
        by (simp add: reconcile_def session_inv_def Let_def auto_advance_idem)
    next
      case False
      let ?c2 = "update_chunks (words (panel ss)) ?c1"
      have ch2: "chunks ?c2 = split_into_chunks WORDS_PER_CHUNK (words (panel ss))"
        using ne by (simp add: update_chunks_def chunk_effect_def)
      show ?thesis
      proof (cases "render_ok ?c2")
        case True
        have "current_chunk_index ?c2 < length (chunks ?c2)"
          using True ch2 split_into_chunks_nonempty [OF ne] by (simp add: render_ok_def)
        then have "current_chunk_index (auto_advance ?t ?pl ?c2) < length (chunks ?c2)"
          by (rule auto_advance_index)
        then show ?thesis
          using \<open>shows_cards (panel ss)\<close> Some c False True ch2 assms(1)
          by (simp add: reconcile_def session_inv_def Let_def auto_advance_idem)
      next
        case False
        then show ?thesis
          using \<open>shows_cards (panel ss)\<close> Some c \<open>ws \<noteq> words (panel ss)\<close>
          by (simp add: reconcile_def session_inv_def Let_def)
      qed
    qed
  qed
qed

lemma session_inv_cards_ok: "session_inv ss \<Longrightarrow> \<not> crashed ss \<Longrightarrow> cards_ok ss"
  by (auto simp: session_inv_def cards_ok_def split: option.splits)

lemma cards_ok_panel [simp]: "cards_ok (ss\<lparr>panel := p\<rparr>) = cards_ok ss"
  by (simp add: cards_ok_def)

lemma cards_step_keeps:
  assumes "chunks cst = split_into_chunks WORDS_PER_CHUNK ws" and "current_chunk_index cst < length (chunks cst)"
    and "cards_step pr cst e = (pr', cst', calls)"
  shows "chunks cst' = split_into_chunks WORDS_PER_CHUNK ws \<and> current_chunk_index cst' < length (chunks cst')"
proof -
  have st': "cst' = auto_advance (fst pr') (snd pr') (fst (cards_handle cst e))"
    using assms(3) by (rule cards_step_state)
  have "current_chunk_index (fst (cards_handle cst e)) < length (chunks (fst (cards_handle cst e)))"
    using cards_handle_index [OF assms(2)] by simp
  then have "current_chunk_index cst' < length (chunks (fst (cards_handle cst e)))"
    unfolding st' by (rule auto_advance_index)
  then show ?thesis using assms(1) st' by simp
qed

lemma session_step_inv:
  assumes "session_inv ss"
  shows "session_inv (fst (session_step tr ss e))"
proof (cases "crashed ss")
  case True
  then show ?thesis using assms by (cases e) simp_all
next
  case False
  have ok: "cards_ok ss" using assms False by (rule session_inv_cards_ok)
  show ?thesis
  proof (cases e)
    case (PanelEv pe)
    then show ?thesis
      using False ok reconcile_inv [of "ss\<lparr>panel := fst (panel_step tr (panel ss) pe)\<rparr>"]
      by (simp add: split_def Let_def)
  next
    case (CardsEv ce)
    show ?thesis
    proof (cases "cards ss")
      case None
      then show ?thesis using CardsEv assms False by (cases ce) simp_all
    next
      case (Some c)
      obtain ws pr cst where c: "c = (ws, pr, cst)" by (cases c) auto
      obtain pr' cst' calls where cs: "cards_step pr cst ce = (pr', cst', calls)" by (cases "cards_step pr cst ce") auto
      have old: "chunks cst = split_into_chunks WORDS_PER_CHUNK ws" "current_chunk_index cst < length (chunks cst)"
        using ok Some c by (auto simp: cards_ok_def)
      have "cards_ok (ss\<lparr>panel := foldl apply_call (panel ss) calls, cards := Some (ws, pr', cst')\<rparr>)"
        using cards_step_keeps [OF old cs] by (auto simp: cards_ok_def)
      then have "session_inv (reconcile (ss\<lparr>panel := foldl apply_call (panel ss) calls, cards := Some (ws, pr', cst')\<rparr>))"
        using False by (intro reconcile_inv) simp_all
      then show ?thesis
        using CardsEv Some c cs False assms by (cases ce) simp_all
    qed
  qed
qed

lemma session_run_inv: "session_inv ss \<Longrightarrow> session_inv (fst (session_run tr ss evs))"
proof (induction evs arbitrary: ss)
  case (Cons e evs)
  have "session_inv (fst (session_step tr ss e))" using Cons.prems by (rule session_step_inv)
  then show ?case using Cons.IH by (simp add: split_def Let_def)
qed simp

lemma session_init_inv: "session_inv session_init"
  by (simp add: session_inv_def session_init_def panel_init_def shows_cards_def)

lemma reconcile_no_crash:
  assumes "\<not> crashed ss" and "\<And>c. shows_cards (panel ss) \<Longrightarrow> cards ss = Some c \<Longrightarrow> fst c = words (panel ss)"
  shows "\<not> crashed (reconcile ss)"
  using assms by (auto simp: reconcile_def Let_def split: option.split)

lemma apply_calls_words [simp]:
  "words (foldl apply_call p calls) = words p \<and> transcript (foldl apply_call p calls) = transcript p \<and>
   is_transcribing (foldl apply_call p calls) = is_transcribing p \<and> pending (foldl apply_call p calls) = pending p"
  by (induction calls arbitrary: p)
     (auto simp: apply_call_def handle_time_update_def split: cards_call.split option.split)

lemma shows_cards_apply_calls [simp]: "shows_cards (foldl apply_call p calls) = shows_cards p"
  by (simp add: shows_cards_def)

lemma panel_step_single_flight:
  assumes "single_flight p" and "length (pending (fst (panel_step tr p e))) \<le> 1"
  shows "single_flight (fst (panel_step tr p e)) \<and>
         (shows_cards p \<longrightarrow> shows_cards (fst (panel_step tr p e)) \<longrightarrow> words (fst (panel_step tr p e)) = words p)"
  using assms
  by (cases e)
     (auto simp: single_flight_def shows_cards_def select_audio_def start_transcript_def complete_transcript_def
        finish_transcript_def Let_def on_media_time_update_def on_media_play_def on_media_pause_def
        on_media_ended_def media_advance_def on_play_audio_message_def handle_audio_request_def
        handle_time_update_def split: option.split transcribe_response.split prod.split)
lemma session_step_single_flight:
  assumes "session_inv ss" and "\<not> crashed ss" and "single_flight (panel ss)"
    and "length (pending (panel (fst (session_step tr ss e)))) \<le> 1"
  shows "\<not> crashed (fst (session_step tr ss e)) \<and> single_flight (panel (fst (session_step tr ss e)))"
proof (cases e)
  case (PanelEv pe)
  let ?p' = "fst (panel_step tr (panel ss) pe)"
  have pf: "panel (fst (session_step tr ss e)) = ?p'"
    using PanelEv assms(2) by (simp add: split_def reconcile_def Let_def split: option.split)
  have sf: "single_flight ?p'" and w: "shows_cards (panel ss) \<Longrightarrow> shows_cards ?p' \<Longrightarrow> words ?p' = words (panel ss)"
    using panel_step_single_flight [OF assms(3), of tr pe] assms(4) pf by simp_all
  have "\<not> crashed (reconcile (ss\<lparr>panel := ?p'\<rparr>))"
  proof (rule reconcile_no_crash)
    fix c assume "shows_cards (panel (ss\<lparr>panel := ?p'\<rparr>))" "cards (ss\<lparr>panel := ?p'\<rparr>) = Some c"
    then show "fst c = words (panel (ss\<lparr>panel := ?p'\<rparr>))"
      using assms(1,2) w by (auto simp: session_inv_def split: option.splits)
  qed (simp add: assms(2))
  then show ?thesis using PanelEv assms(2) sf pf by (simp add: split_def Let_def)
next
  case (CardsEv ce)
  show ?thesis
  proof (cases "cards ss")
    case None
    then show ?thesis using CardsEv assms(2,3) by (cases ce) simp_all
  next
    case (Some c)
    obtain ws pr cst where c: "c = (ws, pr, cst)" by (cases c) auto
    obtain pr' cst' calls where cs: "cards_step pr cst ce = (pr', cst', calls)" by (cases "cards_step pr cst ce") auto
    have ws: "ws = words (panel ss)" using assms(1,2) Some c by (simp add: session_inv_def)
    let ?ss = "ss\<lparr>panel := foldl apply_call (panel ss) calls, cards := Some (ws, pr', cst')\<rparr>"
    have "\<not> crashed (reconcile ?ss)"
      by (rule reconcile_no_crash) (use assms(2) ws in auto)
    moreover have "single_flight (panel (reconcile ?ss))"
      using assms(3) by (auto simp: reconcile_def Let_def single_flight_def shows_cards_def split: option.split)
    ultimately show ?thesis using CardsEv Some c cs assms(2,3) by (cases ce) simp_all
  qed
qed

lemma split_single_len: "length (split_into_chunks n [w]) = 1"
  by (simp add: split_into_chunks_groups)

section \<open>Properties of the composition\<close>

text \<open>C23. In every run of the application that has not crashed, the mounted
  TranscriptCards belongs to the shown transcript: it is mounted exactly when the panel
  renders it, its \<open>words\<close> and \<open>currentTime\<close>/\<open>isPlaying\<close> props are the panel's,
  its chunks are the chunking of those words, its page index is in range, and its
  auto-advance effect has settled.\<close>

theorem session_reachable_inv: "session_inv (fst (session_run tr session_init evs))"
  using session_init_inv by (rule session_run_inv)

theorem session_reachable_inv_witness:
  "session_inv (fst (session_run (\<lambda>u. TrFailure ''network'') session_init
     [PanelEv (SelectAudio (Some ''a.mp3'')), PanelEv ClickTranscribe, PanelEv (TranscribeDone 0)]))"
  by (rule session_reachable_inv)

text \<open>C24. Two transcription requests in flight crash the application.  Ask for
  episode \<open>a\<close>'s transcript, switch to episode \<open>b\<close> (which re-enables the button) and
  ask again; \<open>b\<close>'s answer (two pages or more) mounts the cards, the user moves to page
  2, then \<open>a\<close>'s late one-word answer replaces the words.  The chunking effect makes one
  page but keeps \<open>currentChunkIndex = 1\<close>, and the render reads
  \<open>chunks[1].words\<close> of \<open>undefined\<close> (TranscriptCards.tsx line 191).\<close>

theorem two_requests_crash:
  assumes ta: "tr a = TrOk (Some ta) (Some [rw])" "ta \<noteq> []"
    and tb: "tr b = TrOk (Some tb) (Some rws)" "tb \<noteq> []"
    and two: "1 < length (split_into_chunks WORDS_PER_CHUNK (map convert_word rws))"
  shows "crashed (fst (session_run tr session_init
           [PanelEv (SelectAudio (Some a)), PanelEv ClickTranscribe,
            PanelEv (SelectAudio (Some b)), PanelEv ClickTranscribe,
            PanelEv (TranscribeDone 1), CardsEv NextClick, PanelEv (TranscribeDone 0)]))"
proof -
  have ne: "rws \<noteq> []" using two by (auto simp: split_into_chunks_groups)
  have neq: "map convert_word rws \<noteq> [convert_word rw]"
    using two split_single_len [of WORDS_PER_CHUNK "convert_word rw"] by auto
  show ?thesis
    using ta tb two ne neq split_into_chunks_nonempty [of "[convert_word rw]" WORDS_PER_CHUNK]
    by (simp add: session_init_def panel_init_def select_audio_def start_transcript_def
        complete_transcript_def finish_transcript_def shows_cards_def reconcile_def Let_def
        cards_mount_def auto_advance_def update_chunks_def chunk_effect_def cards_init_def
        next_disabled_def navigate_chunk_def apply_call_def handle_time_update_def render_ok_def
        cards_step_def split_single_len)
qed
theorem two_requests_crash_witness:
  "crashed (fst (session_run
     (\<lambda>u. if u = ''a'' then TrOk (Some ''hi'') (Some [\<lparr>rw_word = ''hi'', rw_punctuated_word = None, rw_start = 0, rw_end = 1, rw_confidence = None, rw_speaker = None\<rparr>])
        else TrOk (Some ''so end.'') (Some (replicate 99 \<lparr>rw_word = ''so'', rw_punctuated_word = None, rw_start = 0, rw_end = 1, rw_confidence = None, rw_speaker = None\<rparr> @ \<lparr>rw_word = ''end.'', rw_punctuated_word = None, rw_start = 1, rw_end = 2, rw_confidence = None, rw_speaker = None\<rparr> # [\<lparr>rw_word = ''next'', rw_punctuated_word = None, rw_start = 3, rw_end = 4, rw_confidence = None, rw_speaker = None\<rparr>])))
     session_init
     [PanelEv (SelectAudio (Some ''a'')), PanelEv ClickTranscribe,
      PanelEv (SelectAudio (Some ''b'')), PanelEv ClickTranscribe,
      PanelEv (TranscribeDone 1), CardsEv NextClick, PanelEv (TranscribeDone 0)]))"
proof -
  have h: "1 < length (split_into_chunks WORDS_PER_CHUNK
          (map convert_word (replicate 99 \<lparr>rw_word = ''so'', rw_punctuated_word = None, rw_start = 0, rw_end = 1, rw_confidence = None, rw_speaker = None\<rparr> @ \<lparr>rw_word = ''end.'', rw_punctuated_word = None, rw_start = 1, rw_end = 2, rw_confidence = None, rw_speaker = None\<rparr> # [\<lparr>rw_word = ''next'', rw_punctuated_word = None, rw_start = 3, rw_end = 4, rw_confidence = None, rw_speaker = None\<rparr>])))"
    unfolding map_append map_replicate list.map
    by (subst example_two_chunks) (simp_all add: convert_word_def ends_with_punctuation_def)
  show ?thesis
    apply (rule two_requests_crash [where a = "''a''" and b = "''b''" and ta = "''hi''" and tb = "''so end.''"])
        apply simp_all [4]
    apply (rule h)
    done
qed

text \<open>C25. Without overlapping requests the application never crashes: if no prefix of
  a run has more than one transcription request in flight, the render of the cards
  never reads past the last page.\<close>

theorem one_request_no_crash:
  assumes "\<forall>k \<le> length evs. length (pending (panel (fst (session_run tr session_init (take k evs))))) \<le> 1"
  shows "\<not> crashed (fst (session_run tr session_init evs))"
proof -
  have "session_inv ss \<Longrightarrow> \<not> crashed ss \<Longrightarrow> single_flight (panel ss) \<Longrightarrow>
        \<forall>k \<le> length evs. length (pending (panel (fst (session_run tr ss (take k evs))))) \<le> 1 \<Longrightarrow>
        \<not> crashed (fst (session_run tr ss evs))" for ss
  proof (induction evs arbitrary: ss)
    case (Cons e evs)
    let ?ss' = "fst (session_step tr ss e)"
    have "length (pending (panel ?ss')) \<le> 1"
      using Cons.prems(4) [rule_format, of 1] by (simp add: split_def)
    then have st: "\<not> crashed ?ss' \<and> single_flight (panel ?ss')"
      using Cons.prems(1-3) by (rule session_step_single_flight [rotated 3])
    have inv: "session_inv ?ss'" using Cons.prems(1) by (rule session_step_inv)
    have "\<forall>k \<le> length evs. length (pending (panel (fst (session_run tr ?ss' (take k evs))))) \<le> 1"
    proof (intro allI impI)
      fix k assume "k \<le> length evs"
      then show "length (pending (panel (fst (session_run tr ?ss' (take k evs))))) \<le> 1"
        using Cons.prems(4) [rule_format, of "Suc k"] by (simp add: split_def Let_def)
    qed
    then have "\<not> crashed (fst (session_run tr ?ss' evs))"
      using Cons.IH inv st by blast
    then show ?case by (simp add: split_def Let_def)
  qed simp
  then show ?thesis
    using session_init_inv assms by (simp add: session_init_def single_flight_def panel_init_def)
qed

theorem one_request_no_crash_witness:
  "\<not> crashed (fst (session_run (\<lambda>u. TrOk (Some ''hi.'') (Some [\<lparr>rw_word = ''hi.'', rw_punctuated_word = None, rw_start = 0, rw_end = 1, rw_confidence = None, rw_speaker = None\<rparr>])) session_init
     [PanelEv (SelectAudio (Some ''a'')), PanelEv ClickTranscribe, PanelEv (TranscribeDone 0),
      CardsEv NextClick, PanelEv MediaPlay, PanelEv (MediaAdvance 1), PanelEv MediaTimeUpdate]))"
  by (rule one_request_no_crash)
     (simp add: all_le_list_all session_init_def panel_init_def select_audio_def start_transcript_def
        complete_transcript_def finish_transcript_def shows_cards_def reconcile_def Let_def
        cards_mount_def auto_advance_def update_chunks_def chunk_effect_def cards_init_def
        next_disabled_def apply_call_def render_ok_def cards_step_def on_media_play_def
        media_advance_def on_media_time_update_def split_into_chunks_groups)

end
