(* ===== verification/Feeds.thy ===== *)
theory Feeds
  imports Prelude "HOL-Library.Multiset"
begin

text \<open>
  The feed side of the application: the RSS route \<open>src/src/app/api/rss/route.ts\<close>,
  the episode list \<open>components/FeedList.tsx\<close> (one feed, or all feeds merged by date),
  the subscriptions kept by \<open>page.tsx\<close> with their persistence in \<open>localStorage\<close>, and
  the add/delete controls of \<open>components/Sidebar.tsx\<close>.  The fetch and parse of a feed
  is a parameter from URLs to parsed feeds; a date string is read through a parameter
  \<open>dv\<close> standing for \<open>new Date(d).getTime()\<close> (invalid dates, whose \<open>NaN\<close> makes the
  sort comparator inconsistent, are not modelled).  An awaited request of a handler
  completes before the next event.
\<close>

section \<open>The RSS route\<close>

record enclosure =
  enc_url :: string
  enc_type :: "string option"

text \<open>An item as \<open>rss-parser\<close> returns it, with the custom fields of lines 5--12.\<close>

record rss_item =
  ri_guid :: "string option"
  ri_link :: "string option"
  ri_title :: "string option"
  ri_description :: "string option"
  ri_content_snippet :: "string option"
  ri_content :: "string option"
  ri_pub_date :: "string option"
  ri_iso_date :: "string option"
  ri_enclosure :: "enclosure option"

record rss_feed =
  rf_title :: "string option"
  rf_description :: "string option"
  rf_items :: "rss_item list"

text \<open>\<open>FeedItem\<close> as the route sends it and FeedList extends it with \<open>feedName\<close>.\<close>

record feed_item =
  fi_id :: "string option"
  fi_title :: "string option"
  fi_description :: string
  fi_content :: string
  fi_date :: "string option"
  fi_link :: "string option"
  fi_enclosure :: "enclosure option"
  fi_feed_name :: "string option"

definition str_or_empty :: "string option \<Rightarrow> string" where
  "str_or_empty x = (case x of Some s \<Rightarrow> s | None \<Rightarrow> [])"

text \<open>The item mapping of lines 26--34.\<close>

definition item_json :: "rss_item \<Rightarrow> feed_item" where
  "item_json it =
     \<lparr>fi_id = js_or (ri_guid it) (ri_link it), fi_title = ri_title it,
      fi_description = str_or_empty (js_or (ri_description it) (js_or (ri_content_snippet it) (Some []))),
      fi_content = str_or_empty (js_or (ri_content it) (js_or (ri_description it) (Some []))),
      fi_date = js_or (ri_pub_date it) (ri_iso_date it), fi_link = ri_link it,
      fi_enclosure = ri_enclosure it, fi_feed_name = None\<rparr>"

record rss_reply =
  rr_title :: "string option"
  rr_description :: "string option"
  rr_items :: "feed_item list"

text \<open>\<open>POST\<close> (lines 14--48): the \<open>feedUrl\<close> of the body (\<open>None\<close> when absent), and the
  fetch and parse as one parameter (\<open>None\<close> when either throws).\<close>

definition rss_post :: "(string \<Rightarrow> rss_feed option) \<Rightarrow> string option \<Rightarrow> (nat \<times> string) + rss_reply" where
  "rss_post load feed_url =
     (if \<not> str_truthy feed_url then Inl (400, ''Invalid feed URL'')
      else case load (the feed_url) of
        None \<Rightarrow> Inl (500, ''Failed to fetch RSS feed'')
      | Some f \<Rightarrow> Inr \<lparr>rr_title = rf_title f, rr_description = rf_description f,
                      rr_items = map item_json (take 25 (rf_items f))\<rparr>)"

section \<open>FeedList\<close>

record feed =
  f_id :: string
  f_name :: string
  f_url :: string

datatype selection = SelNone | SelAll | SelFeed feed

text \<open>\<open>fetchFeed\<close> (lines 43--64): every failure, a non-2xx answer included, gives the
  empty list.\<close>

definition fetch_feed :: "(string \<Rightarrow> rss_feed option) \<Rightarrow> feed \<Rightarrow> feed_item list" where
  "fetch_feed load fd =
     (case rss_post load (Some (f_url fd)) of
        Inl _ \<Rightarrow> []
      | Inr r \<Rightarrow> map (\<lambda>it. it\<lparr>fi_feed_name := Some (f_name fd)\<rparr>) (rr_items r))"

text \<open>\<open>fetchAllFeeds\<close> (lines 66--90): all feeds merged, sorted by date with the newest
  first (a stable sort, as \<open>Array.prototype.sort\<close> is), the first 25 kept.\<close>

definition merge_feeds :: "(string option \<Rightarrow> int) \<Rightarrow> feed_item list list \<Rightarrow> feed_item list" where
  "merge_feeds dv xss = take 25 (sort_key (\<lambda>it. - dv (fi_date it)) (concat xss))"

definition feed_list_items ::
  "(string \<Rightarrow> rss_feed option) \<Rightarrow> (string option \<Rightarrow> int) \<Rightarrow> selection \<Rightarrow> feed list \<Rightarrow> feed_item list" where
  "feed_list_items load dv sel fs =
     (case sel of
        SelNone \<Rightarrow> []
      | SelAll \<Rightarrow> merge_feeds dv (map (fetch_feed load) fs)
      | SelFeed fd \<Rightarrow> fetch_feed load fd)"

section \<open>The subscriptions of the home page\<close>

text \<open>The value under \<open>smartRssFeedFeeds\<close> in \<open>localStorage\<close>: absent, not parseable
  as JSON, or a list of feeds.\<close>

datatype stored = Absent | Corrupt | Stored "feed list"

record default_feed =
  df_id :: string
  df_name :: string
  df_url :: string

text \<open>\<open>defaultFeeds\<close> (\<open>lib/defaultFeeds.ts\<close>).\<close>

definition default_feeds :: "default_feed list" where
  "default_feeds =
     [\<lparr>df_id = ''sans-daily-podcast'', df_name = ''SANS Internet Storm Center Daily Podcast'',
       df_url = ''https://isc.sans.edu/dailypodcast.xml''\<rparr>,
      \<lparr>df_id = ''buzzsprout-feed'', df_name = ''Buzzsprout Feed'', df_url = ''https://feeds.buzzsprout.com/2407084.rss''\<rparr>,
      \<lparr>df_id = ''megaphone-glt'', df_name = ''Megaphone GLT'', df_url = ''https://feeds.megaphone.fm/GLT1412515089''\<rparr>,
      \<lparr>df_id = ''diary-of-a-ceo'', df_name = ''The Diary Of A CEO'', df_url = ''https://feeds.megaphone.fm/thediaryofaceo''\<rparr>,
      \<lparr>df_id = ''how-i-built-this'', df_name = ''How I Built This'', df_url = ''https://rss.art19.com/how-i-built-this''\<rparr>]"

text \<open>The state of \<open>Home\<close> (lines 33--36), the sidebar's own state (Sidebar.tsx lines
  44--46) and the storage.\<close>

record page_state =
  selected_feed :: selection
  selected_item :: "feed_item option"
  feeds :: "feed list"
  is_loading :: bool
  storage :: stored
  is_adding :: bool
  new_feed_url :: string
  sidebar_error :: string

definition page_init :: "stored \<Rightarrow> page_state" where
  "page_init st =
     \<lparr>selected_feed = SelNone, selected_item = None, feeds = [], is_loading = True, storage = st,
      is_adding = False, new_feed_url = [], sidebar_error = []\<rparr>"

text \<open>The validation of one default feed (lines 52--74).\<close>

definition validate_default :: "(string \<Rightarrow> rss_feed option) \<Rightarrow> default_feed \<Rightarrow> feed option" where
  "validate_default load d =
     (case rss_post load (Some (df_url d)) of
        Inl _ \<Rightarrow> None
      | Inr r \<Rightarrow> Some \<lparr>f_id = df_id d,
                       f_name = (case js_or (rr_title r) (Some (df_name d)) of Some x \<Rightarrow> x | None \<Rightarrow> []),
                       f_url = df_url d\<rparr>)"

text \<open>\<open>loadFeeds\<close> (lines 40--93).  \<open>JSON.parse\<close> of a corrupt value throws into the
  \<open>catch\<close>, which leaves the feeds empty.\<close>

definition load_feeds :: "(string \<Rightarrow> rss_feed option) \<Rightarrow> page_state \<Rightarrow> page_state" where
  "load_feeds load s =
     (case storage s of
        Corrupt \<Rightarrow> s\<lparr>is_loading := False\<rparr>
      | Stored fs \<Rightarrow> s\<lparr>feeds := fs, selected_feed := (if fs \<noteq> [] then SelAll else selected_feed s),
                      is_loading := False\<rparr>
      | Absent \<Rightarrow>
          let fs = List.map_filter (validate_default load) default_feeds
          in s\<lparr>storage := Stored fs, feeds := fs,
               selected_feed := (if fs \<noteq> [] then SelAll else selected_feed s), is_loading := False\<rparr>)"

text \<open>The effect of lines 99--103, run after every change of \<open>feeds\<close> or
  \<open>isLoading\<close>.\<close>

definition persist :: "page_state \<Rightarrow> page_state" where
  "persist s = (if \<not> is_loading s then s\<lparr>storage := Stored (feeds s)\<rparr> else s)"

text \<open>\<open>handleFeedSelect\<close>, \<open>handleFeedAdd\<close>, \<open>handleFeedDelete\<close> (lines 105--121).\<close>

definition handle_feed_select :: "selection \<Rightarrow> page_state \<Rightarrow> page_state" where
  "handle_feed_select sel s = s\<lparr>selected_feed := sel, selected_item := None\<rparr>"

definition handle_feed_add :: "feed \<Rightarrow> page_state \<Rightarrow> page_state" where
  "handle_feed_add fd s = s\<lparr>feeds := feeds s @ [fd], selected_feed := SelFeed fd, selected_item := None\<rparr>"

definition handle_feed_delete :: "string \<Rightarrow> page_state \<Rightarrow> page_state" where
  "handle_feed_delete fid s =
     s\<lparr>feeds := filter (\<lambda>fd. f_id fd \<noteq> fid) (feeds s),
       selected_feed := (case selected_feed s of SelFeed fd \<Rightarrow> if f_id fd = fid then SelAll else SelFeed fd
                         | x \<Rightarrow> x)\<rparr>"

text \<open>The id the page passes to the sidebar as \<open>selectedFeedId\<close> (line 159).\<close>

definition selected_feed_id :: "page_state \<Rightarrow> string option" where
  "selected_feed_id s = (case selected_feed s of SelAll \<Rightarrow> Some ''all'' | SelFeed fd \<Rightarrow> Some (f_id fd) | SelNone \<Rightarrow> None)"

text \<open>Sidebar's \<open>addFeed\<close> (lines 51--79): the feed's id is its URL.\<close>

definition add_feed :: "(string \<Rightarrow> rss_feed option) \<Rightarrow> page_state \<Rightarrow> page_state" where
  "add_feed load s =
     (if trim (new_feed_url s) = [] then s
      else case rss_post load (Some (new_feed_url s)) of
        Inl _ \<Rightarrow> s\<lparr>sidebar_error := ''Failed to add feed. Please check the URL and try again.''\<rparr>
      | Inr r \<Rightarrow>
          let fd = \<lparr>f_id = new_feed_url s,
                    f_name = (case js_or (rr_title r) (Some ''Unnamed Feed'') of Some x \<Rightarrow> x | None \<Rightarrow> []),
                    f_url = new_feed_url s\<rparr>
          in (handle_feed_add fd (s\<lparr>sidebar_error := []\<rparr>))\<lparr>new_feed_url := [], is_adding := False\<rparr>)"

text \<open>Sidebar's \<open>handleDeleteFeed\<close> (lines 81--89), after the user confirmed.\<close>

definition sidebar_delete :: "string \<Rightarrow> page_state \<Rightarrow> page_state" where
  "sidebar_delete fid s =
     (let s1 = handle_feed_delete fid s
      in if selected_feed_id s = Some fid then handle_feed_select SelAll s1 else s1)"

text \<open>The user's and the browser's events on the page: the end of \<open>loadFeeds\<close>, the
  \<open>All Feeds\<close> entry, the \<open>i\<close>-th feed of the list, the add controls, the delete button
  of the \<open>i\<close>-th feed with the answer to \<open>window.confirm\<close>, and an episode clicked in
  FeedList.\<close>

datatype page_event =
    LoadDone
  | ClickAll
  | ClickFeed nat
  | ClickAddButton
  | TypeFeedUrl string
  | SubmitFeed
  | CancelAdd
  | DeleteFeed nat bool
  | SelectItem feed_item

fun page_handle :: "(string \<Rightarrow> rss_feed option) \<Rightarrow> page_state \<Rightarrow> page_event \<Rightarrow> page_state" where
  "page_handle load s LoadDone = (if is_loading s then load_feeds load s else s)"
| "page_handle load s ClickAll = handle_feed_select SelAll s"
| "page_handle load s (ClickFeed i) = (if i < length (feeds s) then handle_feed_select (SelFeed (feeds s ! i)) s else s)"
| "page_handle load s ClickAddButton = s\<lparr>is_adding := True\<rparr>"
| "page_handle load s (TypeFeedUrl u) = (if is_adding s then s\<lparr>new_feed_url := u\<rparr> else s)"
| "page_handle load s SubmitFeed = (if is_adding s then add_feed load s else s)"
| "page_handle load s CancelAdd = s\<lparr>is_adding := False, new_feed_url := [], sidebar_error := []\<rparr>"
| "page_handle load s (DeleteFeed i ok) =
     (if i < length (feeds s) \<and> ok then sidebar_delete (f_id (feeds s ! i)) s else s)"
| "page_handle load s (SelectItem it) = s\<lparr>selected_item := Some it\<rparr>"

definition page_step :: "(string \<Rightarrow> rss_feed option) \<Rightarrow> page_state \<Rightarrow> page_event \<Rightarrow> page_state" where
  "page_step load s e = persist (page_handle load s e)"

definition page_run :: "(string \<Rightarrow> rss_feed option) \<Rightarrow> page_state \<Rightarrow> page_event list \<Rightarrow> page_state" where
  "page_run load s evs = foldl (page_step load) s evs"

text \<open>The mount of the page (lines 39--96).  With a stored value \<open>loadFeeds\<close> reaches no
  \<open>await\<close>, so it runs to its end inside the mount effect, before any event, and the
  persistence effect then runs; only the validation of the defaults (line 51) awaits,
  and its end is the event \<open>LoadDone\<close>.\<close>

definition page_start :: "(string \<Rightarrow> rss_feed option) \<Rightarrow> stored \<Rightarrow> page_state" where
  "page_start load st =
     (case st of Absent \<Rightarrow> page_init st | _ \<Rightarrow> persist (load_feeds load (page_init st)))"

text \<open>The states of a page opened with \<open>st0\<close> in storage.\<close>

inductive page_reach :: "(string \<Rightarrow> rss_feed option) \<Rightarrow> stored \<Rightarrow> page_state \<Rightarrow> bool" for load st0 where
  init: "page_reach load st0 (page_start load st0)"
| step: "page_reach load st0 s \<Longrightarrow> page_reach load st0 (page_step load s e)"

section \<open>Properties\<close>

subsection \<open>Library lemmas\<close>

lemma sorted_take_drop_le:
  assumes "sorted (map k ys)" and "x \<in> set (take n ys)" and "y \<in> set (drop n ys)"
  shows "k x \<le> k y"
  using assms sorted_append [of "map k (take n ys)" "map k (drop n ys)"]
  by (simp add: map_append [symmetric] del: map_append)

lemma page_handle_loading:
  "is_loading (page_handle load s e) \<Longrightarrow> is_loading s \<and> storage (page_handle load s e) = storage s"
  by (cases e)
     (auto simp: load_feeds_def handle_feed_select_def add_feed_def handle_feed_add_def sidebar_delete_def
        handle_feed_delete_def Let_def split: stored.splits sum.splits if_splits)

subsection \<open>The merged episode list\<close>

text \<open>C37. \<open>fetchAllFeeds\<close> shows the newest episodes of all feeds: its list is sorted by
  date with the newest first, has at most 25 entries, takes each from the fetched feeds
  (as a sub-multiset), and no episode left out is newer than one shown.\<close>

theorem merge_feeds_top:
  "sorted (map (\<lambda>it. - dv (fi_date it)) (merge_feeds dv xss)) \<and> length (merge_feeds dv xss) \<le> 25 \<and>
   mset (merge_feeds dv xss) \<subseteq># mset (concat xss) \<and>
   (\<forall>x \<in> set (merge_feeds dv xss). \<forall>y \<in># mset (concat xss) - mset (merge_feeds dv xss).
      dv (fi_date y) \<le> dv (fi_date x))"
proof -
  let ?k = "\<lambda>it. - dv (fi_date it)" and ?ys = "sort_key (\<lambda>it. - dv (fi_date it)) (concat xss)"
  have s: "sorted (map ?k ?ys)" by (rule sorted_sort_key)
  have m: "mset ?ys = mset (concat xss)" by simp
  have d: "mset (concat xss) - mset (take 25 ?ys) = mset (drop 25 ?ys)"
    using m by (metis add_diff_cancel_left' append_take_drop_id mset_append)
  have "mset (take 25 ?ys) \<subseteq># mset (concat xss)"
    using m by (metis append_take_drop_id mset_append mset_subset_eq_add_left)
  moreover have "\<forall>x \<in> set (take 25 ?ys). \<forall>y \<in># mset (drop 25 ?ys). dv (fi_date y) \<le> dv (fi_date x)"
    using sorted_take_drop_le [OF s] by fastforce
  moreover have "sorted (map ?k (take 25 ?ys))" using s by (metis append_take_drop_id map_append sorted_append)
  ultimately show ?thesis unfolding merge_feeds_def d by simp
qed

theorem merge_feeds_top_witness:
  "length (merge_feeds (\<lambda>_. 0) [[], []]) \<le> 25"
  using merge_feeds_top [of "\<lambda>_. 0" "[[], []]"] by simp

subsection \<open>Persistence of the subscriptions\<close>

text \<open>C38. In every reachable state of the page, storage holds what the page was opened
  with while the feeds load, and the current feeds afterwards: the effect of lines 99--103
  writes nothing before loading ends and then mirrors every change.  So a corrupt stored value,
  which loads as the empty list, is overwritten with the empty list.\<close>

theorem page_storage_inv:
  assumes "page_reach load st0 s"
  shows "(is_loading s \<longrightarrow> storage s = st0) \<and> (\<not> is_loading s \<longrightarrow> storage s = Stored (feeds s))"
  using assms
proof induction
  case init
  then show ?case
    by (cases st0) (simp_all add: page_start_def page_init_def persist_def load_feeds_def)
next
  case (step s e)
  then show ?case
    using page_handle_loading [of load s e] by (auto simp: page_step_def persist_def)
qed

theorem page_storage_inv_witness:
  "storage (page_start (\<lambda>_. None) Corrupt) = Stored []"
proof -
  have r: "page_reach (\<lambda>_. None) Corrupt (page_start (\<lambda>_. None) Corrupt)"
    by (rule page_reach.init)
  have "\<not> is_loading (page_start (\<lambda>_. None) Corrupt)"
    by (simp add: page_start_def persist_def page_init_def load_feeds_def)
  moreover have "feeds (page_start (\<lambda>_. None) Corrupt) = []"
    by (simp add: page_start_def persist_def page_init_def load_feeds_def)
  ultimately show ?thesis using page_storage_inv [OF r] by simp
qed

text \<open>C39. A feed added in the sidebar while the default feeds are still being validated
  (the first visit, nothing stored) is lost: \<open>loadFeeds\<close> ends with
  \<open>setFeeds(storedFeeds)\<close>, which replaces the list the add extended, and the
  persistence effect then stores the defaults only.\<close>

theorem page_add_before_load_lost:
  assumes "load u = Some f" and "trim u \<noteq> []"
  shows "feeds (page_run load (page_start load Absent) [ClickAddButton, TypeFeedUrl u, SubmitFeed, LoadDone]) =
           List.map_filter (validate_default load) default_feeds \<and>
         storage (page_run load (page_start load Absent) [ClickAddButton, TypeFeedUrl u, SubmitFeed, LoadDone]) =
           Stored (List.map_filter (validate_default load) default_feeds)"
  using assms
  by (simp add: page_run_def page_step_def persist_def page_start_def page_init_def add_feed_def
      handle_feed_add_def load_feeds_def rss_post_def Let_def)

theorem page_add_before_load_lost_witness:
  "feeds (page_run (\<lambda>_. Some \<lparr>rf_title = None, rf_description = None, rf_items = []\<rparr>)
     (page_start (\<lambda>_. Some \<lparr>rf_title = None, rf_description = None, rf_items = []\<rparr>) Absent)
     [ClickAddButton, TypeFeedUrl ''https://x/feed'', SubmitFeed, LoadDone]) =
     List.map_filter (validate_default (\<lambda>_. Some \<lparr>rf_title = None, rf_description = None, rf_items = []\<rparr>))
       default_feeds \<and>
   storage (page_run (\<lambda>_. Some \<lparr>rf_title = None, rf_description = None, rf_items = []\<rparr>)
     (page_start (\<lambda>_. Some \<lparr>rf_title = None, rf_description = None, rf_items = []\<rparr>) Absent)
     [ClickAddButton, TypeFeedUrl ''https://x/feed'', SubmitFeed, LoadDone]) =
     Stored (List.map_filter (validate_default (\<lambda>_. Some \<lparr>rf_title = None, rf_description = None, rf_items = []\<rparr>))
       default_feeds)"
  by (rule page_add_before_load_lost) (simp_all add: trim_def is_ws_def)

end
