(* ===== verification/ChatRoute.thy ===== *)
theory ChatRoute
  imports Prelude
begin

text \<open>
  The chat route \<open>src/src/app/api/chat/route.ts\<close>: the request validation of \<open>POST\<close>
  as an error sum, the extraction of bullet points from the language model's answer
  (the timestamp regular expression, \<open>parseTimestamp\<close>, the \<open>replace\<close> that strips the
  timestamp) and the formatted message.  The regular expression is translated
  structurally into backtracking matchers: a matcher returns the remainders of the
  input it can leave, in the order in which JavaScript's engine tries them, so the first
  remainder that lets the rest of the pattern match is the one JavaScript reports.  The
  language model is a parameter from the chosen prompt, the transcript and the question
  to its answer.
\<close>

section \<open>The timestamp pattern\<close>

definition is_digit :: "char \<Rightarrow> bool" where
  "is_digit c \<longleftrightarrow> c \<in> set ''0123456789''"

definition is_0_5 :: "char \<Rightarrow> bool" where
  "is_0_5 c \<longleftrightarrow> c \<in> set ''012345''"

text \<open>\<open>(\d{1,2}:)?[0-5]?\d:[0-5]\d\<close>, the group captured by the route's pattern
  (lines 108 and 112).\<close>

definition ts_body :: matcher where
  "ts_body =
     m_seq (m_opt (m_seq (m_seq (m_char is_digit) (m_opt (m_char is_digit))) (m_char (\<lambda>c. c = CHR '':''))))
       (m_seq (m_opt (m_char is_0_5))
         (m_seq (m_char is_digit)
           (m_seq (m_char (\<lambda>c. c = CHR '':''))
             (m_seq (m_char is_0_5) (m_char is_digit)))))"

text \<open>\<open>line.match(/^\[((\d{1,2}:)?[0-5]?\d:[0-5]\d)\]/)\<close>, returning the captured
  group \<open>timestampMatch[1]\<close>.\<close>

definition timestamp_match :: "string \<Rightarrow> string option" where
  "timestamp_match line =
     (case line of
        c # s \<Rightarrow>
          if c = CHR ''[''
          then (case filter (\<lambda>r. r \<noteq> [] \<and> hd r = CHR '']'') (ts_body s) of
                  r # _ \<Rightarrow> Some (take (length s - length r) s)
                | [] \<Rightarrow> None)
          else None
      | [] \<Rightarrow> None)"

text \<open>\<open>line.replace(/^\[.*?\]/, '')\<close>: the lazy \<open>.*?\<close> stops at the first \<open>]\<close>; \<open>.\<close>
  does not match a line terminator.\<close>

definition is_line_terminator :: "char \<Rightarrow> bool" where
  "is_line_terminator c \<longleftrightarrow> c = CHR 0x0A \<or> c = CHR 0x0D"

definition strip_timestamp :: "string \<Rightarrow> string" where
  "strip_timestamp line =
     (case line of
        c # s \<Rightarrow>
          if c = CHR ''[''
          then (case dropWhile (\<lambda>x. x \<noteq> CHR '']'' \<and> \<not> is_line_terminator x) s of
                  x # r \<Rightarrow> if x = CHR '']'' then r else line
                | [] \<Rightarrow> line)
          else line
      | [] \<Rightarrow> line)"

section \<open>Timestamps\<close>

text \<open>\<open>Number\<close> on the strings that reach it here: the captured group holds only digits
  and colons, so its parts are strings of decimal digits (\<open>Number('')\<close> is 0).  \<open>None\<close>
  stands for every other string, which the route never passes.\<close>

definition digit_of :: "char \<Rightarrow> nat" where
  "digit_of c = of_char c - 48"

definition js_number :: "string \<Rightarrow> nat option" where
  "js_number s = (if list_all is_digit s then Some (digits_value 10 (map digit_of s)) else None)"

text \<open>\<open>parseTimestamp\<close> (lines 164--178); \<open>None\<close> is \<open>NaN\<close>, which propagates through
  the arithmetic.\<close>

definition parse_timestamp :: "string \<Rightarrow> nat option" where
  "parse_timestamp ts =
     (let parts = map js_number (split_on CHR '':'' ts)
      in if length parts = 3 then
           (case (parts ! 0, parts ! 1, parts ! 2) of
              (Some h, Some m, Some s) \<Rightarrow> Some (h * 3600 + m * 60 + s) | _ \<Rightarrow> None)
         else if length parts = 2 then
           (case (parts ! 0, parts ! 1) of (Some m, Some s) \<Rightarrow> Some (m * 60 + s) | _ \<Rightarrow> None)
         else Some 0)"

section \<open>Bullet points and the formatted message\<close>

record bullet_point =
  bp_text :: string
  bp_timestamp :: nat

definition newline :: char where
  "newline = CHR 0x0A"

text \<open>Lines 105--123: keep the non-blank lines that match, map each to its text and
  timestamp, drop those with empty text or a \<open>NaN\<close> timestamp.\<close>

definition bullet_points :: "string \<Rightarrow> bullet_point list" where
  "bullet_points content =
     (let ls = filter (\<lambda>l. trim l \<noteq> [] \<and> timestamp_match l \<noteq> None) (split_on newline content);
          ps = map (\<lambda>l. case timestamp_match l of
                          Some ts \<Rightarrow> Some (trim (strip_timestamp l), parse_timestamp ts)
                        | None \<Rightarrow> None) ls;
          qs = filter (\<lambda>p. case p of Some (txt, t) \<Rightarrow> txt \<noteq> [] \<and> t \<noteq> None | None \<Rightarrow> False) ps
      in map (\<lambda>p. \<lparr>bp_text = fst (the p), bp_timestamp = the (snd (the p))\<rparr>) qs)"

text \<open>Lines 128--131.\<close>

definition formatted_response :: "string \<Rightarrow> string" where
  "formatted_response content =
     join_with [newline, newline] (filter (\<lambda>l. trim l \<noteq> []) (split_on newline content))"

text \<open>The bullet point a single line yields, read off the line as the route's comment
  describes it: a line that starts with a bracketed timestamp and has text after it.\<close>

definition line_bullet :: "string \<Rightarrow> bullet_point list" where
  "line_bullet l =
     (case timestamp_match l of
        None \<Rightarrow> []
      | Some ts \<Rightarrow>
          (case parse_timestamp ts of
             None \<Rightarrow> []
           | Some t \<Rightarrow>
               let txt = trim (drop (Suc (Suc (length ts))) l)
               in if txt = [] then [] else [\<lparr>bp_text = txt, bp_timestamp = t\<rparr>]))"

section \<open>The POST handler\<close>

text \<open>The request body after \<open>req.json()\<close> (\<open>None\<close> when the body is not JSON, which
  throws into the outer \<open>catch\<close>); absent or non-string fields are \<open>None\<close>.  The
  field \<open>type\<close> is not validated: any string is passed on and echoed.\<close>

record chat_request =
  cr_message :: "string option"
  cr_type :: string
  cr_transcript :: "string option"

text \<open>The two system prompts of lines 52--87; the prompt text itself is not modelled.\<close>

datatype prompt_kind = SummaryPrompt | QaPrompt

text \<open>\<open>model.generateContent\<close>: the text of the answer, or a rejected promise.\<close>

datatype model_result = ModelText string | ModelFailure

record chat_reply =
  reply_message :: string
  reply_type :: string
  reply_bullets :: "bullet_point list"

datatype chat_error = ChatError nat string

definition system_prompt :: "string \<Rightarrow> prompt_kind" where
  "system_prompt ty = (if ty = ''summary'' then SummaryPrompt else QaPrompt)"

text \<open>\<open>POST\<close> (lines 25--162): the API-key check, the body, the two required fields,
  the model call and the parsing of its answer; every \<open>return NextResponse.json(..,
  {status})\<close> is an \<open>Inl\<close>, the successful answer an \<open>Inr\<close>.\<close>

definition chat_post ::
  "bool \<Rightarrow> (prompt_kind \<Rightarrow> string \<Rightarrow> string \<Rightarrow> model_result) \<Rightarrow> chat_request option \<Rightarrow>
   chat_error + chat_reply" where
  "chat_post has_key model req =
     (if \<not> has_key then
        Inl (ChatError 500 ''Google Gemini API key is not configured. Please add it to your environment variables.'')
      else case req of
        None \<Rightarrow> Inl (ChatError 500 ''Failed to process request. Please check your input and try again.'')
      | Some r \<Rightarrow>
          if \<not> str_truthy (cr_message r) then Inl (ChatError 400 ''Message is required'')
          else if \<not> str_truthy (cr_transcript r) then Inl (ChatError 400 ''Transcript is required'')
          else
            (case model (system_prompt (cr_type r)) (the (cr_transcript r)) (the (cr_message r)) of
               ModelText content \<Rightarrow>
                 if content = [] then
                   Inl (ChatError 500 ''Failed to process request with Gemini API. Please try again.'')
                 else Inr \<lparr>reply_message = formatted_response content, reply_type = cr_type r,
                            reply_bullets = bullet_points content\<rparr>
             | ModelFailure \<Rightarrow>
                 Inl (ChatError 500 ''Failed to process request with Gemini API. Please try again.'')))"

section \<open>The matchers and the captured timestamp\<close>

lemma digit_not_sep [simp]: "is_digit c \<Longrightarrow> c \<noteq> CHR '':''" "is_digit c \<Longrightarrow> c \<noteq> CHR '']''"
  by (auto simp: is_digit_def)

lemma is_0_5_digit [simp]: "is_0_5 c \<Longrightarrow> is_digit c"
  by (auto simp: is_digit_def is_0_5_def)

lemma digit_of_bound: "is_digit c \<Longrightarrow> digit_of c \<le> 9" "is_0_5 c \<Longrightarrow> digit_of c \<le> 5"
  by (auto simp: is_digit_def is_0_5_def digit_of_def)

lemma js_number_1: "is_digit a \<Longrightarrow> js_number [a] = Some (digit_of a)"
  by (simp add: js_number_def digits_value_def)

lemma js_number_2: "is_digit a \<Longrightarrow> is_digit b \<Longrightarrow> js_number [a, b] = Some (10 * digit_of a + digit_of b)"
  by (simp add: js_number_def digits_value_def)

lemma ts_body_shape:
  assumes "r \<in> set (ts_body s)"
  shows "s = take (length s - length r) s @ r \<and>
         (\<forall>c\<in>set (take (length s - length r) s). is_digit c \<or> c = CHR '':'') \<and>
         (\<exists>t. parse_timestamp (take (length s - length r) s) = Some t \<and> t < 360000)"
  using assms unfolding ts_body_def
  apply (auto simp: parse_timestamp_def js_number_1 js_number_2 Let_def)
  apply (auto dest!: digit_of_bound)
  done
lemma filter_first:
  "filter P xs = r # rs \<Longrightarrow> r \<in> set xs \<and> P r"
  by (metis filter_eq_ConsD in_set_conv_decomp)

lemma timestamp_match_Some:
  assumes "timestamp_match line = Some ts"
  shows "\<exists>rest. line = CHR ''['' # ts @ CHR '']'' # rest \<and>
           (\<forall>c\<in>set ts. is_digit c \<or> c = CHR '':'') \<and> (\<exists>t. parse_timestamp ts = Some t \<and> t < 360000)"
proof -
  obtain s where l: "line = CHR ''['' # s" and m: "filter (\<lambda>r. r \<noteq> [] \<and> hd r = CHR '']'') (ts_body s) \<noteq> []"
    using assms by (auto simp: timestamp_match_def split: list.splits if_splits)
  then obtain r rs where f: "filter (\<lambda>r. r \<noteq> [] \<and> hd r = CHR '']'') (ts_body s) = r # rs"
    by (cases "filter (\<lambda>r. r \<noteq> [] \<and> hd r = CHR '']'') (ts_body s)") auto
  have ts: "ts = take (length s - length r) s" using assms l f by (simp add: timestamp_match_def)
  have r: "r \<in> set (ts_body s)" "r \<noteq> []" "hd r = CHR '']''" using filter_first [OF f] by auto
  have "r = CHR '']'' # tl r" using r(2,3) by (cases r) auto
  moreover note ts_body_shape [OF r(1)]
  ultimately show ?thesis using l ts by (intro exI [of _ "tl r"]) auto
qed

lemma strip_timestamp_match:
  assumes "timestamp_match line = Some ts"
  shows "strip_timestamp line = drop (Suc (Suc (length ts))) line"
proof -
  obtain rest where l: "line = CHR ''['' # ts @ CHR '']'' # rest" and d: "\<forall>c\<in>set ts. is_digit c \<or> c = CHR '':''"
    using timestamp_match_Some [OF assms] by blast
  have "dropWhile (\<lambda>x. x \<noteq> CHR '']'' \<and> \<not> is_line_terminator x) (ts @ CHR '']'' # rest) = CHR '']'' # rest"
    using d by (induction ts) (auto simp: is_line_terminator_def is_digit_def)
  then show ?thesis using l by (simp add: strip_timestamp_def)
qed

lemma trim_bracket [simp]: "trim (CHR ''['' # s) \<noteq> []"
  by (simp add: trim_empty_iff is_ws_def)

lemma map_filter_map_filter:
  assumes "\<And>l. l \<in> set ls \<Longrightarrow> h l = (if Q l \<and> P (g l) then [f (g l)] else [])"
  shows "map f (filter P (map g (filter Q ls))) = concat (map h ls)"
  using assms by (induction ls) auto

lemma line_bullet_pipeline:
  "line_bullet l =
     (if (trim l \<noteq> [] \<and> timestamp_match l \<noteq> None) \<and>
         (case (case timestamp_match l of
                  Some ts \<Rightarrow> Some (trim (strip_timestamp l), parse_timestamp ts) | None \<Rightarrow> None) of
            Some (txt, t) \<Rightarrow> txt \<noteq> [] \<and> t \<noteq> None | None \<Rightarrow> False)
      then [(\<lambda>p. \<lparr>bp_text = fst (the p), bp_timestamp = the (snd (the p))\<rparr>)
              (case timestamp_match l of
                 Some ts \<Rightarrow> Some (trim (strip_timestamp l), parse_timestamp ts) | None \<Rightarrow> None)]
      else [])"
proof (cases "timestamp_match l")
  case (Some ts)
  obtain rest t where l: "l = CHR ''['' # ts @ CHR '']'' # rest" and p: "parse_timestamp ts = Some t"
    using timestamp_match_Some [OF Some] by blast
  have "trim l \<noteq> []" using l by simp
  then show ?thesis
    using Some p strip_timestamp_match [OF Some] by (simp add: line_bullet_def Let_def)
qed (simp add: line_bullet_def)

lemma bullet_points_by_line: "bullet_points content = concat (map line_bullet (split_on newline content))"
  unfolding bullet_points_def Let_def by (rule map_filter_map_filter) (rule line_bullet_pipeline)

lemma line_bullet_bounds:
  assumes "b \<in> set (line_bullet l)"
  shows "bp_text b \<noteq> [] \<and> bp_timestamp b < 360000"
proof -
  obtain ts where m: "timestamp_match l = Some ts"
    using assms by (cases "timestamp_match l") (auto simp: line_bullet_def)
  obtain t where p: "parse_timestamp ts = Some t" "t < 360000"
    using timestamp_match_Some [OF m] by blast
  show ?thesis using assms m p by (auto simp: line_bullet_def Let_def split: if_splits)
qed

lemma filter_split_on_join2:
  assumes "\<forall>x\<in>set xs. c \<notin> set x" and "\<not> P []"
  shows "filter P (split_on c (join_with [c, c] xs)) = filter P xs"
  using assms
proof (induction "[c, c]" xs rule: join_with.induct)
  case (3 x y ys)
  then show ?case by (simp add: split_on_append_sep)
qed auto

section \<open>Properties of the route\<close>

text \<open>C26. Every bullet point the route returns comes from one line of the model's
  answer that starts with a bracketed timestamp: its text is the trimmed rest of that
  line after the closing bracket and is not empty, its timestamp is the value of the
  bracketed time, and that value is below 100 hours (at most 99:59:59).\<close>

theorem bullet_points_sound:
  assumes "b \<in> set (bullet_points content)"
  shows "bp_text b \<noteq> [] \<and> bp_timestamp b < 360000 \<and>
         (\<exists>l\<in>set (split_on newline content). \<exists>ts.
            timestamp_match l = Some ts \<and> parse_timestamp ts = Some (bp_timestamp b) \<and>
            bp_text b = trim (drop (Suc (Suc (length ts))) l))"
proof -
  obtain l where l: "l \<in> set (split_on newline content)" and b: "b \<in> set (line_bullet l)"
    using assms by (auto simp: bullet_points_by_line)
  obtain ts where m: "timestamp_match l = Some ts"
    using b by (cases "timestamp_match l") (auto simp: line_bullet_def)
  obtain t where p: "parse_timestamp ts = Some t"
    using timestamp_match_Some [OF m] by blast
  have "b = \<lparr>bp_text = trim (drop (Suc (Suc (length ts))) l), bp_timestamp = t\<rparr>"
    using b m p by (simp add: line_bullet_def Let_def split: if_splits)
  then show ?thesis
    using line_bullet_bounds [OF b] l m p by auto
qed

theorem bullet_points_sound_witness:
  "bp_text \<lparr>bp_text = ''Intro'', bp_timestamp = 135\<rparr> \<noteq> [] \<and>
   bp_timestamp \<lparr>bp_text = ''Intro'', bp_timestamp = 135\<rparr> < 360000 \<and>
   (\<exists>l\<in>set (split_on newline ''[02:15] Intro''). \<exists>ts.
      timestamp_match l = Some ts \<and>
      parse_timestamp ts = Some (bp_timestamp \<lparr>bp_text = ''Intro'', bp_timestamp = 135\<rparr>) \<and>
      bp_text \<lparr>bp_text = ''Intro'', bp_timestamp = 135\<rparr> = trim (drop (Suc (Suc (length ts))) l))"
  by (rule bullet_points_sound)
     (simp add: bullet_points_def newline_def timestamp_match_def ts_body_def m_char_def m_seq_def m_opt_def
        is_digit_def is_0_5_def strip_timestamp_def parse_timestamp_def js_number_def digits_value_def
        digit_of_def trim_def is_ws_def is_line_terminator_def)

text \<open>C27. The timestamp the pattern captures always parses: \<open>parseTimestamp\<close> never
  yields \<open>NaN\<close> on it, so the \<open>isNaN\<close> test of line 122 never removes a point.\<close>

theorem captured_timestamp_parses:
  assumes "timestamp_match l = Some ts"
  shows "\<exists>t. parse_timestamp ts = Some t"
  using timestamp_match_Some [OF assms] by blast

theorem captured_timestamp_parses_witness: "\<exists>t. parse_timestamp ''1:02:15'' = Some t"
  by (rule captured_timestamp_parses [of "''[1:02:15] Intro''"])
     (simp add: timestamp_match_def ts_body_def m_char_def m_seq_def m_opt_def is_digit_def is_0_5_def)

text \<open>C28. The formatted message keeps every non-blank line of the model's answer, in
  order, those without a timestamp included (the spec: lines lacking the prefix are
  excluded from the bullet points but retained in the message); only blank lines are
  dropped, and the lines are separated by one empty line.\<close>

theorem formatted_response_keeps_lines:
  "filter (\<lambda>l. trim l \<noteq> []) (split_on newline (formatted_response content)) =
   filter (\<lambda>l. trim l \<noteq> []) (split_on newline content)"
proof -
  have "\<forall>x\<in>set (filter (\<lambda>l. trim l \<noteq> []) (split_on newline content)). newline \<notin> set x"
    using split_on_no_sep by auto
  then show ?thesis
    by (simp add: formatted_response_def filter_split_on_join2)
qed

text \<open>C29. The route answers with status 400 exactly when the API key is configured,
  the body is JSON, and the message or the transcript is missing or empty; every other
  failure (no key, a body that is not JSON, a failed or empty model answer) is a 500.\<close>

theorem chat_post_status:
  assumes "chat_post has_key model req = Inl (ChatError code msg)"
  shows "(code = 400 \<longleftrightarrow>
            has_key \<and> (\<exists>r. req = Some r \<and> (\<not> str_truthy (cr_message r) \<or> \<not> str_truthy (cr_transcript r)))) \<and>
         (code \<noteq> 400 \<longrightarrow> code = 500)"
  using assms
  by (auto simp: chat_post_def split: if_splits option.splits model_result.splits)

theorem chat_post_status_witness:
  "\<exists>r. Some \<lparr>cr_message = Some [], cr_type = ''qa'', cr_transcript = Some ''t''\<rparr> = Some r \<and> (\<not> str_truthy (cr_message r) \<or> \<not> str_truthy (cr_transcript r))"
proof -
  have "chat_post True (\<lambda>_ _ _. ModelFailure) (Some \<lparr>cr_message = Some [], cr_type = ''qa'', cr_transcript = Some ''t''\<rparr>) = Inl (ChatError 400 ''Message is required'')"
    by (simp add: chat_post_def)
  from chat_post_status [OF this]
  have "(400::nat) = 400 \<longleftrightarrow> True \<and> (\<exists>r. Some \<lparr>cr_message = Some [], cr_type = ''qa'', cr_transcript = Some ''t''\<rparr> = Some r \<and>
          (\<not> str_truthy (cr_message r) \<or> \<not> str_truthy (cr_transcript r)))"
    by (rule conjunct1)
  then show ?thesis by simp
qed

text \<open>An answer in the format the summary prompt asks for: the bracketed lines
  become bullet points in order (\<open>[1:05:30]\<close> is 3930 seconds), a line in
  \<open>[MM:SS]\<close> form with 75 minutes does not match the pattern and is dropped from the
  bullet points, and the message keeps all four non-blank lines separated by empty
  lines.\<close>

theorem chat_post_summary_example:
  "chat_post True
     (\<lambda>k tr q. if k = SummaryPrompt
               then ModelText (''Overview'' @ [newline] @ ''[02:15] Host discusses AI'' @ [newline] @
                               ''[75:30] Late point'' @ [newline, newline] @ ''[1:05:30] Wrap-up'')
               else ModelFailure)
     (Some \<lparr>cr_message = Some ''Please summarize'', cr_type = ''summary'', cr_transcript = Some ''words''\<rparr>) =
   Inr \<lparr>reply_message = ''Overview'' @ [newline, newline] @ ''[02:15] Host discusses AI'' @ [newline, newline] @
                         ''[75:30] Late point'' @ [newline, newline] @ ''[1:05:30] Wrap-up'',
        reply_type = ''summary'',
        reply_bullets = [\<lparr>bp_text = ''Host discusses AI'', bp_timestamp = 135\<rparr>,
                         \<lparr>bp_text = ''Wrap-up'', bp_timestamp = 3930\<rparr>]\<rparr>"
  by (simp add: chat_post_def system_prompt_def formatted_response_def bullet_points_def newline_def
      timestamp_match_def ts_body_def m_char_def m_seq_def m_opt_def is_digit_def is_0_5_def
      strip_timestamp_def parse_timestamp_def js_number_def digits_value_def digit_of_def trim_def
      is_ws_def is_line_terminator_def)

end
