(* ===== verification/ChatBot.thy ===== *)
theory ChatBot
  imports ChatRoute
begin

text \<open>
  The chat panel \<open>src/src/app/components/AIChatBot.tsx\<close>: its state variables as the
  record \<open>chatbot_state\<close>, \<open>formatTimestamp\<close>, the submit handler split at its
  \<open>await\<close> into a send step and a completion step, clearing, the bullet-point
  buttons, the \<open>TRANSCRIPT_READY\<close> listener and the keyboard listener.  The keyboard
  listener is registered by an effect whose only dependency is \<open>isOpen\<close>, so the
  \<open>messages\<close> it reads are those of the render in which \<open>isOpen\<close> last changed; the
  model keeps that copy as \<open>cb_key_messages\<close>.  The route's answer is the value of
  \<open>chat_post\<close> from the theory \<open>ChatRoute\<close> or a failed \<open>fetch\<close>.
\<close>

section \<open>Data\<close>

datatype role = User | Assistant

text \<open>\<open>Message\<close> (lines 6--15).\<close>

record message =
  m_role :: role
  m_content :: string
  m_type :: "string option"
  m_bullets :: "bullet_point list option"

text \<open>The state variables of lines 24--29, the messages seen by the keyboard listener,
  and the requests in flight with the transcript their closure saw.\<close>

record chatbot_state =
  cb_open :: bool
  cb_messages :: "message list"
  cb_input :: string
  cb_loading :: bool
  cb_selected :: "nat option"
  cb_transcript :: "string option"
  cb_key_messages :: "message list"
  cb_pending :: "(string \<times> string) list"

text \<open>What the panel posts with \<open>window.postMessage\<close> (lines 78--83).\<close>

datatype chat_out = PostPlayAudio nat

section \<open>Helpers\<close>

text \<open>\<open>Number.prototype.toString()\<close> on a natural number, and \<open>padStart(2, '0')\<close>.\<close>

definition digit_char :: "nat \<Rightarrow> char" where
  "digit_char d = ''0123456789'' ! d"

fun show_nat :: "nat \<Rightarrow> string" where
  "show_nat n = (if n < 10 then [digit_char n] else show_nat (n div 10) @ [digit_char (n mod 10)])"

declare show_nat.simps [simp del]

definition pad2 :: "string \<Rightarrow> string" where
  "pad2 s = replicate (2 - length s) CHR ''0'' @ s"

text \<open>\<open>formatTimestamp\<close> (lines 213--222).\<close>

definition format_timestamp :: "nat \<Rightarrow> string" where
  "format_timestamp seconds =
     (let hours = seconds div 3600; minutes = (seconds mod 3600) div 60; remaining = seconds mod 60
      in if hours > 0 then pad2 (show_nat hours) @ '':'' @ pad2 (show_nat minutes) @ '':'' @ pad2 (show_nat remaining)
         else pad2 (show_nat minutes) @ '':'' @ pad2 (show_nat remaining))"

text \<open>The request type chosen from the question (line 106).\<close>

definition request_type :: "string \<Rightarrow> string" where
  "request_type msg = (if js_includes (js_lower msg) ''summarize'' then ''summary'' else ''qa'')"

section \<open>Handlers\<close>

text \<open>The synchronous part of \<open>handleSubmit\<close> (lines 91--98): the guard, the user's
  message, and the request sent with the question and the transcript.\<close>

definition submit :: "chatbot_state \<Rightarrow> chatbot_state" where
  "submit st =
     (if trim (cb_input st) = [] \<or> \<not> str_truthy (cb_transcript st) then st
      else let q = trim (cb_input st)
           in st\<lparr>cb_input := [], cb_messages := cb_messages st @ [\<lparr>m_role = User, m_content = q, m_type = None, m_bullets = None\<rparr>],
                 cb_loading := True, cb_pending := cb_pending st @ [(q, the (cb_transcript st))]\<rparr>)"

text \<open>The answer of \<open>fetch('/api/chat')\<close>: the route's JSON, or a rejected promise with
  its message.\<close>

datatype chat_fetch = FetchRoute "chat_error + chat_reply" | FetchFailure string

text \<open>The continuation (lines 111--135).  \<open>transcript\<close> in the \<open>catch\<close> clause is the
  value the submitting closure saw.\<close>

definition finish_chat :: "string \<Rightarrow> chat_fetch \<Rightarrow> chatbot_state \<Rightarrow> chatbot_state" where
  "finish_chat tr r st =
     (let err = (\<lambda>m. \<lparr>m_role = Assistant,
                       m_content = (if tr \<noteq> [] then m else ''Please wait for the transcript to be ready before asking questions.''),
                       m_type = None, m_bullets = None\<rparr>);
          msg = (case r of
                   FetchRoute (Inr rep) \<Rightarrow>
                     \<lparr>m_role = Assistant, m_content = reply_message rep, m_type = Some (reply_type rep),
                      m_bullets = Some (reply_bullets rep)\<rparr>
                 | FetchRoute (Inl (ChatError code e)) \<Rightarrow>
                     err (case js_or (Some e) (Some ''Failed to get response'') of Some x \<Rightarrow> x | None \<Rightarrow> [])
                 | FetchFailure m \<Rightarrow> err m)
      in st\<lparr>cb_messages := cb_messages st @ [msg], cb_loading := False\<rparr>)"

definition complete_chat :: "nat \<Rightarrow> chat_fetch \<Rightarrow> chatbot_state \<Rightarrow> chatbot_state" where
  "complete_chat i r st =
     (if i < length (cb_pending st)
      then finish_chat (snd (cb_pending st ! i)) r
             (st\<lparr>cb_pending := take i (cb_pending st) @ drop (Suc i) (cb_pending st)\<rparr>)
      else st)"

text \<open>\<open>handleClearChat\<close> (lines 86--89).\<close>

definition clear_chat :: "chatbot_state \<Rightarrow> chatbot_state" where
  "clear_chat st = st\<lparr>cb_messages := [], cb_selected := None\<rparr>"

text \<open>The arrow keys (lines 50--57), with the \<open>messages\<close> the listener closed over.\<close>

definition key_select :: "bool \<Rightarrow> chatbot_state \<Rightarrow> chatbot_state" where
  "key_select up st =
     (if \<not> cb_open st then st
      else let bps = concat (map (\<lambda>m. case m_bullets m of Some b \<Rightarrow> b | None \<Rightarrow> []) (cb_key_messages st))
           in st\<lparr>cb_selected :=
                   Some (case cb_selected st of
                           None \<Rightarrow> 0
                         | Some prev \<Rightarrow>
                             nat (max 0 (min (int prev + (if up then -1 else 1)) (int (length bps) - 1))))\<rparr>)"

text \<open>The play button of the \<open>j\<close>-th bullet point of a message (lines 153--157): select
  it and post \<open>PLAY_AUDIO\<close> with its timestamp.\<close>

definition bullet_click :: "bullet_point \<Rightarrow> nat \<Rightarrow> chatbot_state \<Rightarrow> chatbot_state \<times> chat_out list" where
  "bullet_click b j st = (st\<lparr>cb_selected := Some j\<rparr>, [PostPlayAudio (bp_timestamp b)])"

text \<open>The \<open>TRANSCRIPT_READY\<close> listener (lines 66--75).\<close>

definition on_transcript_ready :: "string \<Rightarrow> chatbot_state \<Rightarrow> chatbot_state" where
  "on_transcript_ready t st = st\<lparr>cb_transcript := Some t\<rparr>"

text \<open>The toggle and close buttons; the keyboard effect re-registers with the current
  messages whenever \<open>isOpen\<close> changes.\<close>

definition set_open :: "bool \<Rightarrow> chatbot_state \<Rightarrow> chatbot_state" where
  "set_open b st =
     (if b = cb_open st then st else st\<lparr>cb_open := b, cb_key_messages := cb_messages st\<rparr>)"

section \<open>Timestamps shown and read back\<close>

lemma less_10_cases: "(k::nat) < 10 \<Longrightarrow> k \<in> {0, 1, 2, 3, 4, 5, 6, 7, 8, 9}"
  by auto

lemma digit_char_facts:
  assumes "k < 10"
  shows "is_digit (digit_char k) \<and> digit_of (digit_char k) = k \<and> (k < 6 \<longrightarrow> is_0_5 (digit_char k))"
  using less_10_cases [OF assms]
  by (auto simp: digit_char_def is_digit_def is_0_5_def digit_of_def)

lemma pad2_show_nat:
  assumes "n < 100"
  shows "pad2 (show_nat n) = [digit_char (n div 10), digit_char (n mod 10)]"
proof (cases "n < 10")
  case True
  then show ?thesis by (simp add: pad2_def digit_char_def show_nat.simps)
next
  case False
  then have "show_nat n = [digit_char (n div 10), digit_char (n mod 10)]"
    using assms by (subst show_nat.simps) (simp add: less_mult_imp_div_less show_nat.simps)
  then show ?thesis by (simp add: pad2_def)
qed

lemma format_timestamp_chars:
  assumes "s < 360000"
  defines "h \<equiv> s div 3600" and "m \<equiv> (s mod 3600) div 60" and "r \<equiv> s mod 60"
  shows "format_timestamp s =
           (if 0 < h then [digit_char (h div 10), digit_char (h mod 10), CHR '':''] else []) @
           [digit_char (m div 10), digit_char (m mod 10), CHR '':'', digit_char (r div 10), digit_char (r mod 10)]"
proof -
  have "h < 100" "m < 60" "r < 60" using assms unfolding h_def m_def r_def by auto
  then show ?thesis
    unfolding format_timestamp_def Let_def h_def [symmetric] m_def [symmetric] r_def [symmetric]
    by (simp add: pad2_show_nat)
qed

lemma timestamp_match_hms:
  assumes "is_digit a" "is_digit b" "is_0_5 c" "is_digit d" "is_0_5 e" "is_digit f"
  shows "timestamp_match (CHR ''['' # a # b # CHR '':'' # c # d # CHR '':'' # e # f # CHR '']'' # txt) =
           Some [a, b, CHR '':'', c, d, CHR '':'', e, f]"
  using assms by (simp add: timestamp_match_def ts_body_def m_char_def m_seq_def m_opt_def)

lemma timestamp_match_ms:
  assumes "is_0_5 c" "is_digit d" "is_0_5 e" "is_digit f"
  shows "timestamp_match (CHR ''['' # c # d # CHR '':'' # e # f # CHR '']'' # txt) = Some [c, d, CHR '':'', e, f]"
  using assms by (simp add: timestamp_match_def ts_body_def m_char_def m_seq_def m_opt_def)

lemma parse_timestamp_hms:
  assumes "is_digit a" "is_digit b" "is_digit c" "is_digit d" "is_digit e" "is_digit f"
  shows "parse_timestamp [a, b, CHR '':'', c, d, CHR '':'', e, f] =
           Some ((10 * digit_of a + digit_of b) * 3600 + (10 * digit_of c + digit_of d) * 60 + (10 * digit_of e + digit_of f))"
  using assms by (simp add: parse_timestamp_def js_number_2)

lemma parse_timestamp_ms:
  assumes "is_digit c" "is_digit d" "is_digit e" "is_digit f"
  shows "parse_timestamp [c, d, CHR '':'', e, f] = Some ((10 * digit_of c + digit_of d) * 60 + (10 * digit_of e + digit_of f))"
  using assms by (simp add: parse_timestamp_def js_number_2)

lemma timestamp_match_format:
  assumes "s < 360000"
  shows "timestamp_match (CHR ''['' # format_timestamp s @ CHR '']'' # txt) = Some (format_timestamp s) \<and>
         parse_timestamp (format_timestamp s) = Some s"
proof -
  define h m r where "h = s div 3600" and "m = (s mod 3600) div 60" and "r = s mod 60"
  have b: "h < 100" "m < 60" "r < 60" using assms unfolding h_def m_def r_def by auto
  have d: "h div 10 < 10" "h mod 10 < 10" "m div 10 < 6" "m mod 10 < 10" "r div 10 < 6" "r mod 10 < 10"
    using b by auto
  have s: "s = h * 3600 + m * 60 + r"
  proof -
    have "s mod 3600 mod 60 = s mod 60" by (rule mod_mod_cancel) simp
    moreover have "s = s div 3600 * 3600 + s mod 3600" "s mod 3600 = s mod 3600 div 60 * 60 + s mod 3600 mod 60"
      by simp_all
    ultimately show ?thesis unfolding h_def m_def r_def by linarith
  qed
  have fmt: "format_timestamp s =
           (if 0 < h then [digit_char (h div 10), digit_char (h mod 10), CHR '':''] else []) @
           [digit_char (m div 10), digit_char (m mod 10), CHR '':'', digit_char (r div 10), digit_char (r mod 10)]"
    unfolding h_def m_def r_def by (rule format_timestamp_chars [OF assms])
  have h: "is_digit (digit_char (h div 10))" "is_digit (digit_char (h mod 10))"
    "digit_of (digit_char (h div 10)) = h div 10" "digit_of (digit_char (h mod 10)) = h mod 10"
    using digit_char_facts [OF d(1)] digit_char_facts [OF d(2)] by simp_all
  have ms: "is_0_5 (digit_char (m div 10))" "is_digit (digit_char (m div 10))" "is_digit (digit_char (m mod 10))"
    "is_0_5 (digit_char (r div 10))" "is_digit (digit_char (r div 10))" "is_digit (digit_char (r mod 10))"
    "digit_of (digit_char (m div 10)) = m div 10" "digit_of (digit_char (m mod 10)) = m mod 10"
    "digit_of (digit_char (r div 10)) = r div 10" "digit_of (digit_char (r mod 10)) = r mod 10"
    using digit_char_facts [OF d(4)] digit_char_facts [OF d(6)] digit_char_facts [of "m div 10"]
      digit_char_facts [of "r div 10"] d(3,5) by simp_all
  have v: "10 * (m div 10) + m mod 10 = m" "10 * (r div 10) + r mod 10 = r" "10 * (h div 10) + h mod 10 = h"
    by simp_all
  show ?thesis
  proof (cases "0 < h")
    case True
    then have e: "format_timestamp s = [digit_char (h div 10), digit_char (h mod 10), CHR '':'',
        digit_char (m div 10), digit_char (m mod 10), CHR '':'', digit_char (r div 10), digit_char (r mod 10)]"
      using fmt by simp
    show ?thesis
      unfolding e using timestamp_match_hms [OF h(1,2) ms(1,3,4,6)] parse_timestamp_hms [OF h(1,2) ms(2,3,5,6)]
      by (simp only: h(3,4) ms(7-10) v s append_Cons append_Nil)
  next
    case False
    then have e: "format_timestamp s = [digit_char (m div 10), digit_char (m mod 10), CHR '':'',
        digit_char (r div 10), digit_char (r mod 10)]" and h0: "h = 0"
      using fmt by simp_all
    show ?thesis
      unfolding e using timestamp_match_ms [OF ms(1,3,4,6)] parse_timestamp_ms [OF ms(2,3,5,6)]
      by (simp only: ms(7-10) v s h0 append_Cons append_Nil) simp
  qed
qed

text \<open>C31. Round trip between the chat panel and the chat route: the label
  \<open>formatTimestamp\<close> shows for a bullet point's time, written back at the start of a
  line as \<open>[label] text\<close>, is matched by the route's pattern and parsed to the same
  time, for every time below 100 hours.\<close>

theorem format_timestamp_roundtrip:
  assumes "s < 360000" and "trim txt \<noteq> []" and "newline \<notin> set txt"
  shows "bullet_points (CHR ''['' # format_timestamp s @ CHR '']'' # txt) =
           [\<lparr>bp_text = trim txt, bp_timestamp = s\<rparr>]"
proof -
  let ?l = "CHR ''['' # format_timestamp s @ CHR '']'' # txt"
  have m: "timestamp_match ?l = Some (format_timestamp s)" and p: "parse_timestamp (format_timestamp s) = Some s"
    using timestamp_match_format [OF assms(1)] by simp_all
  have "\<forall>c\<in>set (format_timestamp s). is_digit c \<or> c = CHR '':''"
    using timestamp_match_Some [OF m] by blast
  moreover have "\<not> is_digit newline" "newline \<noteq> CHR '':''" by (simp_all add: newline_def is_digit_def)
  ultimately have "newline \<notin> set (format_timestamp s)" by blast
  then have "newline \<notin> set ?l" using assms(3) by (simp add: newline_def)
  then have l: "split_on newline ?l = [?l]" by (rule split_on_free)
  have "drop (Suc (Suc (length (format_timestamp s)))) ?l = txt" by simp
  then have "line_bullet ?l = [\<lparr>bp_text = trim txt, bp_timestamp = s\<rparr>]"
    using m p assms(2) by (simp add: line_bullet_def)
  then show ?thesis unfolding bullet_points_by_line l by simp
qed

theorem format_timestamp_roundtrip_witness:
  "bullet_points (CHR ''['' # format_timestamp 3930 @ CHR '']'' # '' Wrap-up'') =
     [\<lparr>bp_text = trim '' Wrap-up'', bp_timestamp = 3930\<rparr>]"
  by (rule format_timestamp_roundtrip) (simp_all add: trim_def is_ws_def newline_def)

end
