(* ===== verification/FeedList.thy ===== *)
theory FeedList
  imports Feeds ChatBot "HOL-Library.Sublist"
begin

text \<open>
  The episode list \<open>components/FeedList.tsx\<close> as a component with its own state, and the
  feed-side rendering of \<open>page.tsx\<close> and \<open>Sidebar.tsx\<close>.  FeedList's effect on
  \<open>[selectedFeed, allFeeds]\<close> starts \<open>fetchAllFeeds\<close>, which sets \<open>loading\<close> and
  clears \<open>error\<close> before its first \<open>await\<close>; the request in flight is kept with the
  selection and feed list its closure saw, and the event that completes the \<open>i\<close>-th
  one sets \<open>items\<close> and clears \<open>loading\<close>.  Nothing cancels an older request.  The
  render is a function of the props and the state to a value \<open>fl_view\<close>; the
  descriptions are cleaned by \<open>replace(/<[^>]*>/g, '')\<close>, modelled with the
  prelude's matchers and \<open>js_replace_all\<close>.  Dates (\<open>toLocaleDateString\<close>) and the
  link's \<open>new URL(...).hostname\<close> are not modelled.
\<close>

section \<open>Removing tags from a description\<close>

text \<open>The pattern \<open>/<[^>]*>/\<close> and the replacement of line 190.\<close>

definition tag_pattern :: matcher where
  "tag_pattern = m_seq (m_char (\<lambda>c. c = CHR ''<'')) (m_seq (m_star (\<lambda>c. c \<noteq> CHR ''>'')) (m_char (\<lambda>c. c = CHR ''>'')))"

definition strip_tags :: "string \<Rightarrow> string" where
  "strip_tags s = js_replace_all tag_pattern [] s"

fun tag_free :: "string \<Rightarrow> bool" where
  "tag_free [] = True"
| "tag_free (c # u) = ((c = CHR ''<'' \<longrightarrow> CHR ''>'' \<notin> set u) \<and> tag_free u)"


section \<open>The component's state\<close>

text \<open>The state variables of lines 33--35 and the requests in flight.\<close>

record fl_state =
  fl_items :: "feed_item list"
  fl_loading :: bool
  fl_error :: string
  fl_pending :: "(selection \<times> feed list) list"

definition fl_init :: fl_state where
  "fl_init = \<lparr>fl_items = [], fl_loading = False, fl_error = [], fl_pending = []\<rparr>"

text \<open>The effect of lines 37--93 up to the first \<open>await\<close>: no selection empties the
  list; otherwise \<open>setLoading(true)\<close>, \<open>setError('')\<close> and the request is sent.\<close>

definition fl_effect :: "selection \<Rightarrow> feed list \<Rightarrow> fl_state \<Rightarrow> fl_state" where
  "fl_effect sel fs st =
     (case sel of
        SelNone \<Rightarrow> st\<lparr>fl_items := []\<rparr>
      | _ \<Rightarrow> st\<lparr>fl_loading := True, fl_error := [], fl_pending := fl_pending st @ [(sel, fs)]\<rparr>)"

text \<open>The rest of \<open>fetchAllFeeds\<close> for the \<open>i\<close>-th request in flight: \<open>setItems\<close>
  with the items of the selection it was sent for, and the \<open>finally\<close> clause.  The
  \<open>catch\<close> clause (lines 84--86) is unreachable: \<open>fetchFeed\<close> catches every error.\<close>

definition fl_complete ::
  "(string \<Rightarrow> rss_feed option) \<Rightarrow> (string option \<Rightarrow> int) \<Rightarrow> nat \<Rightarrow> fl_state \<Rightarrow> fl_state" where
  "fl_complete load dv i st =
     (if i < length (fl_pending st)
      then let (sel, fs) = fl_pending st ! i
           in st\<lparr>fl_items := feed_list_items load dv sel fs, fl_loading := False,
                 fl_pending := take i (fl_pending st) @ drop (Suc i) (fl_pending st)\<rparr>
      else st)"

text \<open>React re-runs the effect when a dependency changes.  Props are compared by value
  here where React compares by identity; the two differ only when a prop is replaced
  by an equal new value, which re-sends the same request.\<close>

definition fl_sync :: "selection \<times> feed list \<Rightarrow> selection \<times> feed list \<Rightarrow> fl_state \<Rightarrow> fl_state" where
  "fl_sync old new st = (if new \<noteq> old then fl_effect (fst new) (snd new) st else st)"

section \<open>The render\<close>

text \<open>One episode of the list (lines 155--200): its title, whether it is highlighted
  (\<open>selectedItemId === item.id\<close>, where both may be \<open>undefined\<close>), the feed's name
  (only in the \<open>All Feeds\<close> view), the description without tags, and the link.\<close>

record item_view =
  iv_title :: "string option"
  iv_selected :: bool
  iv_feed_name :: "string option"
  iv_description :: string
  iv_link :: "string option"

definition render_item :: "selection \<Rightarrow> string option \<Rightarrow> feed_item \<Rightarrow> item_view" where
  "render_item sel sid it =
     \<lparr>iv_title = fi_title it, iv_selected = (sid = fi_id it),
      iv_feed_name = (if sel = SelAll \<and> str_truthy (fi_feed_name it) then fi_feed_name it else None),
      iv_description = strip_tags (fi_description it),
      iv_link = (if str_truthy (fi_link it) then fi_link it else None)\<rparr>"

text \<open>The heading and the count line (lines 145--151).\<close>

definition fl_title :: "selection \<Rightarrow> string" where
  "fl_title sel = (case sel of SelFeed fd \<Rightarrow> f_name fd | _ \<Rightarrow> ''All Feeds'')"

definition fl_subtitle :: "selection \<Rightarrow> feed list \<Rightarrow> feed_item list \<Rightarrow> string" where
  "fl_subtitle sel fs items =
     (if sel = SelAll
      then ''Latest '' @ show_nat (length items) @ '' items from '' @ show_nat (length fs) @ '' feeds''
      else show_nat (length items) @ '' items'')"

datatype fl_view = FlPrompt | FlLoading | FlError string | FlList string string "item_view list"

text \<open>The render (lines 95--206): the prompt without a selection, the spinner while
  loading, the error, or the list.\<close>

definition fl_render :: "selection \<Rightarrow> feed list \<Rightarrow> string option \<Rightarrow> fl_state \<Rightarrow> fl_view" where
  "fl_render sel fs sid st =
     (if sel = SelNone then FlPrompt
      else if fl_loading st then FlLoading
      else if fl_error st \<noteq> [] then FlError (fl_error st)
      else FlList (fl_title sel) (fl_subtitle sel fs (fl_items st)) (map (render_item sel sid) (fl_items st)))"

section \<open>The page header and the sidebar's feed list\<close>

text \<open>The status line of the page header (page.tsx lines 130--143).\<close>

definition header_status :: "page_state \<Rightarrow> string" where
  "header_status s =
     (if is_loading s then ''Loading feeds...''
      else show_nat (length (feeds s)) @ '' '' @ (if length (feeds s) = 1 then ''feed'' else ''feeds'') @ '' active'')"

text \<open>The sidebar's count, its \<open>All Feeds\<close> entry and feed entries with their
  highlight (\<open>selectedFeedId === 'all'\<close>, \<open>selectedFeedId === feed.id\<close>), and the add
  form with its error (Sidebar.tsx lines 91--205).\<close>

record sidebar_view =
  sv_count :: string
  sv_all_selected :: bool
  sv_feeds :: "(string \<times> bool) list"
  sv_form :: bool
  sv_error :: "string option"

definition sidebar_render :: "page_state \<Rightarrow> sidebar_view" where
  "sidebar_render s =
     \<lparr>sv_count = show_nat (length (feeds s)) @ '' feeds'',
      sv_all_selected = (selected_feed_id s = Some ''all''),
      sv_feeds = map (\<lambda>fd. (f_name fd, selected_feed_id s = Some (f_id fd))) (feeds s),
      sv_form = is_adding s,
      sv_error = (if is_adding s \<and> sidebar_error s \<noteq> [] then Some (sidebar_error s) else None)\<rparr>"

section \<open>Properties\<close>

subsection \<open>Tags\<close>

lemma m_char_star_inside:
  assumes j: "j < length (takeWhile P u)"
  shows "m_char (\<lambda>c. \<not> P c) (drop j u) = []"
proof -
  have l: "j < length u" using j length_takeWhile_le [of P u] by linarith
  have "P (takeWhile P u ! j)" using j nth_mem set_takeWhileD by metis
  then have p: "P (u ! j)" using takeWhile_nth [OF j] by simp
  have "drop j u = u ! j # drop (Suc j) u" using l by (rule Cons_nth_drop_Suc [symmetric])
  then show ?thesis using p by (simp add: m_char_def)
qed

lemma m_star_then_char:
  "concat (map (m_char (\<lambda>c. \<not> P c)) (m_star P u)) =
     (if length (takeWhile P u) < length u then [drop (Suc (length (takeWhile P u))) u] else [])"
proof -
  let ?k = "length (takeWhile P u)"
  have z: "concat (map (m_char (\<lambda>c. \<not> P c)) (map (\<lambda>j. drop j u) (rev [0..<?k]))) = []"
    unfolding concat_eq_Nil_conv using m_char_star_inside [of _ P u] by auto
  have h: "m_char (\<lambda>c. \<not> P c) (drop ?k u) = (if ?k < length u then [drop (Suc ?k) u] else [])"
  proof (cases "?k < length u")
    case True
    then have "drop ?k u = u ! ?k # drop (Suc ?k) u" by (rule Cons_nth_drop_Suc [symmetric])
    then show ?thesis using True nth_length_takeWhile [of P u] by (simp only: m_char_def list.case if_True) simp
  next
    case False
    then have "drop ?k u = []" using length_takeWhile_le [of P u] by simp
    then show ?thesis using False by (simp add: m_char_def)
  qed
  have ms: "m_star P u = drop ?k u # map (\<lambda>j. drop j u) (rev [0..<?k])"
    unfolding m_star_def by simp
  show ?thesis unfolding ms list.map(2) concat.simps(2) h z by simp
qed

lemma tag_pattern_Cons:
  "tag_pattern (c # u) =
     (if c = CHR ''<'' \<and> CHR ''>'' \<in> set u then [drop (Suc (length (takeWhile (\<lambda>x. x \<noteq> CHR ''>'') u))) u] else [])"
proof -
  have e: "(\<lambda>c. c = CHR ''>'') = (\<lambda>c. \<not> c \<noteq> CHR ''>'')" by simp
  have l: "length (takeWhile (\<lambda>x. x \<noteq> CHR ''>'') u) < length u \<longleftrightarrow> CHR ''>'' \<in> set u"
    by (induction u) auto
  show ?thesis
    unfolding tag_pattern_def m_seq_def e
    using m_star_then_char [of "\<lambda>x. x \<noteq> CHR ''>''" u] l by (simp add: m_char_def)
qed

lemma tag_pattern_Nil [simp]: "tag_pattern [] = []"
  by (simp add: tag_pattern_def m_seq_def m_char_def)

lemma strip_tags_Nil [simp]: "strip_tags [] = []"
  by (simp add: strip_tags_def)

lemma strip_tags_Cons:
  "strip_tags (c # u) =
     (if c = CHR ''<'' \<and> CHR ''>'' \<in> set u
      then strip_tags (drop (Suc (length (takeWhile (\<lambda>x. x \<noteq> CHR ''>'') u))) u)
      else c # strip_tags u)"
proof (cases "c = CHR ''<'' \<and> CHR ''>'' \<in> set u")
  case True
  then show ?thesis
    unfolding strip_tags_def
    by (subst js_replace_all_match [of tag_pattern "c # u"]) (simp_all add: tag_pattern_Cons)
next
  case False
  then show ?thesis
    unfolding strip_tags_def by (auto simp: js_replace_all_no_match tag_pattern_Cons)
qed

lemma strip_tags_tag:
  "CHR ''>'' \<in> set u \<Longrightarrow>
   strip_tags (CHR ''<'' # u) = strip_tags (drop (Suc (length (takeWhile (\<lambda>x. x \<noteq> CHR ''>'') u))) u)"
  by (simp add: strip_tags_Cons)

lemma strip_tags_plain:
  "\<not> (c = CHR ''<'' \<and> CHR ''>'' \<in> set u) \<Longrightarrow> strip_tags (c # u) = c # strip_tags u"
  by (simp only: strip_tags_Cons if_False)

lemma strip_tags_subseq: "subseq (strip_tags s) s"
proof (induction s rule: length_induct)
  case (1 s)
  show ?case
  proof (cases s)
    case (Cons c u)
    let ?t = "drop (Suc (length (takeWhile (\<lambda>x. x \<noteq> CHR ''>'') u))) u"
    have a: "subseq (strip_tags ?t) ?t" using 1 Cons by simp
    have b: "subseq ?t s" unfolding Cons by (intro suffix_imp_subseq suffix_ConsI suffix_drop)
    have d: "subseq (strip_tags u) u" using 1 Cons by simp
    show ?thesis
    proof (cases "c = CHR ''<'' \<and> CHR ''>'' \<in> set u")
      case True
      then have "strip_tags s = strip_tags ?t" unfolding Cons using strip_tags_tag by blast
      then show ?thesis using a b subseq_order.trans [of "strip_tags ?t" ?t s] by simp
    next
      case False
      then have "strip_tags s = c # strip_tags u" unfolding Cons by (rule strip_tags_plain)
      then show ?thesis using d Cons by (simp only: subseq_Cons2_iff) simp
    qed
  next
    case Nil
    then show ?thesis by (simp only: strip_tags_Nil)
  qed
qed

lemma subseq_set: "subseq xs ys \<Longrightarrow> set xs \<subseteq> set ys"
  using list_emb_set [of "(=)" xs ys] by blast

lemma strip_tags_tag_free: "tag_free (strip_tags s)"
proof (induction s rule: length_induct)
  case (1 s)
  show ?case
  proof (cases s)
    case (Cons c u)
    let ?t = "drop (Suc (length (takeWhile (\<lambda>x. x \<noteq> CHR ''>'') u))) u"
    show ?thesis
    proof (cases "c = CHR ''<'' \<and> CHR ''>'' \<in> set u")
      case True
      then have "strip_tags s = strip_tags ?t" unfolding Cons using strip_tags_tag by blast
      then show ?thesis using 1 Cons by simp
    next
      case False
      then have e: "strip_tags s = c # strip_tags u" unfolding Cons by (rule strip_tags_plain)
      have "set (strip_tags u) \<subseteq> set u" using strip_tags_subseq [of u] by (rule subseq_set)
      then show ?thesis using 1 Cons False e by auto
    qed
  next
    case Nil
    then show ?thesis by (simp only: strip_tags_Nil tag_free.simps)
  qed
qed

lemma tag_free_strip_tags: "tag_free s \<Longrightarrow> strip_tags s = s"
proof (induction s)
  case (Cons c u)
  then show ?case using strip_tags_plain [of c u] by auto
qed simp

lemma strip_tags_idem: "strip_tags (strip_tags s) = strip_tags s"
  by (rule tag_free_strip_tags [OF strip_tags_tag_free])

text \<open>A literal \<open><\<close> in a description removes the text up to the next tag's
  \<open>>\<close>.\<close>

lemma strip_tags_swallows_text: "strip_tags ''1 < 2 and <b>bold</b>'' = ''1 bold''"
  by code_simp

subsection \<open>Responses for an earlier selection\<close>

text \<open>C17. What \<open>description.replace(/<[^>]*>/g, '')\<close> (FeedList.tsx line 190) does to
  any string: it only deletes characters, leaves no \<open><\<close> with a \<open>>\<close> after it, so
  a second pass changes nothing, and it reads left to right: a \<open><\<close> with a later
  \<open>>\<close> is dropped together with everything up to the first such \<open>>\<close>, any other
  character is kept.\<close>

theorem strip_tags_spec:
  "subseq (strip_tags s) s \<and> tag_free (strip_tags s) \<and> strip_tags (strip_tags s) = strip_tags s \<and>
   strip_tags (c # u) =
     (if c = CHR ''<'' \<and> CHR ''>'' \<in> set u
      then strip_tags (drop (Suc (length (takeWhile (\<lambda>x. x \<noteq> CHR ''>'') u))) u)
      else c # strip_tags u)"
  by (intro conjI strip_tags_subseq strip_tags_tag_free strip_tags_idem strip_tags_Cons)

theorem strip_tags_spec_witness:
  "subseq (strip_tags ''a<b>c>d'') ''a<b>c>d'' \<and>
   strip_tags (strip_tags ''a<b>c>d'') = strip_tags ''a<b>c>d'' \<and>
   strip_tags ''<b>c>d'' = strip_tags ''c>d''"
  using strip_tags_spec [of "''a<b>c>d''" "CHR ''<''" "''b>c>d''"] by simp

text \<open>C6. FeedList does not discard the answer to a request sent for an earlier
  selection: when the user selects one feed and then another, and the first request
  completes last, the list shows the first selection's episodes under the second
  selection's heading.\<close>

theorem feed_list_stale_response:
  assumes "fl_pending st = []" and "sel1 \<noteq> SelNone" and "sel2 \<noteq> SelNone"
  shows "fl_render sel2 fs2 sid
           (fl_complete load dv 0 (fl_complete load dv 1 (fl_effect sel2 fs2 (fl_effect sel1 fs1 st)))) =
         FlList (fl_title sel2) (fl_subtitle sel2 fs2 (feed_list_items load dv sel1 fs1))
           (map (render_item sel2 sid) (feed_list_items load dv sel1 fs1))"
proof -
  have e: "fl_effect sel fs s = s\<lparr>fl_loading := True, fl_error := [], fl_pending := fl_pending s @ [(sel, fs)]\<rparr>"
    if "sel \<noteq> SelNone" for sel fs s
    using that by (cases sel) (simp_all add: fl_effect_def)
  show ?thesis
    using assms by (simp add: e fl_complete_def fl_render_def)
qed

theorem feed_list_stale_response_witness:
  "fl_render (SelFeed \<lparr>f_id = ''b'', f_name = ''B'', f_url = ''https://b''\<rparr>) [] None
     (fl_complete (\<lambda>_. None) (\<lambda>_. 0) 0 (fl_complete (\<lambda>_. None) (\<lambda>_. 0) 1
       (fl_effect (SelFeed \<lparr>f_id = ''b'', f_name = ''B'', f_url = ''https://b''\<rparr>) []
         (fl_effect SelAll [] fl_init)))) =
   FlList (fl_title (SelFeed \<lparr>f_id = ''b'', f_name = ''B'', f_url = ''https://b''\<rparr>))
     (fl_subtitle (SelFeed \<lparr>f_id = ''b'', f_name = ''B'', f_url = ''https://b''\<rparr>) [] (feed_list_items (\<lambda>_. None) (\<lambda>_. 0) SelAll []))
     (map (render_item (SelFeed \<lparr>f_id = ''b'', f_name = ''B'', f_url = ''https://b''\<rparr>) None) (feed_list_items (\<lambda>_. None) (\<lambda>_. 0) SelAll []))"
  by (rule feed_list_stale_response) (simp_all add: fl_init_def)

end
