(* ===== verification/PanelView.thy ===== *)
theory PanelView
  imports ContentPanel
begin

text \<open>
  The render of \<open>components/ContentPanel.tsx\<close> (lines 228--429) as a function of the
  props, the audio element's duration and the panel's state to a value
  \<open>panel_screen\<close>, and the helper \<open>formatContent\<close> (lines 243--262), which the render
  never calls.  \<open>new Date(date).toISOString()\<close> throws a \<open>RangeError\<close> on a date
  string JavaScript cannot parse; which strings parse is the parameter
  \<open>date_ok\<close>, and a throwing render is the screen \<open>PanelCrash\<close>.  DOMPurify is the
  parameter \<open>sanitize\<close>.  The long date text and the content's HTML are not modelled.
\<close>

section \<open>The render\<close>

text \<open>The props of lines 19--25 other than \<open>audioUrl\<close>, which the state keeps.\<close>

record panel_props =
  pp_content :: "string option"
  pp_title :: "string option"
  pp_date :: "string option"
  pp_link :: "string option"

datatype transcript_button = BtnTranscribing | BtnTranscribed | BtnGenerate

datatype transcript_section = SecSpinner | SecCards | SecNone

text \<open>What the page shows: the title, the date, the \<open>View Original\<close> link, the audio
  controls with the \<open>Playing\<close> badge, the transcript button with its label and
  \<open>disabled\<close> attribute, the progress bar's width in percent, the transcription
  error, and the transcript section.\<close>

record panel_view =
  pv_title :: "string option"
  pv_date :: "string option"
  pv_link :: "string option"
  pv_controls :: bool
  pv_playing :: bool
  pv_button :: transcript_button
  pv_button_disabled :: bool
  pv_progress :: real
  pv_error :: "string option"
  pv_section :: transcript_section

datatype panel_screen = PanelPrompt | PanelCrash | PanelPage panel_view

definition truthy_opt :: "string option \<Rightarrow> string option" where
  "truthy_opt x = (if str_truthy x then x else None)"

text \<open>The label of the transcript button (lines 328--352).\<close>

definition button_label :: "panel_state \<Rightarrow> transcript_button" where
  "button_label s =
     (if is_transcribing s then BtnTranscribing else if is_transcribed s then BtnTranscribed else BtnGenerate)"

text \<open>The transcript section (lines 393--411): the spinner while transcribing, the cards
  when there is a transcript with words, nothing otherwise.\<close>

definition section_shown :: "panel_state \<Rightarrow> transcript_section" where
  "section_shown s =
     (if is_transcribing s then SecSpinner
      else if str_truthy (transcript s) \<and> words s \<noteq> [] then SecCards else SecNone)"

text \<open>The render: the prompt without content (lines 230--240), the crash of
  \<open>toISOString\<close> on an invalid date (line 273), the page otherwise.  The progress bar is
  \<open>currentTime / (audioRef.current?.duration || 1) * 100\<close> (line 374).\<close>

definition panel_render :: "(string \<Rightarrow> bool) \<Rightarrow> panel_props \<Rightarrow> real \<Rightarrow> panel_state \<Rightarrow> panel_screen" where
  "panel_render date_ok pp dur s =
     (if \<not> str_truthy (pp_content pp) then PanelPrompt
      else if str_truthy (pp_date pp) \<and> \<not> date_ok (the (pp_date pp)) then PanelCrash
      else let controls = str_truthy (audio_url s)
           in PanelPage
                \<lparr>pv_title = truthy_opt (pp_title pp), pv_date = truthy_opt (pp_date pp),
                 pv_link = truthy_opt (pp_link pp), pv_controls = controls,
                 pv_playing = (controls \<and> is_playing s), pv_button = button_label s,
                 pv_button_disabled = is_transcribing s,
                 pv_progress = current_time s / (if dur \<noteq> 0 then dur else 1) * 100,
                 pv_error = (if controls then truthy_opt (transcript_error s) else None),
                 pv_section = section_shown s\<rparr>)"

section \<open>\<open>formatContent\<close>\<close>

text \<open>The replacements of lines 252--259: five entities, \<open>/<br\s*\/?>/gi\<close> and
  \<open>/\n{3,}/g\<close>, then \<open>trim\<close>.\<close>

definition m_ci_char :: "char \<Rightarrow> char \<Rightarrow> matcher" where
  "m_ci_char lo up = m_char (\<lambda>c. c = lo \<or> c = up)"

definition br_pattern :: matcher where
  "br_pattern =
     m_seq (m_char (\<lambda>c. c = CHR ''<''))
       (m_seq (m_ci_char CHR ''b'' CHR ''B'')
          (m_seq (m_ci_char CHR ''r'' CHR ''R'')
             (m_seq (m_star is_ws) (m_seq (m_opt (m_char (\<lambda>c. c = CHR ''/''))) (m_char (\<lambda>c. c = CHR ''>''))))))"

definition nl3_pattern :: matcher where
  "nl3_pattern = m_seq (m_lit [CHR 0x0A, CHR 0x0A, CHR 0x0A]) (m_star (\<lambda>c. c = CHR 0x0A))"

definition format_content :: "(string \<Rightarrow> string) \<Rightarrow> string \<Rightarrow> string" where
  "format_content sanitize html =
     (let clean = sanitize html;
          d1 = js_replace_all (m_lit ''&amp;'') ''&'' clean;
          d2 = js_replace_all (m_lit ''&lt;'') ''<'' d1;
          d3 = js_replace_all (m_lit ''&gt;'') ''>'' d2;
          d4 = js_replace_all (m_lit ''&quot;'') ''\"'' d3;
          d5 = js_replace_all (m_lit ''&#39;'') [CHR 0x27] d4;
          d6 = js_replace_all br_pattern [CHR 0x0A, CHR 0x0A] d5;
          d7 = js_replace_all nl3_pattern [CHR 0x0A, CHR 0x0A] d6
      in trim d7)"

section \<open>Properties\<close>

text \<open>The render shows TranscriptCards exactly when the session's \<open>shows_cards\<close>
  holds, and the transcript button is disabled exactly while it reads
  \<open>Transcribing\<close>.\<close>

lemma panel_render_cards:
  "panel_render date_ok pp dur s = PanelPage v \<Longrightarrow>
   (pv_section v = SecCards \<longleftrightarrow> shows_cards s) \<and>
   (pv_button_disabled v \<longleftrightarrow> pv_button v = BtnTranscribing)"
  by (auto simp: panel_render_def Let_def section_shown_def shows_cards_def button_label_def
      split: if_splits)

text \<open>\<open>formatContent\<close> decodes \<open>&amp;\<close> first, so an escaped entity is decoded twice,
  and markup the sanitizer left escaped comes back as markup.\<close>

lemma format_content_double_decode:
  "format_content id ''&amp;lt;script&amp;gt;'' = ''<script>''"
  by code_simp

lemma format_content_br:
  "format_content id ''a<br/><BR >b'' = ''a'' @ [CHR 0x0A, CHR 0x0A] @ ''b''"
  by code_simp

end
