(* ===== verification/App.thy ===== *)
theory App
  imports Session FeedList PanelView
begin

text \<open>
  The application as the browser runs it: the home page (\<open>page.tsx\<close>, theory
  \<open>Feeds\<close>) passes \<open>selectedItem?.enclosure?.url\<close> to ContentPanel as \<open>audioUrl\<close>
  (line 193), whose effect on \<open>[audioUrl]\<close> runs when that value changes; the chat
  panel AIChatBot is mounted once by the root layout (\<open>layout.tsx\<close> line 24) beside
  the page.  The panel and the chat talk through \<open>window.postMessage\<close>: a message is
  queued and dispatched later, in order, to every \<open>message\<close> listener, the panel's
  (which reacts to \<open>PLAY_AUDIO\<close> only, ContentPanel.tsx lines 196--203) and the chat's
  (which reacts to \<open>TRANSCRIPT_READY\<close> only, AIChatBot.tsx lines 66--75).
\<close>

section \<open>The chat panel's events\<close>

text \<open>The controls of AIChatBot's render (lines 224--345): the toggle and close buttons,
  the input (disabled without a transcript), the form (its only submit button is
  disabled while loading, and a form whose default button is disabled is not submitted
  by Enter either), the completion of the \<open>i\<close>-th request in flight, the clear button,
  the arrow keys, and the play and timestamp buttons of the \<open>j\<close>-th bullet point of the
  \<open>i\<close>-th message.  The panel's controls exist while it is open.\<close>

datatype bot_event =
    BotToggle
  | BotClose
  | BotType string
  | BotSubmit
  | BotDone nat
  | BotClear
  | BotKey bool
  | BotPlay nat nat
  | BotStamp nat nat

text \<open>The bullet points rendered for the \<open>i\<close>-th message: those of an assistant's
  message (line 205, \<open>renderBulletPoints\<close> lines 138--140).\<close>

definition shown_bullets :: "chatbot_state \<Rightarrow> nat \<Rightarrow> bullet_point list" where
  "shown_bullets st i =
     (if i < length (cb_messages st) \<and> m_role (cb_messages st ! i) = Assistant
      then case m_bullets (cb_messages st ! i) of Some bs \<Rightarrow> bs | None \<Rightarrow> []
      else [])"

text \<open>The chat route's answer for a question and a transcript is the parameter
  \<open>chat\<close>.\<close>

fun bot_step ::
  "(string \<times> string \<Rightarrow> chat_fetch) \<Rightarrow> chatbot_state \<Rightarrow> bot_event \<Rightarrow> chatbot_state \<times> chat_out list" where
  "bot_step chat st BotToggle = (set_open (\<not> cb_open st) st, [])"
| "bot_step chat st BotClose = (if cb_open st then set_open False st else st, [])"
| "bot_step chat st (BotType s) =
     (if cb_open st \<and> str_truthy (cb_transcript st) then st\<lparr>cb_input := s\<rparr> else st, [])"
| "bot_step chat st BotSubmit = (if cb_open st \<and> \<not> cb_loading st then submit st else st, [])"
| "bot_step chat st (BotDone i) =
     (if i < length (cb_pending st) then complete_chat i (chat (cb_pending st ! i)) st else st, [])"
| "bot_step chat st BotClear = (if cb_open st then clear_chat st else st, [])"
| "bot_step chat st (BotKey up) = (key_select up st, [])"
| "bot_step chat st (BotPlay i j) =
     (if cb_open st \<and> j < length (shown_bullets st i) then bullet_click (shown_bullets st i ! j) j st
      else (st, []))"
| "bot_step chat st (BotStamp i j) =
     (if cb_open st \<and> j < length (shown_bullets st i)
      then (st, [PostPlayAudio (bp_timestamp (shown_bullets st i ! j))]) else (st, []))"

definition bot_init :: chatbot_state where
  "bot_init =
     \<lparr>cb_open = False, cb_messages = [], cb_input = [], cb_loading = False, cb_selected = None,
      cb_transcript = None, cb_key_messages = [], cb_pending = []\<rparr>"

section \<open>Window messages\<close>

datatype win_msg = MsgTranscriptReady string | MsgPlayAudio nat

definition panel_msg :: "panel_out \<Rightarrow> win_msg" where
  "panel_msg o1 = (case o1 of PostTranscriptReady t \<Rightarrow> MsgTranscriptReady t)"

definition bot_msg :: "chat_out \<Rightarrow> win_msg" where
  "bot_msg o1 = (case o1 of PostPlayAudio n \<Rightarrow> MsgPlayAudio n)"

section \<open>The application\<close>

record app =
  app_page :: page_state
  app_list :: fl_state
  app_sess :: session
  app_bot :: chatbot_state
  app_queue :: "win_msg list"

text \<open>The events: the page's, the completion of the \<open>i\<close>-th request in flight of
  FeedList, the panel's and its cards' own (the \<open>audioUrl\<close> prop and the
  \<open>PLAY_AUDIO\<close> message come from the page and the window, not from the user), the
  chat's, and the dispatch of the oldest queued message.\<close>

datatype app_event = PageE page_event | ListDone nat | SessE session_event | BotE bot_event | Deliver

text \<open>The props FeedList receives from the page (page.tsx lines 170--175).\<close>

definition list_props :: "page_state \<Rightarrow> selection \<times> feed list" where
  "list_props p = (selected_feed p, feeds p)"

definition item_audio_url :: "page_state \<Rightarrow> string option" where
  "item_audio_url p = (case selected_item p of None \<Rightarrow> None | Some it \<Rightarrow> map_option enc_url (fi_enclosure it))"

definition user_panel_event :: "session_event \<Rightarrow> bool" where
  "user_panel_event e =
     (case e of PanelEv (SelectAudio _) \<Rightarrow> False | PanelEv (PlayAudioMessage _) \<Rightarrow> False | _ \<Rightarrow> True)"

text \<open>The session step with its posted messages queued.\<close>

definition sess_step :: "(string \<Rightarrow> transcribe_response) \<Rightarrow> session_event \<Rightarrow> app \<Rightarrow> app" where
  "sess_step tr e a =
     (let (ss, out) = session_step tr (app_sess a) e
      in a\<lparr>app_sess := ss, app_queue := app_queue a @ map panel_msg out\<rparr>)"

text \<open>One message dispatched to both listeners.\<close>

definition deliver :: "(string \<Rightarrow> transcribe_response) \<Rightarrow> app \<Rightarrow> app" where
  "deliver tr a =
     (case app_queue a of
        [] \<Rightarrow> a
      | m # q \<Rightarrow>
          let a1 = a\<lparr>app_queue := q\<rparr>
          in case m of
               MsgTranscriptReady t \<Rightarrow> a1\<lparr>app_bot := on_transcript_ready t (app_bot a1)\<rparr>
             | MsgPlayAudio n \<Rightarrow> sess_step tr (PanelEv (PlayAudioMessage (real n))) a1)"

fun app_step ::
  "(string \<Rightarrow> rss_feed option) \<Rightarrow> (string option \<Rightarrow> int) \<Rightarrow> (string \<Rightarrow> transcribe_response) \<Rightarrow> (string \<times> string \<Rightarrow> chat_fetch) \<Rightarrow>
   app \<Rightarrow> app_event \<Rightarrow> app" where
  "app_step load dv tr chat a (PageE e) =
     (let p = page_step load (app_page a) e;
          a1 = a\<lparr>app_page := p, app_list := fl_sync (list_props (app_page a)) (list_props p) (app_list a)\<rparr>
      in if item_audio_url p \<noteq> item_audio_url (app_page a)
         then sess_step tr (PanelEv (SelectAudio (item_audio_url p))) a1 else a1)"
| "app_step load dv tr chat a (ListDone i) = a\<lparr>app_list := fl_complete load dv i (app_list a)\<rparr>"
| "app_step load dv tr chat a (SessE e) = (if user_panel_event e then sess_step tr e a else a)"
| "app_step load dv tr chat a (BotE e) =
     (let (b, out) = bot_step chat (app_bot a) e
      in a\<lparr>app_bot := b, app_queue := app_queue a @ map bot_msg out\<rparr>)"
| "app_step load dv tr chat a Deliver = deliver tr a"

definition app_run ::
  "(string \<Rightarrow> rss_feed option) \<Rightarrow> (string option \<Rightarrow> int) \<Rightarrow> (string \<Rightarrow> transcribe_response) \<Rightarrow> (string \<times> string \<Rightarrow> chat_fetch) \<Rightarrow>
   app \<Rightarrow> app_event list \<Rightarrow> app" where
  "app_run load dv tr chat a evs = foldl (app_step load dv tr chat) a evs"

text \<open>The mount: FeedList's effect runs first, with no selection (React runs a child's
  effects before its parent's), then the page's \<open>loadFeeds\<close>, and FeedList's effect
  again when that changed its props.\<close>

definition app_init :: "(string \<Rightarrow> rss_feed option) \<Rightarrow> stored \<Rightarrow> app" where
  "app_init load st0 =
     \<lparr>app_page = page_start load st0,
      app_list = fl_sync (SelNone, []) (list_props (page_start load st0)) (fl_effect SelNone [] fl_init), app_sess = session_init, app_bot = bot_init, app_queue = []\<rparr>"

inductive app_reach ::
  "(string \<Rightarrow> rss_feed option) \<Rightarrow> (string option \<Rightarrow> int) \<Rightarrow> (string \<Rightarrow> transcribe_response) \<Rightarrow> (string \<times> string \<Rightarrow> chat_fetch) \<Rightarrow>
   stored \<Rightarrow> app \<Rightarrow> bool" for load dv tr chat st0 where
  init: "app_reach load dv tr chat st0 (app_init load st0)"
| step: "app_reach load dv tr chat st0 a \<Longrightarrow> app_reach load dv tr chat st0 (app_step load dv tr chat a e)"

text \<open>The transcript the chat will hold once the queue is dispatched: that of the last
  queued \<open>TRANSCRIPT_READY\<close>, or its own.\<close>

fun last_ready :: "string option \<Rightarrow> win_msg list \<Rightarrow> string option" where
  "last_ready b [] = b"
| "last_ready b (MsgTranscriptReady t # q) = last_ready (Some t) q"
| "last_ready b (MsgPlayAudio n # q) = last_ready b q"

text \<open>The model's consistency of the chat with the panel: while the panel holds a
  transcript, the chat will hold the same one once the queue is dispatched.\<close>

definition app_inv :: "app \<Rightarrow> bool" where
  "app_inv a \<longleftrightarrow>
     (transcript (panel (app_sess a)) \<noteq> None \<longrightarrow>
      last_ready (cb_transcript (app_bot a)) (app_queue a) = transcript (panel (app_sess a)))"



text \<open>The chat panel's state is well formed when at most one request is in flight and
  \<open>isLoading\<close> is set exactly while one is.\<close>

definition bot_wf :: "chatbot_state \<Rightarrow> bool" where
  "bot_wf st \<longleftrightarrow> length (cb_pending st) \<le> 1 \<and> cb_loading st = (cb_pending st \<noteq> [])"

section \<open>Properties\<close>

subsection \<open>What each step does to the transcripts\<close>

lemma panel_reconcile [simp]: "panel (reconcile ss) = panel ss"
  by (simp add: reconcile_def Let_def split: option.splits prod.splits)

lemma transcript_apply_calls [simp]: "transcript (foldl apply_call p calls) = transcript p"
  by (induction calls arbitrary: p) (simp_all add: apply_call_def handle_time_update_def split: cards_call.splits option.splits)

lemma finish_transcript_transcript:
  "finish_transcript r s = (s', out) \<Longrightarrow>
   (out = [] \<and> transcript s' = transcript s) \<or> (\<exists>t. out = [PostTranscriptReady t] \<and> transcript s' = Some t)"
  by (auto simp: finish_transcript_def Let_def split: transcribe_response.splits option.splits if_splits)

lemma panel_step_transcript:
  assumes h: "panel_step tr s e = (s', out)"
  shows "(out = [] \<and> (transcript s' = transcript s \<or> transcript s' = None)) \<or>
   (\<exists>t. out = [PostTranscriptReady t] \<and> transcript s' = Some t)"
proof (cases e)
  case (TranscribeDone i)
  then show ?thesis
  proof (cases "i < length (pending s)")
    case True
    then show ?thesis
      using h TranscribeDone finish_transcript_transcript
        [of "tr (pending s ! i)" "s\<lparr>pending := take i (pending s) @ drop (Suc i) (pending s)\<rparr>" s' out]
      by (simp add: complete_transcript_def) blast
  qed (use h TranscribeDone in \<open>simp add: complete_transcript_def\<close>)
qed (use h in \<open>auto simp: select_audio_def start_transcript_def on_media_time_update_def on_media_play_def
   on_media_pause_def on_media_ended_def media_advance_def on_play_audio_message_def
   handle_audio_request_def handle_time_update_def Let_def split: option.splits if_splits\<close>)

lemma session_step_transcript:
  assumes h: "session_step tr ss e = (ss', out)"
  shows "(out = [] \<and> (transcript (panel ss') = transcript (panel ss) \<or> transcript (panel ss') = None)) \<or>
         (\<exists>t. out = [PostTranscriptReady t] \<and> transcript (panel ss') = Some t)"
proof (cases e)
  case (PanelEv pe)
  obtain p' o1 where p: "panel_step tr (panel ss) pe = (p', o1)" by fastforce
  show ?thesis
    using h PanelEv p panel_step_transcript [OF p] by (auto split: if_splits)
next
  case (CardsEv ce)
  then show ?thesis
    using h by (auto simp: Let_def split: if_splits option.splits prod.splits cards_event.splits)
qed

lemma last_ready_append: "last_ready b (q @ r) = last_ready (last_ready b q) r"
  by (induction b q rule: last_ready.induct) simp_all

lemma last_ready_bot_msgs [simp]: "last_ready b (map bot_msg out) = b"
  by (induction out arbitrary: b) (simp_all add: bot_msg_def split: chat_out.splits)

lemma last_ready_ready [simp]: "last_ready b [panel_msg (PostTranscriptReady t)] = Some t"
  by (simp add: panel_msg_def)

lemma app_inv_page_list [simp]:
  "app_inv (a\<lparr>app_page := p, app_list := l\<rparr>) = app_inv a" "app_inv (a\<lparr>app_list := l\<rparr>) = app_inv a"
  "app_inv (a\<lparr>app_page := p\<rparr>) = app_inv a"
  by (simp_all add: app_inv_def)

lemma sess_step_inv: "app_inv a \<Longrightarrow> app_inv (sess_step tr e a)"
proof -
  assume inv: "app_inv a"
  obtain ss' out where h: "session_step tr (app_sess a) e = (ss', out)" by fastforce
  show ?thesis
    using session_step_transcript [OF h] inv h
    by (auto simp: app_inv_def sess_step_def last_ready_append)
qed

lemma bot_step_transcript [simp]: "cb_transcript (fst (bot_step chat st e)) = cb_transcript st"
  by (cases e)
     (simp_all add: set_open_def submit_def complete_chat_def finish_chat_def clear_chat_def key_select_def
        bullet_click_def Let_def)

lemma play_audio_session:
  assumes h: "session_step tr ss (PanelEv (PlayAudioMessage x)) = (ss', out)"
  shows "out = [] \<and> transcript (panel ss') = transcript (panel ss)"
  using h by (auto simp: on_play_audio_message_def handle_audio_request_def split: if_splits option.splits)

lemma deliver_cons:
  assumes c: "app_queue a = m # q"
  shows "app_queue (deliver tr a) = q \<and> transcript (panel (app_sess (deliver tr a))) = transcript (panel (app_sess a))"
proof (cases m)
  case (MsgTranscriptReady t)
  then show ?thesis using c by (simp add: deliver_def on_transcript_ready_def)
next
  case (MsgPlayAudio n)
  obtain ss' out where h: "session_step tr (app_sess a) (PanelEv (PlayAudioMessage (real n))) = (ss', out)"
    by fastforce
  show ?thesis using c MsgPlayAudio h play_audio_session [OF h] by (simp add: deliver_def sess_step_def del: session_step.simps)
qed

lemma deliver_inv: "app_inv a \<Longrightarrow> app_inv (deliver tr a)"
proof (cases "app_queue a")
  case (Cons m q)
  assume inv: "app_inv a"
  show ?thesis
  proof (cases m)
    case (MsgTranscriptReady t)
    then show ?thesis using inv Cons by (simp add: app_inv_def deliver_def on_transcript_ready_def)
  next
    case (MsgPlayAudio n)
    have "app_inv (a\<lparr>app_queue := q\<rparr>)" using inv Cons MsgPlayAudio by (simp add: app_inv_def)
    then show ?thesis using Cons MsgPlayAudio sess_step_inv by (simp add: deliver_def)
  qed
qed (simp add: deliver_def)

lemma app_step_inv: "app_inv a \<Longrightarrow> app_inv (app_step load dv tr chat a e)"
proof (cases e)
  case (PageE pe)
  assume inv: "app_inv a"
  then show ?thesis using PageE by (auto simp: Let_def intro!: sess_step_inv)
next
  case (BotE be)
  assume inv: "app_inv a"
  obtain b out where h: "bot_step chat (app_bot a) be = (b, out)" by fastforce
  have "cb_transcript b = cb_transcript (app_bot a)" using bot_step_transcript [of chat "app_bot a" be] h by simp
  then show ?thesis using inv BotE h by (simp add: app_inv_def last_ready_append)
qed (simp_all add: sess_step_inv deliver_inv)

lemma app_reach_inv: "app_reach load dv tr chat st0 a \<Longrightarrow> app_inv a"
proof (induction rule: app_reach.induct)
  case init
  then show ?case by (simp add: app_inv_def app_init_def session_init_def panel_init_def)
next
  case (step a e)
  from step.IH show ?case by (rule app_step_inv)
qed

lemma drain_queue:
  "app_inv a \<Longrightarrow> n = length (app_queue a) \<Longrightarrow>
   app_queue (foldl (app_step load dv tr chat) a (replicate n Deliver)) = [] \<and>
   transcript (panel (app_sess (foldl (app_step load dv tr chat) a (replicate n Deliver)))) = transcript (panel (app_sess a)) \<and>
   app_inv (foldl (app_step load dv tr chat) a (replicate n Deliver))"
proof (induction n arbitrary: a)
  case (Suc n)
  then obtain m q where c: "app_queue a = m # q" by (cases "app_queue a") auto
  have "app_inv (deliver tr a)" "n = length (app_queue (deliver tr a))"
    using Suc.prems deliver_inv deliver_cons [OF c] c by auto
  then show ?case using Suc.IH [of "deliver tr a"] deliver_cons [OF c] by simp
qed simp

lemma app_reach_run:
  "app_reach load dv tr chat st0 a \<Longrightarrow> app_reach load dv tr chat st0 (app_run load dv tr chat a evs)"
  by (induction evs arbitrary: a) (simp_all add: app_run_def app_reach.step)

subsection \<open>An episode switch leaves the chat on the old transcript\<close>

text \<open>The chat is told of a new transcript and never of its removal: after the user
  picks an episode with another audio URL the panel has no transcript, while a question
  is still sent with the old one.\<close>

lemma chat_keeps_old_transcript:
  assumes "\<not> crashed (app_sess a)" and "cb_transcript (app_bot a) = Some t" and "t \<noteq> []"
    and "map_option enc_url (fi_enclosure it) \<noteq> item_audio_url (app_page a)"
    and "cb_open (app_bot a)" and "\<not> cb_loading (app_bot a)" and "trim (cb_input (app_bot a)) \<noteq> []"
  shows "transcript (panel (app_sess (app_run load dv tr chat a [PageE (SelectItem it), BotE BotSubmit]))) = None \<and>
         last (cb_pending (app_bot (app_run load dv tr chat a [PageE (SelectItem it), BotE BotSubmit]))) =
           (trim (cb_input (app_bot a)), t)"
  using assms
  by (simp add: app_run_def page_step_def persist_def item_audio_url_def sess_step_def select_audio_def
      submit_def str_truthy_def Let_def split: option.splits)

subsection \<open>The chat receives every transcript\<close>

text \<open>C40. In every reachable state of the application where the panel holds a
  transcript, dispatching the queued window messages empties the queue and leaves the
  chat holding that transcript.\<close>

theorem chat_receives_transcript:
  assumes "app_reach load dv tr chat st0 a" and "transcript (panel (app_sess a)) = Some t"
  shows "app_queue (app_run load dv tr chat a (replicate (length (app_queue a)) Deliver)) = [] \<and>
         cb_transcript (app_bot (app_run load dv tr chat a (replicate (length (app_queue a)) Deliver))) = Some t"
proof -
  have inv: "app_inv a" using assms(1) by (rule app_reach_inv)
  from drain_queue [OF inv refl, of load dv tr chat] assms(2) show ?thesis
    by (auto simp: app_run_def app_inv_def)
qed

theorem chat_receives_transcript_witness:
  "app_queue (app_run (\<lambda>_. None) (\<lambda>_. 0) (\<lambda>_. TrOk (Some ''hi'') (Some [])) (\<lambda>_. FetchFailure ''x'')
      (app_run (\<lambda>_. None) (\<lambda>_. 0) (\<lambda>_. TrOk (Some ''hi'') (Some [])) (\<lambda>_. FetchFailure ''x'') (app_init (\<lambda>_. None) Absent)
        [PageE (SelectItem \<lparr>fi_id = None, fi_title = None, fi_description = [], fi_content = [], fi_date = None,
           fi_link = None, fi_enclosure = Some \<lparr>enc_url = ''u'', enc_type = None\<rparr>, fi_feed_name = None\<rparr>),
         SessE (PanelEv ClickTranscribe), SessE (PanelEv (TranscribeDone 0))]) [Deliver]) = [] \<and>
   cb_transcript (app_bot (app_run (\<lambda>_. None) (\<lambda>_. 0) (\<lambda>_. TrOk (Some ''hi'') (Some [])) (\<lambda>_. FetchFailure ''x'')
      (app_run (\<lambda>_. None) (\<lambda>_. 0) (\<lambda>_. TrOk (Some ''hi'') (Some [])) (\<lambda>_. FetchFailure ''x'') (app_init (\<lambda>_. None) Absent)
        [PageE (SelectItem \<lparr>fi_id = None, fi_title = None, fi_description = [], fi_content = [], fi_date = None,
           fi_link = None, fi_enclosure = Some \<lparr>enc_url = ''u'', enc_type = None\<rparr>, fi_feed_name = None\<rparr>),
         SessE (PanelEv ClickTranscribe), SessE (PanelEv (TranscribeDone 0))]) [Deliver])) = Some ''hi''"
  (is "app_queue (app_run ?l ?d ?t ?c ?a [Deliver]) = [] \<and> _")
proof -
  have r: "app_reach ?l ?d ?t ?c Absent ?a" by (rule app_reach_run) (rule app_reach.init)
  have t: "transcript (panel (app_sess ?a)) = Some ''hi''"
    by (simp add: app_run_def app_init_def page_start_def page_init_def page_step_def persist_def item_audio_url_def
        sess_step_def session_init_def panel_init_def select_audio_def start_transcript_def
        complete_transcript_def finish_transcript_def reconcile_def shows_cards_def user_panel_event_def fl_sync_def list_props_def Let_def)
  have l: "length (app_queue ?a) = 1"
    by (simp add: app_run_def app_init_def page_start_def page_init_def page_step_def persist_def item_audio_url_def
        sess_step_def session_init_def panel_init_def select_audio_def start_transcript_def
        complete_transcript_def finish_transcript_def reconcile_def shows_cards_def user_panel_event_def fl_sync_def list_props_def Let_def)
  from chat_receives_transcript [OF r t] show ?thesis unfolding l by simp
qed

subsection \<open>One chat request at a time\<close>

lemma bot_step_wf: "bot_wf st \<Longrightarrow> bot_wf (fst (bot_step chat st e))"
proof (cases e)
  case BotSubmit
  assume "bot_wf st"
  then show ?thesis using BotSubmit by (auto simp: bot_wf_def submit_def Let_def)
next
  case (BotDone i)
  assume w: "bot_wf st"
  show ?thesis
  proof (cases "i < length (cb_pending st)")
    case True
    then have "i = 0" "length (cb_pending st) = 1" using w by (auto simp: bot_wf_def)
    then show ?thesis using BotDone True
      by (simp add: bot_wf_def complete_chat_def finish_chat_def Let_def)
  qed (use BotDone w in simp)
qed (simp_all add: bot_wf_def set_open_def clear_chat_def key_select_def bullet_click_def)

lemma sess_step_bot [simp]: "app_bot (sess_step tr e a) = app_bot a"
  by (simp add: sess_step_def split: prod.splits)

lemma deliver_bot:
  "app_bot (deliver tr a) =
     (case app_queue a of MsgTranscriptReady t # _ \<Rightarrow> on_transcript_ready t (app_bot a) | _ \<Rightarrow> app_bot a)"
  by (simp add: deliver_def Let_def split: list.splits win_msg.splits)

lemma app_step_bot_wf: "bot_wf (app_bot a) \<Longrightarrow> bot_wf (app_bot (app_step load dv tr chat a e))"
proof (cases e)
  case (BotE be)
  assume w: "bot_wf (app_bot a)"
  obtain b out where h: "bot_step chat (app_bot a) be = (b, out)" by fastforce
  show ?thesis using bot_step_wf [OF w, of chat be] h BotE by simp
next
  case Deliver
  assume w: "bot_wf (app_bot a)"
  show ?thesis
    using w Deliver
    by (simp add: deliver_bot bot_wf_def on_transcript_ready_def split: list.splits win_msg.splits)
qed (simp_all add: Let_def)

text \<open>C30. Every reachable state of the chat panel is well formed: since the form cannot
  be submitted while a request is in flight, at most one is, and \<open>isLoading\<close> is set
  exactly while it is.\<close>

theorem chat_single_flight:
  assumes "app_reach load dv tr chat st0 a"
  shows "length (cb_pending (app_bot a)) \<le> 1 \<and> cb_loading (app_bot a) = (cb_pending (app_bot a) \<noteq> [])"
proof -
  from assms have "bot_wf (app_bot a)"
  proof (induction rule: app_reach.induct)
    case init
    then show ?case by (simp add: app_init_def bot_init_def bot_wf_def)
  next
    case (step a e)
    from step.IH show ?case by (rule app_step_bot_wf)
  qed
  then show ?thesis by (simp add: bot_wf_def)
qed

theorem chat_single_flight_witness:
  "length (cb_pending (app_bot (app_init (\<lambda>_. None) Absent))) \<le> 1 \<and>
   cb_loading (app_bot (app_init (\<lambda>_. None) Absent)) = (cb_pending (app_bot (app_init (\<lambda>_. None) Absent)) \<noteq> [])"
proof -
  have r: "app_reach (\<lambda>_. None) (\<lambda>_. 0) (\<lambda>_. TrFailure ''x'') (\<lambda>_. FetchFailure ''x'') Absent
             (app_init (\<lambda>_. None) Absent)"
    by (rule app_reach.init)
  from chat_single_flight [OF r] show ?thesis .
qed

subsection \<open>The panel plays the selected episode\<close>

lemma audio_url_apply_calls [simp]: "audio_url (foldl apply_call p calls) = audio_url p"
  by (induction calls arbitrary: p) (simp_all add: apply_call_def handle_time_update_def split: cards_call.splits option.splits)








subsection \<open>FeedList's spinner\<close>

lemma fl_sync_loading:
  "(fl_loading st \<longrightarrow> fl_pending st \<noteq> []) \<Longrightarrow>
   fl_loading (fl_sync old new st) \<longrightarrow> fl_pending (fl_sync old new st) \<noteq> []"
  by (auto simp: fl_sync_def fl_effect_def split: selection.splits)

text \<open>FeedList shows its spinner only while one of its requests is in flight (the
  converse fails: the first answer to arrive hides the spinner while a newer request is
  still in flight).\<close>

lemma app_reach_list_loading:
  "app_reach load dv tr chat st0 a \<Longrightarrow> fl_loading (app_list a) \<longrightarrow> fl_pending (app_list a) \<noteq> []"
proof (induction rule: app_reach.induct)
  case init
  then show ?case using fl_sync_loading [of "fl_effect SelNone [] fl_init"]
    by (simp add: app_init_def fl_init_def fl_effect_def)
next
  case (step a e)
  then show ?case
    using fl_sync_loading [of "app_list a"]
    by (cases e) (auto simp: Let_def fl_complete_def sess_step_def deliver_def split: prod.splits list.splits win_msg.splits)
qed

end
