(* ===== verification/ChatView.thy ===== *)
theory ChatView
  imports App
begin

text \<open>
  The render of \<open>components/AIChatBot.tsx\<close> (lines 138--212 and 224--345) as a value:
  closed, or the open panel with its hint line, the messages with their bullet points
  (each with its \<open>formatTimestamp\<close> label and the highlight
  \<open>selectedBulletPoint === index\<close>), the typing indicator, and the input and send
  button with their \<open>disabled\<close> attributes.  Markup and animation are not modelled.
\<close>

record bullet_view =
  bv_label :: string
  bv_text :: string
  bv_selected :: bool

record message_view =
  mv_user :: bool
  mv_content :: string
  mv_bullets :: "bullet_view list"

record chat_view =
  cv_hint :: string
  cv_messages :: "message_view list"
  cv_typing :: bool
  cv_input_disabled :: bool
  cv_placeholder :: string
  cv_send_disabled :: bool

datatype chat_screen = ChatClosed | ChatOpen chat_view

text \<open>\<open>renderBulletPoints\<close> (lines 138--205): the index of a point is its index in its
  own message.\<close>

definition render_bullets :: "nat option \<Rightarrow> bullet_point list \<Rightarrow> bullet_view list" where
  "render_bullets sel bs =
     map (\<lambda>(j, b). \<lparr>bv_label = format_timestamp (bp_timestamp b), bv_text = bp_text b, bv_selected = (sel = Some j)\<rparr>)
       (zip [0..<length bs] bs)"

text \<open>One message (lines 295--311): the content, and the bullet points of an assistant's
  message.\<close>

definition render_message :: "nat option \<Rightarrow> message \<Rightarrow> message_view" where
  "render_message sel m =
     \<lparr>mv_user = (m_role m = User), mv_content = m_content m,
      mv_bullets = (if m_role m = Assistant then case m_bullets m of Some bs \<Rightarrow> render_bullets sel bs | None \<Rightarrow> [] else [])\<rparr>"

text \<open>The panel (lines 224--345).\<close>

definition chat_render :: "chatbot_state \<Rightarrow> chat_screen" where
  "chat_render st =
     (if \<not> cb_open st then ChatClosed
      else let has_t = str_truthy (cb_transcript st)
           in ChatOpen
                \<lparr>cv_hint = (if has_t then ''Ask questions or type \"summarize\" for key points''
                             else ''Waiting for transcript... Please generate it first.''),
                 cv_messages = map (render_message (cb_selected st)) (cb_messages st),
                 cv_typing = cb_loading st, cv_input_disabled = (\<not> has_t),
                 cv_placeholder = (if has_t then ''Ask a question or type \"summarize\" for key points...''
                                   else ''Please generate transcript first...''),
                 cv_send_disabled = (cb_loading st \<or> trim (cb_input st) = [] \<or> \<not> has_t)\<rparr>)"

section \<open>Properties\<close>

text \<open>The send button is enabled exactly when submitting the form sends a question: the
  button's \<open>disabled\<close> condition and the guards of \<open>handleSubmit\<close> agree.\<close>

lemma chat_send_enabled:
  assumes "chat_render st = ChatOpen v"
  shows "\<not> cv_send_disabled v \<longleftrightarrow> fst (bot_step chat st BotSubmit) \<noteq> st"
proof -
  have o: "cb_open st" using assms by (simp add: chat_render_def split: if_splits)
  have d: "cv_send_disabled v \<longleftrightarrow> cb_loading st \<or> trim (cb_input st) = [] \<or> \<not> str_truthy (cb_transcript st)"
    using assms by (auto simp: chat_render_def Let_def split: if_splits)
  have "submit st \<noteq> st \<longleftrightarrow> trim (cb_input st) \<noteq> [] \<and> str_truthy (cb_transcript st)"
  proof
    assume "submit st \<noteq> st"
    then show "trim (cb_input st) \<noteq> [] \<and> str_truthy (cb_transcript st)" by (auto simp: submit_def split: if_splits)
  next
    assume g: "trim (cb_input st) \<noteq> [] \<and> str_truthy (cb_transcript st)"
    then have "length (cb_messages (submit st)) = Suc (length (cb_messages st))" by (simp add: submit_def Let_def)
    then show "submit st \<noteq> st" by auto
  qed
  then show ?thesis using o d by auto
qed

text \<open>The selected bullet point is an index without its message: every assistant
  message with enough points highlights the point at that index.\<close>

lemma chat_selection_every_message:
  assumes "chat_render st = ChatOpen v" and "cb_selected st = Some j"
    and "i < length (cb_messages st)" and "m_role (cb_messages st ! i) = Assistant"
    and "m_bullets (cb_messages st ! i) = Some bs" and "j < length bs"
  shows "bv_selected (mv_bullets (cv_messages v ! i) ! j)"
  using assms by (auto simp: chat_render_def Let_def render_message_def render_bullets_def split: if_splits)

end
