(* ===== verification/CardsView.thy ===== *)
theory CardsView
  imports TranscriptCards
begin

text \<open>
  The parts of TranscriptCards' render that show where the reader is: the component
  renders nothing without chunks (line 132), the progress bar's width
  \<open>((currentChunkIndex + 1) / chunks.length) * 100\<close> in percent (lines 136--142), and
  one pagination dot per chunk, the current one highlighted (lines 240--251).
\<close>

definition cards_rendered :: "cards_state \<Rightarrow> bool" where
  "cards_rendered st \<longleftrightarrow> chunks st \<noteq> []"

definition cards_progress :: "cards_state \<Rightarrow> real" where
  "cards_progress st = real (current_chunk_index st + 1) / real (length (chunks st)) * 100"

definition cards_dots :: "cards_state \<Rightarrow> bool list" where
  "cards_dots st = map (\<lambda>i. i = current_chunk_index st) [0..<length (chunks st)]"

section \<open>Properties\<close>

lemma dots_one: "i < n \<Longrightarrow> length (filter id (map (\<lambda>j. j = i) [0..<n])) = 1"
proof (induction n)
  case (Suc n)
  then show ?case by (cases "i = n") (simp_all add: filter_empty_conv)
qed simp

text \<open>Every state of a mounted component renders, its progress bar is between 0 and
  100 percent and exactly one dot is highlighted.\<close>

lemma cards_view_bounds:
  assumes "cards_reach words pr st"
  shows "cards_rendered st \<and> 0 < cards_progress st \<and> cards_progress st \<le> 100 \<and> length (filter id (cards_dots st)) = 1"
proof -
  let ?q = "real (current_chunk_index st + 1) / real (length (chunks st))"
  have i: "current_chunk_index st < length (chunks st)"
    using cards_invD(2) [OF cards_reach_inv_lemma [OF assms(1)]] .
  then have "real (current_chunk_index st + 1) \<le> real (length (chunks st))" by linarith
  moreover have l: "0 < real (length (chunks st))" using i by auto
  ultimately have q1: "?q \<le> 1" by simp
  have q0: "0 < ?q" using l by simp
  obtain x where x: "x = ?q" by simp
  have "cards_progress st = x * 100" unfolding x by (simp only: cards_progress_def)
  then have "0 < cards_progress st \<and> cards_progress st \<le> 100" using q0 q1 unfolding x [symmetric] by linarith
  then show ?thesis using i dots_one [OF i] by (auto simp: cards_rendered_def cards_dots_def)
qed

end
