(* ===== verification/ChunkLoader.thy ===== *)
theory ChunkLoader
  imports Prelude
begin

text \<open>
  \<open>src/src/app/lib/chunkLoader.ts\<close>: \<open>retryChunkLoad\<close> imports a chunk, and after a
  failure retries up to \<open>maxRetries\<close> times, waiting \<open>2 ^ retries * 1000\<close> ms before
  the retry numbered \<open>retries\<close>.  The outcome of the dynamic \<open>import\<close> on each attempt
  is a parameter \<open>imp\<close> from the value of \<open>retries\<close> at that attempt to a rejection
  (\<open>Inl\<close>) or a module (\<open>Inr\<close>); the result is the settled promise with the list of
  waits made.  The recursion of \<open>loadChunk\<close> terminates by the measure
  \<open>maxRetries - retries\<close>.
\<close>

function load_chunk :: "(nat \<Rightarrow> 'e + 'c) \<Rightarrow> nat \<Rightarrow> nat \<Rightarrow> ('e + 'c) \<times> nat list" where
  "load_chunk imp max_retries retries =
     (case imp retries of
        Inr chunk \<Rightarrow> (Inr chunk, [])
      | Inl err \<Rightarrow>
          if retries < max_retries
          then let (r, ds) = load_chunk imp max_retries (Suc retries) in (r, 2 ^ Suc retries * 1000 # ds)
          else (Inl err, []))"
  by pat_completeness auto
termination by (relation "measure (\<lambda>(imp, m, r). m - r)") auto

declare load_chunk.simps [simp del]

definition retry_chunk_load :: "(nat \<Rightarrow> 'e + 'c) \<Rightarrow> nat \<Rightarrow> ('e + 'c) \<times> nat list" where
  "retry_chunk_load imp max_retries = load_chunk imp max_retries 0"

text \<open>The default \<open>maxRetries = 3\<close>.\<close>

definition retry_chunk_load_default :: "(nat \<Rightarrow> 'e + 'c) \<Rightarrow> ('e + 'c) \<times> nat list" where
  "retry_chunk_load_default imp = retry_chunk_load imp 3"

section \<open>Properties\<close>

text \<open>The loop waits once per failed attempt before the last, each wait twice the one
  before, and settles with the first module imported or, when every attempt up to
  \<open>maxRetries\<close> failed, with the last rejection.\<close>

lemma load_chunk_ok: "imp r = Inr c \<Longrightarrow> load_chunk imp m r = (Inr c, [])"
  by (simp add: load_chunk.simps [of imp m r])

lemma load_chunk_retry:
  "imp r = Inl e \<Longrightarrow> r < m \<Longrightarrow>
   load_chunk imp m r = (fst (load_chunk imp m (Suc r)), 2 ^ Suc r * 1000 # snd (load_chunk imp m (Suc r)))"
  by (simp add: load_chunk.simps [of imp m r] split: prod.splits)

lemma load_chunk_stop: "imp r = Inl e \<Longrightarrow> \<not> r < m \<Longrightarrow> load_chunk imp m r = (Inl e, [])"
  by (simp add: load_chunk.simps [of imp m r])

lemma load_chunk_first_success:
  assumes "r \<le> k" and "k \<le> m" and "imp k = Inr c" and "\<forall>j. r \<le> j \<and> j < k \<longrightarrow> isl (imp j)"
  shows "load_chunk imp m r = (Inr c, map (\<lambda>j. 2 ^ j * 1000) [Suc r..<Suc k])"
  using assms
proof (induction "k - r" arbitrary: r)
  case 0
  then show ?case by (simp add: load_chunk_ok)
next
  case (Suc n)
  then obtain e where e: "imp r = Inl e" by (cases "imp r") auto
  have "load_chunk imp m (Suc r) = (Inr c, map (\<lambda>j. 2 ^ j * 1000) [Suc (Suc r)..<Suc k])"
    using Suc by simp
  moreover have "[Suc r..<Suc k] = Suc r # [Suc (Suc r)..<Suc k]" using Suc.hyps(2) by (simp add: upt_rec)
  ultimately show ?case using load_chunk_retry [of imp r e m, OF e] Suc.hyps(2) Suc.prems(2) by simp
qed

lemma load_chunk_all_fail:
  assumes "r \<le> m" and "\<forall>j. r \<le> j \<and> j \<le> m \<longrightarrow> isl (imp j)"
  shows "load_chunk imp m r = (imp m, map (\<lambda>j. 2 ^ j * 1000) [Suc r..<Suc m])"
  using assms
proof (induction "m - r" arbitrary: r)
  case 0
  then obtain e where "imp m = Inl e" by (cases "imp m") auto
  then show ?case using 0 load_chunk_stop [of imp r e m] by simp
next
  case (Suc n)
  then obtain e where e: "imp r = Inl e" by (cases "imp r") auto
  have "load_chunk imp m (Suc r) = (imp m, map (\<lambda>j. 2 ^ j * 1000) [Suc (Suc r)..<Suc m])"
    using Suc by simp
  moreover have "[Suc r..<Suc m] = Suc r # [Suc (Suc r)..<Suc m]" using Suc.hyps(2) by (simp add: upt_rec)
  ultimately show ?case using load_chunk_retry [of imp r e m, OF e] Suc.hyps(2) by simp
qed

text \<open>With the default bound, four failed attempts wait 2, 4 and 8 seconds and reject.\<close>

lemma retry_default_all_fail:
  "(\<forall>j \<le> 3. imp j = Inl e) \<Longrightarrow> retry_chunk_load_default imp = (Inl e, [2000, 4000, 8000])"
  using load_chunk_all_fail [of 0 3 imp]
  by (simp add: retry_chunk_load_default_def retry_chunk_load_def upt_rec)

end
