(* ===== verification/Spec2Isabelle.thy ===== *)
theory Spec2Isabelle
  imports Transcribe ChatView CardsView ChunkLoader
begin

text \<open>
  \<^bold>\<open>A verification development for SmartRSSFeed.\<close>

  SmartRSSFeed (\<open>src/\<close>) is a Next.js podcast reader.  Three route handlers wrap
  external services: \<open>api/rss/route.ts\<close> fetches and parses a feed,
  \<open>api/transcribe/route.ts\<close> downloads an episode's audio (following HTML pages that
  embed an \<open>.mp3\<close> link) and sends it to a speech-to-text service,
  \<open>api/chat/route.ts\<close> asks a language model about a transcript and parses the
  \<open>[MM:SS]\<close> bullet points of its answer.  The browser side is React:
  \<open>page.tsx\<close> keeps the feed subscriptions (persisted in local storage),
  \<open>Sidebar.tsx\<close> adds and deletes feeds, \<open>FeedList.tsx\<close> merges the episodes of
  all feeds, \<open>ContentPanel.tsx\<close> owns the audio player and the transcription request,
  \<open>TranscriptCards.tsx\<close> splits the transcript's words into pages ("chunks") and keeps
  the shown page, the highlighted word and the player in step, and \<open>AIChatBot.tsx\<close> is
  the question-answering panel.  ContentPanel and AIChatBot talk only through
  \<open>window.postMessage\<close>: \<open>TRANSCRIPT_READY\<close> carries the transcript to the chat
  panel, \<open>PLAY_AUDIO\<close> carries a timestamp back to the player.

  \<^bold>\<open>Theories.\<close>
  \<^item> \<open>Prelude\<close>: the JavaScript library functions the components share
    (\<open>join\<close>, one-character \<open>split\<close>, \<open>trim\<close>, truthiness and \<open>||\<close> on optional
    strings), the collection \<open>js_simps\<close>, and the type \<open>sec = real\<close> of playback times.
  \<^item> \<open>Chunker\<close>: \<open>Word\<close> and \<open>TranscriptChunk\<close> as records and the chunking effect of
    TranscriptCards.tsx (lines 39--69) as a \<open>foldl\<close> of the loop body
    \<open>chunk_step\<close> over the enumerated words (\<open>split_into_chunks\<close>), with the effect's
    early return (\<open>chunk_effect\<close>).  The reference partition \<open>chunk_groups\<close> and the
    declarative contract \<open>valid_chunking\<close> are the abstract specification: the loop
    computes \<open>chunk_groups\<close> (\<open>split_into_chunks_groups\<close>), which meets the contract
    (C1), and the contract has no other solution (C2).  C3--C5 and C7--C9 are the
    spec's testable properties and its 150-word scenario (coverage, sentence boundaries,
    chunk shape, the first-boundary rule) and the bound on the number of chunks; the
    spec's two-word scenario is the lemma \<open>split_into_chunks_the_cat\<close>.

  \<^item> \<open>TranscriptCards\<close>: the page state (\<open>chunks\<close>, \<open>currentChunkIndex\<close>,
    \<open>dragDirection\<close>, \<open>gotoPage\<close>) as the record \<open>cards_state\<close>; the auto-advance
    effect (\<open>auto_advance\<close>), \<open>navigateChunk\<close>, \<open>handleDragEnd\<close>,
    \<open>handleGotoPage\<close> (with JavaScript's \<open>parseInt\<close> from the prelude) and
    \<open>handleWordClick\<close> as functions returning the new state and the \<open>onTimeUpdate\<close>
    calls they make.  One step of a mounted component (\<open>cards_step\<close>) is a handler
    followed by the auto-advance effect, which React re-runs after every change of its
    dependencies; since \<open>auto_advance\<close> is idempotent one run reaches the settled state.
    The lifetime of a mounted component is the inductive relation \<open>cards_reach\<close>;
    C10 is its page-index invariant (the render's \<open>chunks[currentChunkIndex]\<close> is
    defined) together with what a new \<open>words\<close> prop does to it (new chunks, same
    index); C11--C16 and C18 the navigation guards, \<open>parseInt\<close> on the page field,
    the Ctrl-click seek, auto-advance and the highlight rule, including a behaviour the
    spec does not intend: a click on the next arrow while playing is undone by the
    effect (C18).  Examples show auto-advance jumping backwards and two overlapping
    words highlighted at once.
  \<^item> \<open>ContentPanel\<close>: the panel's state variables as the record \<open>panel_state\<close>, the
    HTML audio element as an optional \<open>audio_element\<close>, the four media listeners,
    \<open>handleTimeUpdate\<close>, \<open>handleAudioRequest\<close> and the \<open>PLAY_AUDIO\<close> listener, the
    reset on a new \<open>audioUrl\<close> (\<open>select_audio\<close>), and \<open>handleGetTranscript\<close> split at
    its \<open>await\<close> into \<open>start_transcript\<close> and \<open>finish_transcript\<close>.  A request in
    flight is the URL it was sent for in the list \<open>pending\<close>; the event
    \<open>TranscribeDone i\<close> completes the \<open>i\<close>-th, so every order of arrival is a run.
    The transcription service is a parameter from URLs to responses.  C20--C22: the
    message listener ignores timestamp 0, the error branch of the request, and a late
    response shown for the wrong episode.
  \<^item> \<open>Session\<close>: the panel with its TranscriptCards child.  \<open>reconcile\<close> does what
    React does after every change of the panel: unmount the child when the panel stops
    rendering it, mount it, or re-render it with new props and run its effects; a
    render whose \<open>chunks[currentChunkIndex]\<close> is undefined sets \<open>crashed\<close>.  C23
    is the invariant of every run (the child is consistent with the panel); C24 shows a
    run with two requests in flight that crashes the application; C25 shows that runs
    which never have two requests in flight never crash.

  \<^item> \<open>ChatRoute\<close>: \<open>api/chat/route.ts\<close>.  The route's timestamp regular expression
    is a backtracking matcher built from the prelude's combinators (a matcher returns
    the remainders of every way to match, in JavaScript's priority order), so
    \<open>extractBulletPoints\<close> and \<open>formatResponse\<close> are line-by-line functions as in the
    code; \<open>POST\<close> is a function to an error sum (\<open>chat_post\<close>) with the language model
    as a parameter.  C26--C29: every extracted bullet point comes from one line with a
    timestamp, the captured timestamp parses, formatting keeps the lines, and the status
    of each error branch; \<open>chat_post_summary_example\<close> runs a summary request end to
    end.
  \<^item> \<open>ChatBot\<close>: AIChatBot.tsx's state as the record \<open>chatbot_state\<close>, submit split at
    its \<open>await\<close> (requests in flight keep the transcript their closure saw), clearing,
    the keyboard selection over the messages its listener closed over, the bullet
    buttons, and \<open>formatTimestamp\<close>; C31 is the round trip from \<open>formatTimestamp\<close>
    through the route's parser back to the same number of seconds.
  \<^item> \<open>Transcribe\<close>: \<open>api/transcribe/route.ts\<close>.  \<open>fetchAudioWithRedirects\<close> is
    \<open>fetch_loop\<close>, a \<open>function\<close> over an abstract network whose termination is the
    measure \<open>maxRedirects - redirectCount\<close> (the bound 5 of the code); the loop body
    \<open>fetch_body\<close> returns the result or the next URL.  \<open>POST\<close> and its error
    classification return an error sum, and \<open>as_panel_response\<close> connects the route's
    answer to ContentPanel's response type.  C32--C36: the requests made, the errors
    raised (\<open>Too many redirects\<close> is unreachable), the chain of HTML pages followed,
    every followed link in lower case (the first bytes are lower-cased before the link
    is searched, so a mixed-case link is requested under another name), and the route's
    answer as the panel reads it.
  \<^item> \<open>Feeds\<close>: \<open>api/rss/route.ts\<close> (the item mapping and \<open>POST\<close>), FeedList.tsx's
    \<open>fetchFeed\<close> and \<open>fetchAllFeeds\<close> (a stable sort by date, newest first, as
    \<open>sort_key\<close>, then 25 kept), and the subscriptions of \<open>page.tsx\<close> with Sidebar.tsx's
    add and delete: the record \<open>page_state\<close>, \<open>loadFeeds\<close> (with the stored value
    absent, corrupt or a list), the persistence effect \<open>persist\<close> run after every
    handler, and the events of the page as \<open>page_step\<close> with the reachability relation
    \<open>page_reach\<close>.  The RSS fetch and parse is a parameter.  C37: the merged list is
    the newest 25 episodes, sorted; C38: storage holds the opened value while loading and
    the feeds afterwards (so a corrupt value is overwritten with the empty list); C39: a
    feed added while loading is lost.
  \<^item> \<open>FeedList\<close>: FeedList.tsx as a component with state (\<open>fl_state\<close>): its effect on
    \<open>[selectedFeed, allFeeds]\<close> sends a request and keeps it in flight with the
    selection it was sent for, and the event completing the \<open>i\<close>-th sets the items, so
    every order of arrival is a run; the render \<open>fl_render\<close> (prompt, spinner, error,
    heading, count line, episodes) with the descriptions' tags removed by
    \<open>strip_tags\<close>, the global \<open>replace\<close> of \<open>/<[^>]*>/g\<close> built from the prelude's
    matchers and \<open>js_replace_all\<close>.  C17 characterises \<open>strip_tags\<close>: it keeps a
    subsequence of the text, leaves no tag, is idempotent, and deletes each \<open><\<close> up
    to the first \<open>>\<close> after it; C6 shows a late answer for
    an earlier selection listed under the current heading.  The page header's status
    line and the sidebar's feed list are rendered here too.
  \<^item> \<open>PanelView\<close>: ContentPanel's render as \<open>panel_render\<close> (the prompt without content,
    the crash of \<open>toISOString\<close> on an invalid date, the controls, the button's label
    and \<open>disabled\<close>, the progress width, the error and the transcript section, which
    shows the cards exactly when \<open>shows_cards\<close> holds), and the unused helper
    \<open>formatContent\<close>, whose decoding of \<open>&amp;\<close> first decodes escaped markup twice.
  \<^item> \<open>App\<close>: the page, FeedList, the panel with its cards (\<open>Session\<close>) and the chat
    panel as one state \<open>app\<close> with the queue of \<open>window.postMessage\<close> messages.  The
    page passes FeedList its selection and feeds and the panel its selected episode's
    \<open>audioUrl\<close> (each effect runs when its props change; at mount FeedList's effect runs
    before the page's); a queued message is dispatched by the event \<open>Deliver\<close> to both
    listeners, in order, so every interleaving of the components' events with the
    dispatch is a run.  \<open>app_inv\<close>, proved of every state of \<open>app_reach\<close> by rule
    induction, says that the chat will hold the panel's transcript once the queue is
    dispatched; C40 is that liveness property.  \<open>bot_wf\<close>, proved the same way, is
    the chat panel's well-formedness (C30: one request in flight at most, and
    \<open>isLoading\<close> exactly while one is).  C19 shows that until a crash the panel plays
    the selected episode and shows controls exactly when it has an enclosure URL, \<open>app_reach_list_loading\<close> that
    FeedList's spinner shows only while one of its requests is in flight.  \<open>chat_keeps_old_transcript\<close> shows
    that after an episode switch the chat still asks about the old transcript.
  \<^item> \<open>ChatView\<close>: AIChatBot's render as \<open>chat_render\<close> (hint line, messages with their
    bullet points' labels and highlight, typing indicator, input and send button);
    its lemmas show that the send button is enabled exactly when submitting sends a
    question, and that the selected bullet index is highlighted in every message.
  \<^item> \<open>CardsView\<close>: TranscriptCards' null render, progress bar and pagination dots; by
    the page-index invariant every mounted state renders, with a progress between 0 and
    100 percent and exactly one highlighted dot.
  \<^item> \<open>ChunkLoader\<close>: \<open>retryChunkLoad\<close> of \<open>lib/chunkLoader.ts\<close> as a \<open>function\<close>
    terminating by the measure \<open>maxRetries - retries\<close>, with the import's outcome per
    attempt a parameter; its lemmas give the waits and the result when an attempt
    succeeds and when all fail.  \<open>next.config.js\<close> adds the module to the client
    bundle, but nothing calls \<open>retryChunkLoad\<close>.

  \<^bold>\<open>Bounds and fuel.\<close>  No fuel is needed: every loop of the modelled code is a
  \<open>forEach\<close>, \<open>map\<close> or \<open>findIndex\<close> over a finite list (structural recursion),
  the redirect loop and the retry loop count up to a bound of the code (a measure),
  and the regular expression matchers recurse on the length of the string.

  \<^bold>\<open>Not modelled.\<close>  Markup, CSS and animation: the renders of FeedList, ContentPanel,
  AIChatBot, the page header, the sidebar and TranscriptCards' position indicators are
  modelled as the values they show, not as HTML; the word markup of TranscriptCards is
  modelled only through \<open>highlighted_words\<close>.  \<open>toLocaleDateString\<close>, \<open>new URL(...).hostname\<close>, DOMPurify (a
  parameter where it is called), the external services
  themselves (RSS parsing, Deepgram, Gemini, \<open>fetch\<close>, \<open>import\<close>), timers (the
  back-off waits are recorded, not performed), \<open>Logo.tsx\<close>, \<open>Footer.tsx\<close>, the
  markup of \<open>layout.tsx\<close> (only its mounting of AIChatBot beside the page is used),
  \<open>tailwind.config.ts\<close> and \<open>next.config.js\<close> (configuration only).  Dates are read
  through a parameter standing for \<open>new Date(d).getTime()\<close> (invalid dates, whose
  \<open>NaN\<close> makes the sort comparator inconsistent, are not modelled), and whether
  \<open>toISOString\<close> accepts a date is a parameter.  Sidebar.tsx's episode list (lines
  206--261) renders a state that no code sets and is not modelled.
  JavaScript numbers are real numbers: NaN, infinities and floating-point rounding are
  not modelled; the components compare times only with \<open>\<le>\<close> and \<open>\<ge>\<close>.
\<close>

end
